theory Spec2Isabelle
  imports Main
begin

section \<open>Data model\<close>

text \<open>
  The server keeps every entity as one JSON document in a GitHub repository. The documents
  are modelled as typed records with the fields the server writes; a field the server tests
  for absence is an \<open>option\<close>. Timestamps are written with \<open>new Date().toISOString()\<close> and
  read back with \<open>new Date(s)\<close>; they are modelled as the millisecond count of the instant.
  Counters are JavaScript numbers holding integers and are modelled as \<open>int\<close>.
\<close>

type_synonym path = string

datatype comment = Comment
  (c_id: string) (c_content: string) (c_author: string) (c_parentId: "string option")
  (c_createdAt: int) (c_upvotes: int) (c_downvotes: int) (c_score: int)
  (c_replies: "comment list")

record post =
  p_id :: string
  p_slug :: string
  p_title :: string
  p_content :: string
  p_type :: string
  p_author :: string
  p_community :: string
  p_createdAt :: int
  p_upvotes :: int
  p_downvotes :: int
  p_score :: int
  p_comments :: "comment list"
  p_commentCount :: int
  p_voters :: "(string \<rightharpoonup> int) option"

record comment_ref =
  cr_postId :: string
  cr_commentId :: string
  cr_createdAt :: int

record user =
  u_id :: string
  u_username :: string
  u_email :: string
  u_password :: "string option"
  u_createdAt :: int
  u_karma :: int
  u_posts :: "string list"
  u_comments :: "comment_ref list"
  u_communities :: "string list"
  u_avatarUrl :: string
  u_about :: "string option"
  u_savedPosts :: "string list option"

record community =
  cm_id :: string
  cm_name :: string
  cm_displayName :: string
  cm_description :: string
  cm_creator :: string
  cm_createdAt :: int
  cm_members :: "string list"
  cm_moderators :: "string list option"
  cm_memberCount :: int
  cm_posts :: "string list"
  cm_iconUrl :: string
  cm_bannerUrl :: string

record user_ref =
  ur_id :: string
  ur_file :: path
  ur_createdAt :: int
  ur_avatarUrl :: string

record community_ref =
  gr_id :: string
  gr_file :: path
  gr_createdAt :: int
  gr_memberCount :: int
  gr_iconUrl :: string

record post_ref =
  pr_file :: path
  pr_community :: string
  pr_author :: string
  pr_createdAt :: int
  pr_slug :: string

text \<open>
  The index document. Its three maps are optional, because \<open>getIndex\<close> tests each of them
  for absence. \<open>index.posts\<close> is enumerated with \<open>Object.entries\<close>, so it is an association
  list in insertion order; the other two maps are only looked up.
\<close>

record index =
  i_version :: string
  i_lastUpdated :: int
  i_communities :: "(string \<rightharpoonup> community_ref) option"
  i_users :: "(string \<rightharpoonup> user_ref) option"
  i_posts :: "(string \<times> post_ref) list option"

record config =
  retentionDays :: int

text \<open>
  A parsed document: a document of one of the entity types, or an object that holds only
  string fields, in insertion order. The latter is what the profile and community updates
  write when they find an empty document; with no field at all it is the empty object \<open>{}\<close>,
  for which \<open>Object.keys(content).length\<close> is 0. Its keys are names of string fields only: a
  field that the server reads as a number, a list or a map (\<open>comments\<close>, \<open>voters\<close>,
  \<open>moderators\<close>, \<open>retentionDays\<close> and the like) is absent from it. A document of one entity type
  stored where the server expects another is outside of this data model: the model answers
  the read of a field that such a document lacks with the \<open>TypeError\<close> that the empty object
  raises.
\<close>

datatype doc =
    Fields "(string \<times> string) list"
  | Index index
  | User user
  | Community community
  | Post post
  | Config config

abbreviation Empty :: doc where
  "Empty \<equiv> Fields []"

text \<open>\<open>obj[k] = v\<close> on an object of string fields, and the object without the key \<open>k\<close>.\<close>

fun put_field :: "string \<Rightarrow> string \<Rightarrow> (string \<times> string) list \<Rightarrow> (string \<times> string) list" where
  "put_field k v [] = [(k, v)]"
| "put_field k v (kv # kvs) = (if fst kv = k then (k, v) # kvs else kv # put_field k v kvs)"

definition drop_field :: "string \<Rightarrow> (string \<times> string) list \<Rightarrow> (string \<times> string) list" where
  "drop_field k kvs = filter (\<lambda>kv. fst kv \<noteq> k) kvs"

section \<open>The blob store\<close>

text \<open>
  The GitHub repository is the environment of the server. A file is blank (empty or
  white space), unparseable, or the JSON text of a document. The \<open>sha\<close> GitHub reports for a
  file is the git blob hash of its contents; it is modelled by the contents themselves, a
  hash without collisions. A request to GitHub may also fail for reasons outside the server
  (network, rate limit): \<open>outage\<close> says for which operation and path it does.
\<close>

datatype body = Blank | Corrupt | Json doc

type_synonym sha = body

datatype op = Get | Put | Del

record store =
  files :: "path \<rightharpoonup> body"
  outage :: "op \<Rightarrow> path \<Rightarrow> bool"

datatype exn =
    ApiError nat
  | TypeError
  | DirectEmpty
  | IllegalArguments

fun message :: "exn \<Rightarrow> string" where
  "message (ApiError n) = ''Request failed''"
| "message TypeError = ''Cannot read properties of undefined''"
| "message DirectEmpty = ''Direct fetch returned empty''"
| "message IllegalArguments = ''Illegal arguments''"

record fetched =
  f_content :: doc
  f_sha :: "sha option"

definition DATA_PATH :: string where
  "DATA_PATH = ''data''"

text \<open>
  \<open>getFileFromGitHub\<close>: \<open>null\<close> on 404, the empty object for a blank or unparseable file,
  the parsed document otherwise; any other failure of the request is rethrown. Files above
  1 MB are read through the blob API and give the same result.
\<close>

definition getFileFromGitHub :: "store \<Rightarrow> path \<Rightarrow> exn + fetched option" where
  "getFileFromGitHub s filePath =
     (if outage s Get filePath then Inl (ApiError 500)
      else case files s filePath of
             None \<Rightarrow> Inr None
           | Some b \<Rightarrow>
               (case b of
                  Blank \<Rightarrow> Inr (Some \<lparr>f_content = Empty, f_sha = Some b\<rparr>)
                | Corrupt \<Rightarrow> Inr (Some \<lparr>f_content = Empty, f_sha = Some b\<rparr>)
                | Json d \<Rightarrow> Inr (Some \<lparr>f_content = d, f_sha = Some b\<rparr>)))"

text \<open>
  \<open>saveFileToGitHub\<close> passes \<open>existingSha\<close> to \<open>createOrUpdateFileContents\<close> when it is set.
  GitHub creates the file when the path is free and no sha is given, replaces it when the
  given sha is the one of the stored file, and rejects the request (409) otherwise. The
  data to save is a document, so the guard against \<open>undefined\<close> data never fires.
\<close>

definition saveFileToGitHub :: "store \<Rightarrow> path \<Rightarrow> doc \<Rightarrow> sha option \<Rightarrow> exn + store" where
  "saveFileToGitHub s filePath data existingSha =
     (if outage s Put filePath then Inl (ApiError 500)
      else if files s filePath = existingSha
        then Inr (s\<lparr>files := (files s)(filePath \<mapsto> Json data)\<rparr>)
        else Inl (ApiError 409))"

text \<open>
  \<open>deleteFileFromGitHub\<close> reads the file for its sha, returns when there is none, deletes
  otherwise, and swallows every error.
\<close>

definition deleteFileFromGitHub :: "store \<Rightarrow> path \<Rightarrow> store" where
  "deleteFileFromGitHub s filePath =
     (case getFileFromGitHub s filePath of
        Inl e \<Rightarrow> s
      | Inr None \<Rightarrow> s
      | Inr (Some result) \<Rightarrow>
          (case f_sha result of
             None \<Rightarrow> s
           | Some h \<Rightarrow>
               if outage s Del filePath then s
               else if files s filePath = Some h
                 then s\<lparr>files := (files s)(filePath := None)\<rparr>
                 else s))"

section \<open>The index\<close>

definition communities :: "index \<Rightarrow> string \<rightharpoonup> community_ref" where
  "communities ix = (case i_communities ix of None \<Rightarrow> Map.empty | Some m \<Rightarrow> m)"

definition users :: "index \<Rightarrow> string \<rightharpoonup> user_ref" where
  "users ix = (case i_users ix of None \<Rightarrow> Map.empty | Some m \<Rightarrow> m)"

definition posts :: "index \<Rightarrow> (string \<times> post_ref) list" where
  "posts ix = (case i_posts ix of None \<Rightarrow> [] | Some m \<Rightarrow> m)"

definition initialIndex :: "int \<Rightarrow> index" where
  "initialIndex now =
     \<lparr>i_version = ''1.0.0'', i_lastUpdated = now,
      i_communities = Some Map.empty, i_users = Some Map.empty, i_posts = Some []\<rparr>"

definition index_path :: path where
  "index_path = DATA_PATH @ ''/index.json''"

text \<open>
  \<open>getIndex\<close>. A missing, blank, unparseable or empty index is replaced by a fresh one, which
  is written to the store and returned with \<open>sha: null\<close>. Otherwise the stored document is
  returned with its sha, each absent map set to \<open>{}\<close> in memory; nothing is written. The
  result is the loaded index, its sha and the store after the call. A file at the index
  path that holds neither an index nor the empty object is outside the data model.
\<close>

definition getIndex :: "store \<Rightarrow> int \<Rightarrow> exn + (index \<times> sha option \<times> store)" where
  "getIndex s now =
     (case getFileFromGitHub s index_path of
        Inl e \<Rightarrow> Inl e
      | Inr None \<Rightarrow>
          (case saveFileToGitHub s index_path (Index (initialIndex now)) None of
             Inl e \<Rightarrow> Inl e
           | Inr s' \<Rightarrow> Inr (initialIndex now, None, s'))
      | Inr (Some result) \<Rightarrow>
          if f_content result = Empty then
            (case saveFileToGitHub s index_path (Index (initialIndex now)) (f_sha result) of
               Inl e \<Rightarrow> Inl e
             | Inr s' \<Rightarrow> Inr (initialIndex now, None, s'))
          else
            (case f_content result of
               Index ix \<Rightarrow>
                 Inr (ix\<lparr>i_users := Some (users ix),
                         i_communities := Some (communities ix),
                         i_posts := Some (posts ix)\<rparr>,
                      f_sha result, s)
             | _ \<Rightarrow> Inl TypeError))"

text \<open>\<open>updateIndex\<close> stamps \<open>lastUpdated\<close> and writes the index with the sha it was read at.\<close>

definition updateIndex :: "store \<Rightarrow> int \<Rightarrow> index \<Rightarrow> sha option \<Rightarrow> exn + store" where
  "updateIndex s now indexData h =
     saveFileToGitHub s index_path (Index (indexData\<lparr>i_lastUpdated := now\<rparr>)) h"

section \<open>Responses\<close>

text \<open>
  What the profile route puts in place of the post ids and comment references of a user:
  the stored post without its voters, and the stored comment, each with the fields the
  route adds.
\<close>

record populated_post =
  pp_post :: doc
  pp_authorAvatar :: string
  pp_communityIcon :: string

record populated_comment =
  pc_comment :: comment
  pc_postId :: string
  pc_postTitle :: string
  pc_community :: string
  pc_authorAvatar :: string

datatype payload =
    ErrorBody string
  | VoteBody int int int
  | CommentBody comment
  | DocBody doc
  | UserBody doc
  | ProfileBody doc "populated_post list" "populated_comment list"
  | SuccessBody

datatype response = Response nat payload

fun status :: "response \<Rightarrow> nat" where
  "status (Response n b) = n"

fun payload_of :: "response \<Rightarrow> payload" where
  "payload_of (Response n b) = b"

definition failed :: "exn \<Rightarrow> response" where
  "failed e = Response 500 (ErrorBody (message e))"

section \<open>Votes\<close>

text \<open>
  The body of the vote route between reading the post and saving it: the previous vote of
  the user (\<open>voters[username] || 0\<close>), the two counters, the voters map and the score.
\<close>

definition previousVote :: "(string \<rightharpoonup> int) \<Rightarrow> string \<Rightarrow> int" where
  "previousVote voters username = (case voters username of None \<Rightarrow> 0 | Some v \<Rightarrow> v)"

definition cast_vote :: "string \<Rightarrow> int \<Rightarrow> post \<Rightarrow> exn + post" where
  "cast_vote username vote postData =
     (case p_voters postData of
        None \<Rightarrow> Inl TypeError
      | Some voters \<Rightarrow>
          let up1 = (if previousVote voters username = 1 then p_upvotes postData - 1
                     else p_upvotes postData);
              down1 = (if previousVote voters username = - 1 then p_downvotes postData - 1
                       else p_downvotes postData);
              up2 = (if vote = 1 then up1 + 1 else up1);
              down2 = (if vote = - 1 then down1 + 1 else down1)
          in Inr (postData\<lparr>p_upvotes := up2, p_downvotes := down2,
                            p_voters := Some (voters(username \<mapsto> vote)),
                            p_score := up2 - down2\<rparr>))"

text \<open>
  \<open>POST /api/posts/:postId/vote\<close>. \<open>username\<close> and \<open>vote\<close> come from the request body and may be
  absent; an empty user name is as good as none.
\<close>

definition vote_route ::
  "store \<Rightarrow> int \<Rightarrow> string \<Rightarrow> string option \<Rightarrow> int option \<Rightarrow> response \<times> store" where
  "vote_route s now postId username vote =
     (case (username, vote) of
        (Some u, Some v) \<Rightarrow>
          if u = [] then (Response 400 (ErrorBody ''Username and vote required''), s)
          else
            (case getIndex s now of
               Inl e \<Rightarrow> (failed e, s)
             | Inr (index, indexSha, s1) \<Rightarrow>
                 (case map_of (posts index) postId of
                    None \<Rightarrow> (Response 404 (ErrorBody ''Post not found''), s1)
                  | Some meta \<Rightarrow>
                      (case getFileFromGitHub s1 (DATA_PATH @ ''/'' @ pr_file meta) of
                         Inl e \<Rightarrow> (failed e, s1)
                       | Inr None \<Rightarrow> (failed TypeError, s1)
                       | Inr (Some postResult) \<Rightarrow>
                           (case f_content postResult of
                              Post postData \<Rightarrow>
                                (case cast_vote u v postData of
                                   Inl e \<Rightarrow> (failed e, s1)
                                 | Inr postData' \<Rightarrow>
                                     (case saveFileToGitHub s1 (DATA_PATH @ ''/'' @ pr_file meta)
                                             (Post postData') (f_sha postResult) of
                                        Inl e \<Rightarrow> (failed e, s1)
                                      | Inr s2 \<Rightarrow>
                                          (Response 200 (VoteBody (p_upvotes postData')
                                             (p_downvotes postData') (p_score postData')), s2)))
                            | _ \<Rightarrow> (failed TypeError, s1)))))
      | _ \<Rightarrow> (Response 400 (ErrorBody ''Username and vote required''), s))"

text \<open>
  The file an index entry of the stored index points to, and the post stored there.
\<close>

definition stored_index :: "store \<Rightarrow> index option" where
  "stored_index s =
     (case files s index_path of Some (Json (Index ix)) \<Rightarrow> Some ix | _ \<Rightarrow> None)"

definition post_path :: "store \<Rightarrow> string \<Rightarrow> path option" where
  "post_path s postId =
     (case stored_index s of
        None \<Rightarrow> None
      | Some ix \<Rightarrow>
          (case map_of (posts ix) postId of
             None \<Rightarrow> None
           | Some meta \<Rightarrow> Some (DATA_PATH @ ''/'' @ pr_file meta)))"

definition stored_post :: "store \<Rightarrow> string \<Rightarrow> post option" where
  "stored_post s postId =
     (case post_path s postId of
        None \<Rightarrow> None
      | Some f \<Rightarrow> (case files s f of Some (Json (Post p)) \<Rightarrow> Some p | _ \<Rightarrow> None))"

text \<open>A sequence of vote calls on one post, with the response and the store after each.\<close>

fun vote_trace ::
  "store \<Rightarrow> int \<Rightarrow> string \<Rightarrow> (string option \<times> int option) list \<Rightarrow> (response \<times> store) list" where
  "vote_trace s now postId [] = []"
| "vote_trace s now postId (c # cs) =
     vote_route s now postId (fst c) (snd c) #
     vote_trace (snd (vote_route s now postId (fst c) (snd c))) now postId cs"

section \<open>Comments\<close>

definition MAX_NESTING_DEPTH :: nat where
  "MAX_NESTING_DEPTH = 10"

fun with_replies :: "comment \<Rightarrow> comment list \<Rightarrow> comment" where
  "with_replies (Comment i ct a p t u d sc rs) rs' = Comment i ct a p t u d sc rs'"

text \<open>
  \<open>addReply(comments, depth)\<close> pushes \<open>comment\<close> onto the replies of the first node with id
  \<open>parentId\<close> that its search reaches and returns \<open>true\<close>, or changes nothing and returns
  \<open>false\<close>. The model returns the changed list, or \<open>None\<close> for \<open>false\<close>. \<open>addReply_each\<close> is
  the \<open>for\<close> loop over one list of comments.
\<close>

fun addReply :: "comment \<Rightarrow> string \<Rightarrow> comment list \<Rightarrow> nat \<Rightarrow> comment list option"
  and addReply_each :: "comment \<Rightarrow> string \<Rightarrow> comment list \<Rightarrow> nat \<Rightarrow> comment list option" where
  "addReply comment parentId comments depth =
     (if depth > MAX_NESTING_DEPTH then None
      else addReply_each comment parentId comments depth)"
| "addReply_each comment parentId [] depth = None"
| "addReply_each comment parentId (Comment i ct a p t u d sc rs # cs) depth =
     (if i = parentId then Some (Comment i ct a p t u d sc (rs @ [comment]) # cs)
      else case (if rs \<noteq> [] then addReply comment parentId rs (depth + 1) else None) of
             Some rs' \<Rightarrow> Some (Comment i ct a p t u d sc rs' # cs)
           | None \<Rightarrow>
               (case addReply_each comment parentId cs depth of
                  None \<Rightarrow> None
                | Some cs' \<Rightarrow> Some (Comment i ct a p t u d sc rs # cs')))"

text \<open>
  The comment route between building the comment and saving the post: with a truthy
  \<open>parentId\<close> the reply is placed by \<open>addReply\<close>, and the route gives up when that returns
  \<open>false\<close>; otherwise the comment is pushed onto the top-level list. Then \<open>commentCount++\<close>.
\<close>

definition insert_comment :: "comment \<Rightarrow> string option \<Rightarrow> post \<Rightarrow> post option" where
  "insert_comment comment parentId postData =
     (case parentId of
        None \<Rightarrow>
          Some (postData\<lparr>p_comments := p_comments postData @ [comment],
                          p_commentCount := p_commentCount postData + 1\<rparr>)
      | Some pid \<Rightarrow>
          if pid = [] then
            Some (postData\<lparr>p_comments := p_comments postData @ [comment],
                            p_commentCount := p_commentCount postData + 1\<rparr>)
          else
            (case addReply comment pid (p_comments postData) 0 of
               None \<Rightarrow> None
             | Some cs \<Rightarrow>
                 Some (postData\<lparr>p_comments := cs,
                                 p_commentCount := p_commentCount postData + 1\<rparr>)))"

text \<open>
  The last step of the comment route: when the index knows the author, the comment is put
  in front of the comments of the author's user document.
\<close>

definition note_comment ::
  "store \<Rightarrow> index \<Rightarrow> string \<Rightarrow> comment_ref \<Rightarrow> exn + store" where
  "note_comment s index author cref =
     (case users index author of
        None \<Rightarrow> Inr s
      | Some meta \<Rightarrow>
          (case getFileFromGitHub s (DATA_PATH @ ''/'' @ ur_file meta) of
             Inl e \<Rightarrow> Inl e
           | Inr None \<Rightarrow> Inr s
           | Inr (Some userResult) \<Rightarrow>
               (case f_content userResult of
                  User userData \<Rightarrow>
                    saveFileToGitHub s (DATA_PATH @ ''/'' @ ur_file meta)
                      (User (userData\<lparr>u_comments := cref # u_comments userData\<rparr>))
                      (f_sha userResult)
                | _ \<Rightarrow> Inl TypeError)))"

text \<open>
  \<open>POST /api/posts/:postId/comments\<close>. \<open>commentId\<close> is the fresh \<open>uuidv4()\<close>; \<open>content\<close>,
  \<open>author\<close> and \<open>parentId\<close> come from the request body.
\<close>

definition comment_route ::
  "store \<Rightarrow> int \<Rightarrow> string \<Rightarrow> string \<Rightarrow> string option \<Rightarrow> string option \<Rightarrow> string option
     \<Rightarrow> response \<times> store" where
  "comment_route s now commentId postId content author parentId =
     (case (content, author) of
        (Some ct, Some a) \<Rightarrow>
          if ct = [] \<or> a = [] then (Response 400 (ErrorBody ''Content and author required''), s)
          else
            (case getIndex s now of
               Inl e \<Rightarrow> (failed e, s)
             | Inr (index, indexSha, s1) \<Rightarrow>
                 (case map_of (posts index) postId of
                    None \<Rightarrow> (Response 404 (ErrorBody ''Post not found''), s1)
                  | Some meta \<Rightarrow>
                      (case getFileFromGitHub s1 (DATA_PATH @ ''/'' @ pr_file meta) of
                         Inl e \<Rightarrow> (failed e, s1)
                       | Inr None \<Rightarrow> (failed TypeError, s1)
                       | Inr (Some postResult) \<Rightarrow>
                           (case f_content postResult of
                              Post postData \<Rightarrow>
                                (case insert_comment (Comment commentId ct a parentId now 1 0 1 [])
                                        parentId postData of
                                   None \<Rightarrow>
                                     (Response 404 (ErrorBody
                                        ''Parent comment not found or max nesting depth exceeded''), s1)
                                 | Some postData' \<Rightarrow>
                                     (case saveFileToGitHub s1 (DATA_PATH @ ''/'' @ pr_file meta)
                                             (Post postData') (f_sha postResult) of
                                        Inl e \<Rightarrow> (failed e, s1)
                                      | Inr s2 \<Rightarrow>
                                          (case note_comment s2 index a
                                                  \<lparr>cr_postId = postId, cr_commentId = commentId,
                                                   cr_createdAt = now\<rparr> of
                                             Inl e \<Rightarrow> (failed e, s2)
                                           | Inr s3 \<Rightarrow>
                                               (Response 201 (CommentBody
                                                  (Comment commentId ct a parentId now 1 0 1 [])), s3))))
                            | _ \<Rightarrow> (failed TypeError, s1)))))
      | _ \<Rightarrow> (Response 400 (ErrorBody ''Content and author required''), s))"

text \<open>A sequence of comment calls on one post, with the response and the store after each.\<close>

record comment_call =
  cc_commentId :: string
  cc_content :: "string option"
  cc_author :: "string option"
  cc_parentId :: "string option"

fun comment_trace ::
  "store \<Rightarrow> int \<Rightarrow> string \<Rightarrow> comment_call list \<Rightarrow> (response \<times> store) list" where
  "comment_trace s now postId [] = []"
| "comment_trace s now postId (c # cs) =
     comment_route s now (cc_commentId c) postId (cc_content c) (cc_author c) (cc_parentId c) #
     comment_trace
       (snd (comment_route s now (cc_commentId c) postId (cc_content c) (cc_author c)
               (cc_parentId c)))
       now postId cs"

text \<open>The comments at a given depth of a forest, the top-level list being depth 0.\<close>

fun at_depth :: "nat \<Rightarrow> comment list \<Rightarrow> comment list" where
  "at_depth 0 cs = cs"
| "at_depth (Suc d) cs = at_depth d (concat (map c_replies cs))"

text \<open>
  \<open>reply_added comment parentId k cs cs'\<close>: the forest \<open>cs'\<close> is \<open>cs\<close> with \<open>comment\<close> appended to
  the replies of one node that has id \<open>parentId\<close> and lies \<open>k\<close> levels below the list \<open>cs\<close>;
  nothing else differs.
\<close>

inductive reply_added :: "comment \<Rightarrow> string \<Rightarrow> nat \<Rightarrow> comment list \<Rightarrow> comment list \<Rightarrow> bool" where
  here: "c_id c = parentId \<Longrightarrow>
     reply_added comment parentId 0 (xs @ c # ys)
       (xs @ with_replies c (c_replies c @ [comment]) # ys)"
| below: "reply_added comment parentId k (c_replies c) rs' \<Longrightarrow>
     reply_added comment parentId (Suc k) (xs @ c # ys) (xs @ with_replies c rs' # ys)"

text \<open>The number of nodes of a forest.\<close>

fun count_nodes :: "comment list \<Rightarrow> nat" where
  "count_nodes [] = 0"
| "count_nodes (Comment i ct a p t u d sc rs # cs) = Suc (count_nodes rs + count_nodes cs)"

text \<open>A chain of \<open>n\<close> nested comments; the one at depth \<open>d\<close> has the id of \<open>k + d + 1\<close> letters.\<close>

fun nest :: "nat \<Rightarrow> nat \<Rightarrow> comment list" where
  "nest 0 k = []"
| "nest (Suc n) k =
     [Comment (replicate (Suc k) (CHR ''c'')) ''text'' ''bob'' None 0 1 0 1 (nest n (Suc k))]"

text \<open>
  The search of \<open>addReply\<close> said without the code: a comment with the id \<open>pid\<close> lies \<open>k\<close> levels
  below the list \<open>cs\<close>; and one lies at a depth that the search reaches when it enters \<open>cs\<close>
  at depth \<open>d\<close>.
\<close>

definition has_id :: "string \<Rightarrow> nat \<Rightarrow> comment list \<Rightarrow> bool" where
  "has_id pid k cs = (\<exists>c \<in> set (at_depth k cs). c_id c = pid)"

definition within :: "string \<Rightarrow> nat \<Rightarrow> comment list \<Rightarrow> bool" where
  "within pid d cs = (\<exists>k. d + k \<le> MAX_NESTING_DEPTH \<and> has_id pid k cs)"

definition within_each :: "string \<Rightarrow> nat \<Rightarrow> comment list \<Rightarrow> bool" where
  "within_each pid d cs = (\<exists>k. (k = 0 \<or> d + k \<le> MAX_NESTING_DEPTH) \<and> has_id pid k cs)"

section \<open>The profanity filter\<close>

text \<open>
  \<open>hasProfanity(text)\<close> is false for an empty text and otherwise tells whether the text in
  lower case includes one of \<open>BAD_WORDS\<close>. The word list of the source is a parameter of the
  model: nothing below depends on which words it holds. Characters are bytes, and
  \<open>toLowerCase\<close> is modelled on the ASCII letters.
\<close>

definition toLowerCase :: "string \<Rightarrow> string" where
  "toLowerCase text =
     map (\<lambda>c. if 65 \<le> (of_char c :: nat) \<and> (of_char c :: nat) \<le> 90
               then char_of ((of_char c :: nat) + 32) else c) text"

fun startsWith :: "string \<Rightarrow> string \<Rightarrow> bool" where
  "startsWith text [] = True"
| "startsWith [] (w # ws) = False"
| "startsWith (c # cs) (w # ws) = (c = w \<and> startsWith cs ws)"

fun str_includes :: "string \<Rightarrow> string \<Rightarrow> bool" where
  "str_includes [] word = (word = [])"
| "str_includes (c # cs) word = (startsWith (c # cs) word \<or> str_includes cs word)"

definition hasProfanity :: "string list \<Rightarrow> string \<Rightarrow> bool" where
  "hasProfanity BAD_WORDS text =
     (if text = [] then False
      else list_ex (\<lambda>word. str_includes (toLowerCase text) word) BAD_WORDS)"

section \<open>Direct access with the index as fallback\<close>

text \<open>
  \<open>getDirectWithFallback(type, id, fallbackFn)\<close>. The direct fetch succeeds when it returns a
  document that is not empty; a missing or empty document and a failed request all end in
  the \<open>catch\<close> block, which runs the fallback when there is one and rethrows otherwise. The
  fallback reads the index, which may repair it, so it returns the store as well.
\<close>

definition getDirectWithFallback ::
  "store \<Rightarrow> string \<Rightarrow> string \<Rightarrow> (store \<Rightarrow> (exn + fetched option) \<times> store) option
     \<Rightarrow> (exn + fetched option) \<times> store" where
  "getDirectWithFallback s type ident fallbackFn =
     (case (case getFileFromGitHub s (DATA_PATH @ ''/'' @ type @ ''/'' @ ident @ ''.json'') of
              Inl e \<Rightarrow> Inl e
            | Inr None \<Rightarrow> Inl DirectEmpty
            | Inr (Some result) \<Rightarrow>
                if f_content result \<noteq> Empty then Inr result else Inl DirectEmpty) of
        Inr result \<Rightarrow> (Inr (Some result), s)
      | Inl error \<Rightarrow>
          (case fallbackFn of
             Some fallback \<Rightarrow> fallback s
           | None \<Rightarrow> (Inl error, s)))"

section \<open>Communities\<close>

text \<open>The fallback of \<open>GET /api/r/:community\<close>: the file the index names for the community.\<close>

definition community_fallback ::
  "int \<Rightarrow> string \<Rightarrow> store \<Rightarrow> (exn + fetched option) \<times> store" where
  "community_fallback now community s =
     (case getIndex s now of
        Inl e \<Rightarrow> (Inl e, s)
      | Inr (index, indexSha, s1) \<Rightarrow>
          (case communities index community of
             None \<Rightarrow> (Inr None, s1)
           | Some meta \<Rightarrow> (getFileFromGitHub s1 (DATA_PATH @ ''/'' @ gr_file meta), s1)))"

definition get_community_route ::
  "string list \<Rightarrow> store \<Rightarrow> int \<Rightarrow> string \<Rightarrow> response \<times> store" where
  "get_community_route BAD_WORDS s now community =
     (if hasProfanity BAD_WORDS community
      then (Response 404 (ErrorBody ''Community not found''), s)
      else case getDirectWithFallback s ''communities'' community
                  (Some (community_fallback now community)) of
        (Inl e, s1) \<Rightarrow> (failed e, s1)
      | (Inr None, s1) \<Rightarrow> (Response 404 (ErrorBody ''Community not found''), s1)
      | (Inr (Some communityResult), s1) \<Rightarrow>
          (Response 200 (DocBody (f_content communityResult)), s1))"

text \<open>
  \<open>PUT /api/r/:community\<close>. The route reads the index and the community document, checks the
  caller and changes the document in memory; then it writes the document with the sha it
  was read at and, when the icon changed, the index. It is modelled in these two halves, so
  that the requests of two callers can be interleaved between the reads and the writes.
\<close>

record community_edit =
  ce_bannerUrl :: "string option"
  ce_iconUrl :: "string option"
  ce_description :: "string option"
  ce_user :: "string option"

record pending_update =
  pu_path :: path
  pu_data :: doc
  pu_sha :: "sha option"
  pu_index :: "index option"
  pu_indexSha :: "sha option"

definition edit_fields :: "community_edit \<Rightarrow> (string \<times> string) list \<Rightarrow> (string \<times> string) list" where
  "edit_fields edit fs =
     (let fs1 = (case ce_bannerUrl edit of None \<Rightarrow> fs | Some b \<Rightarrow> put_field ''bannerUrl'' b fs);
          fs2 = (case ce_iconUrl edit of None \<Rightarrow> fs1 | Some i \<Rightarrow> put_field ''iconUrl'' i fs1)
      in case ce_description edit of None \<Rightarrow> fs2 | Some d \<Rightarrow> put_field ''description'' d fs2)"

definition edit_community :: "community_edit \<Rightarrow> community \<Rightarrow> community" where
  "edit_community edit communityData =
     communityData
       \<lparr>cm_bannerUrl := (case ce_bannerUrl edit of None \<Rightarrow> cm_bannerUrl communityData | Some b \<Rightarrow> b),
        cm_iconUrl := (case ce_iconUrl edit of None \<Rightarrow> cm_iconUrl communityData | Some i \<Rightarrow> i),
        cm_description :=
          (case ce_description edit of None \<Rightarrow> cm_description communityData | Some d \<Rightarrow> d)\<rparr>"

text \<open>
  The permission check: \<open>isMod\<close>, \<open>isCreator\<close> or \<open>isAdmin\<close>. An object of string fields has
  no moderators, and an absent \<open>creator\<close> equals an absent \<open>user\<close>.
\<close>

definition may_edit :: "doc \<Rightarrow> string option \<Rightarrow> bool option" where
  "may_edit d user =
     (case d of
        Community communityData \<Rightarrow>
          Some ((case cm_moderators communityData of
                   None \<Rightarrow> False
                 | Some ms \<Rightarrow> (case user of None \<Rightarrow> False | Some u \<Rightarrow> u \<in> set ms))
                \<or> user = Some (cm_creator communityData)
                \<or> user = Some ''timco'')
      | Fields fs \<Rightarrow> Some (map_of fs ''creator'' = user \<or> user = Some ''timco'')
      | _ \<Rightarrow> None)"

definition update_community_read ::
  "store \<Rightarrow> int \<Rightarrow> string \<Rightarrow> community_edit \<Rightarrow> (response + pending_update) \<times> store" where
  "update_community_read s now community edit =
     (case getIndex s now of
        Inl e \<Rightarrow> (Inl (failed e), s)
      | Inr (index, indexSha, s1) \<Rightarrow>
          (case communities index community of
             None \<Rightarrow> (Inl (Response 404 (ErrorBody ''Community not found'')), s1)
           | Some meta \<Rightarrow>
               (case getFileFromGitHub s1 (DATA_PATH @ ''/'' @ gr_file meta) of
                  Inl e \<Rightarrow> (Inl (failed e), s1)
                | Inr None \<Rightarrow> (Inl (failed TypeError), s1)
                | Inr (Some communityResult) \<Rightarrow>
                    (case may_edit (f_content communityResult) (ce_user edit) of
                       None \<Rightarrow> (Inl (failed TypeError), s1)
                     | Some allowed \<Rightarrow>
                         if \<not> allowed
                         then (Inl (Response 403 (ErrorBody ''Only moderators can edit community'')), s1)
                         else
                           (Inr \<lparr>pu_path = DATA_PATH @ ''/'' @ gr_file meta,
                                 pu_data =
                                   (case f_content communityResult of
                                      Community communityData \<Rightarrow>
                                        Community (edit_community edit communityData)
                                    | Fields fs \<Rightarrow> Fields (edit_fields edit fs)
                                    | d \<Rightarrow> d),
                                 pu_sha = f_sha communityResult,
                                 pu_index =
                                   (case ce_iconUrl edit of
                                      None \<Rightarrow> None
                                    | Some i \<Rightarrow>
                                        Some (index\<lparr>i_communities :=
                                          Some ((communities index)
                                                  (community \<mapsto> meta\<lparr>gr_iconUrl := i\<rparr>))\<rparr>)),
                                 pu_indexSha = indexSha\<rparr>, s1)))))"

definition update_community_write ::
  "pending_update \<Rightarrow> store \<Rightarrow> int \<Rightarrow> response \<times> store" where
  "update_community_write p s now =
     (case saveFileToGitHub s (pu_path p) (pu_data p) (pu_sha p) of
        Inl e \<Rightarrow> (failed e, s)
      | Inr s1 \<Rightarrow>
          (case pu_index p of
             None \<Rightarrow> (Response 200 (DocBody (pu_data p)), s1)
           | Some index \<Rightarrow>
               (case updateIndex s1 now index (pu_indexSha p) of
                  Inl e \<Rightarrow> (failed e, s1)
                | Inr s2 \<Rightarrow> (Response 200 (DocBody (pu_data p)), s2))))"

definition update_community_route ::
  "store \<Rightarrow> int \<Rightarrow> string \<Rightarrow> community_edit \<Rightarrow> response \<times> store" where
  "update_community_route s now community edit =
     (case update_community_read s now community edit of
        (Inl early, s1) \<Rightarrow> (early, s1)
      | (Inr p, s1) \<Rightarrow> update_community_write p s1 now)"

text \<open>
  Two callers update the same community at the same time: both read, then the first
  writes, then the second writes. The result is the two responses and the store after
  them. A caller whose first half already answered does not write.
\<close>

definition racing_updates ::
  "store \<Rightarrow> int \<Rightarrow> string \<Rightarrow> community_edit \<Rightarrow> community_edit \<Rightarrow> response list \<times> store" where
  "racing_updates s now community first second =
     (case update_community_read s now community first of
        (read1, sa) \<Rightarrow>
          (case update_community_read sa now community second of
             (read2, sb) \<Rightarrow>
               (case (case read1 of
                        Inl early \<Rightarrow> (early, sb)
                      | Inr p1 \<Rightarrow> update_community_write p1 sb now) of
                  (r1, s1) \<Rightarrow>
                    (case (case read2 of
                             Inl early \<Rightarrow> (early, s1)
                           | Inr p2 \<Rightarrow> update_community_write p2 s1 now) of
                       (r2, s2) \<Rightarrow> ([r1, r2], s2)))))"

text \<open>\<open>DELETE /api/r/:community\<close>.\<close>

definition delete_community_route ::
  "store \<Rightarrow> int \<Rightarrow> string \<Rightarrow> string option \<Rightarrow> response \<times> store" where
  "delete_community_route s now community username =
     (if username \<noteq> Some ''timco''
      then (Response 403
              (ErrorBody ''Permission denied. Only super admin can delete communities.''), s)
      else case getIndex s now of
        Inl e \<Rightarrow> (failed e, s)
      | Inr (index, indexSha, s1) \<Rightarrow>
          (case communities index community of
             None \<Rightarrow> (Response 404 (ErrorBody ''Community not found''), s1)
           | Some meta \<Rightarrow>
               (case updateIndex s1 now
                       (index\<lparr>i_communities := Some ((communities index)(community := None))\<rparr>)
                       indexSha of
                  Inl e \<Rightarrow> (failed e, s1)
                | Inr s2 \<Rightarrow> (Response 200 SuccessBody, s2))))"

section \<open>Users\<close>

text \<open>
  \<open>const { password: _, ...safeUser } = userData\<close>: the document without its \<open>password\<close> field;
  and the \<open>password\<close> field of a document, if it has one.
\<close>

definition strip_password :: "doc \<Rightarrow> doc" where
  "strip_password d =
     (case d of
        User u \<Rightarrow> User (u\<lparr>u_password := None\<rparr>)
      | Fields fs \<Rightarrow> Fields (drop_field ''password'' fs)
      | _ \<Rightarrow> d)"

definition doc_password :: "doc \<Rightarrow> string option" where
  "doc_password d =
     (case d of
        User u \<Rightarrow> u_password u
      | Fields fs \<Rightarrow> map_of fs ''password''
      | _ \<Rightarrow> None)"

text \<open>
  \<open>POST /api/auth/register\<close>. \<open>userId\<close> is the fresh \<open>uuidv4()\<close> and \<open>hashedPassword\<close> the result
  of \<open>bcrypt.hash\<close> on the password and a fresh salt.
\<close>

definition register_route ::
  "string list \<Rightarrow> store \<Rightarrow> int \<Rightarrow> string \<Rightarrow> string \<Rightarrow> string option \<Rightarrow> string option
     \<Rightarrow> string option \<Rightarrow> response \<times> store" where
  "register_route BAD_WORDS s now userId hashedPassword username password email =
     (case (username, password) of
        (Some u, Some pw) \<Rightarrow>
          if u = [] \<or> pw = []
          then (Response 400 (ErrorBody ''Username and password required''), s)
          else if hasProfanity BAD_WORDS u
          then (Response 400 (ErrorBody ''Username contains inappropriate language''), s)
          else
            (case getIndex s now of
               Inl e \<Rightarrow> (failed e, s)
             | Inr (index, indexSha, s1) \<Rightarrow>
                 (case users index u of
                    Some meta \<Rightarrow> (Response 400 (ErrorBody ''Username already exists''), s1)
                  | None \<Rightarrow>
                      (case saveFileToGitHub s1 (DATA_PATH @ ''/users/'' @ u @ ''.json'')
                              (User \<lparr>u_id = userId, u_username = u,
                                     u_email = (case email of None \<Rightarrow> [] | Some e \<Rightarrow> e),
                                     u_password = Some hashedPassword, u_createdAt = now,
                                     u_karma = 0, u_posts = [], u_comments = [],
                                     u_communities = [], u_avatarUrl = [], u_about = None,
                                     u_savedPosts = None\<rparr>) None of
                         Inl e \<Rightarrow> (failed e, s1)
                       | Inr s2 \<Rightarrow>
                           (case updateIndex s2 now
                                   (index\<lparr>i_users := Some ((users index)
                                      (u \<mapsto> \<lparr>ur_id = userId, ur_file = ''users/'' @ u @ ''.json'',
                                              ur_createdAt = now, ur_avatarUrl = []\<rparr>))\<rparr>)
                                   indexSha of
                              Inl e \<Rightarrow> (failed e, s2)
                            | Inr s3 \<Rightarrow>
                                (Response 201 (UserBody (strip_password
                                   (User \<lparr>u_id = userId, u_username = u,
                                          u_email = (case email of None \<Rightarrow> [] | Some e \<Rightarrow> e),
                                          u_password = Some hashedPassword, u_createdAt = now,
                                          u_karma = 0, u_posts = [], u_comments = [],
                                          u_communities = [], u_avatarUrl = [], u_about = None,
                                          u_savedPosts = None\<rparr>))), s3)))))
      | _ \<Rightarrow> (Response 400 (ErrorBody ''Username and password required''), s))"

text \<open>
  \<open>POST /api/auth/login\<close>. \<open>compare\<close> is \<open>bcrypt.compare\<close>, which throws when the stored
  document has no password.
\<close>

definition login_route ::
  "(string \<Rightarrow> string \<Rightarrow> bool) \<Rightarrow> store \<Rightarrow> int \<Rightarrow> string option \<Rightarrow> string option
     \<Rightarrow> response \<times> store" where
  "login_route compare s now username password =
     (case (username, password) of
        (Some u, Some pw) \<Rightarrow>
          if u = [] \<or> pw = []
          then (Response 400 (ErrorBody ''Username and password required''), s)
          else
            (case getIndex s now of
               Inl e \<Rightarrow> (failed e, s)
             | Inr (index, indexSha, s1) \<Rightarrow>
                 (case users index u of
                    None \<Rightarrow> (Response 401 (ErrorBody ''Invalid credentials''), s1)
                  | Some meta \<Rightarrow>
                      (case getFileFromGitHub s1 (DATA_PATH @ ''/'' @ ur_file meta) of
                         Inl e \<Rightarrow> (failed e, s1)
                       | Inr None \<Rightarrow> (Response 401 (ErrorBody ''Invalid credentials''), s1)
                       | Inr (Some userResult) \<Rightarrow>
                           (case doc_password (f_content userResult) of
                              None \<Rightarrow> (failed IllegalArguments, s1)
                            | Some h \<Rightarrow>
                                if \<not> compare pw h
                                then (Response 401 (ErrorBody ''Invalid credentials''), s1)
                                else (Response 200
                                        (UserBody (strip_password (f_content userResult))), s1)))))
      | _ \<Rightarrow> (Response 400 (ErrorBody ''Username and password required''), s))"

text \<open>The fallback of \<open>GET /api/u/:username\<close>: the file the index names for the user.\<close>

definition user_fallback ::
  "int \<Rightarrow> string \<Rightarrow> store \<Rightarrow> (exn + fetched option) \<times> store" where
  "user_fallback now username s =
     (case getIndex s now of
        Inl e \<Rightarrow> (Inl e, s)
      | Inr (index, indexSha, s1) \<Rightarrow>
          (case users index username of
             None \<Rightarrow> (Inr None, s1)
           | Some meta \<Rightarrow> (getFileFromGitHub s1 (DATA_PATH @ ''/'' @ ur_file meta), s1)))"

text \<open>
  \<open>const { voters, ...safePost } = postResult.content\<close>, and the keys under which the route
  then looks up the avatar and the icon: a document without the field gives \<open>undefined\<close>,
  which as a key is the string of that name.
\<close>

definition strip_voters :: "doc \<Rightarrow> doc" where
  "strip_voters d =
     (case d of
        Post p \<Rightarrow> Post (p\<lparr>p_voters := None\<rparr>)
      | Fields fs \<Rightarrow> Fields (drop_field ''voters'' fs)
      | _ \<Rightarrow> d)"

definition author_key :: "doc \<Rightarrow> string" where
  "author_key d =
     (case d of
        Post p \<Rightarrow> p_author p
      | Fields fs \<Rightarrow> (case map_of fs ''author'' of None \<Rightarrow> ''undefined'' | Some a \<Rightarrow> a)
      | _ \<Rightarrow> ''undefined'')"

definition community_key :: "doc \<Rightarrow> string" where
  "community_key d =
     (case d of
        Post p \<Rightarrow> p_community p
      | Fields fs \<Rightarrow> (case map_of fs ''community'' of None \<Rightarrow> ''undefined'' | Some a \<Rightarrow> a)
      | _ \<Rightarrow> ''undefined'')"

definition avatar_of :: "index \<Rightarrow> string \<Rightarrow> string" where
  "avatar_of index name = (case users index name of None \<Rightarrow> [] | Some meta \<Rightarrow> ur_avatarUrl meta)"

definition icon_of :: "index \<Rightarrow> string \<Rightarrow> string" where
  "icon_of index name =
     (case communities index name of None \<Rightarrow> [] | Some meta \<Rightarrow> gr_iconUrl meta)"

text \<open>The loop of the profile route over the post ids of the user.\<close>

fun populate_posts :: "store \<Rightarrow> index \<Rightarrow> string list \<Rightarrow> exn + populated_post list" where
  "populate_posts s index [] = Inr []"
| "populate_posts s index (postId # rest) =
     (case map_of (posts index) postId of
        None \<Rightarrow> populate_posts s index rest
      | Some meta \<Rightarrow>
          (case getFileFromGitHub s (DATA_PATH @ ''/'' @ pr_file meta) of
             Inl e \<Rightarrow> Inl e
           | Inr None \<Rightarrow> populate_posts s index rest
           | Inr (Some postResult) \<Rightarrow>
               (case populate_posts s index rest of
                  Inl e \<Rightarrow> Inl e
                | Inr populatedPosts \<Rightarrow>
                    Inr (\<lparr>pp_post = strip_voters (f_content postResult),
                          pp_authorAvatar = avatar_of index (author_key (f_content postResult)),
                          pp_communityIcon = icon_of index (community_key (f_content postResult))\<rparr>
                         # populatedPosts))))"

text \<open>\<open>findComment\<close>: the first comment with the given id, searching each comment before
  its replies and these before the next comment.\<close>

fun findComment :: "string \<Rightarrow> comment list \<Rightarrow> comment option" where
  "findComment commentId [] = None"
| "findComment commentId (Comment i ct a p t u d sc rs # cs) =
     (if i = commentId then Some (Comment i ct a p t u d sc rs)
      else case (if rs \<noteq> [] then findComment commentId rs else None) of
             Some found \<Rightarrow> Some found
           | None \<Rightarrow> findComment commentId cs)"

text \<open>The loop of the profile route over the comment references of the user.\<close>

fun populate_comments ::
  "store \<Rightarrow> index \<Rightarrow> comment_ref list \<Rightarrow> exn + populated_comment list" where
  "populate_comments s index [] = Inr []"
| "populate_comments s index (commMeta # rest) =
     (case map_of (posts index) (cr_postId commMeta) of
        None \<Rightarrow> populate_comments s index rest
      | Some meta \<Rightarrow>
          (case getFileFromGitHub s (DATA_PATH @ ''/'' @ pr_file meta) of
             Inl e \<Rightarrow> Inl e
           | Inr None \<Rightarrow> populate_comments s index rest
           | Inr (Some postResult) \<Rightarrow>
               (case f_content postResult of
                  Post post \<Rightarrow>
                    (case populate_comments s index rest of
                       Inl e \<Rightarrow> Inl e
                     | Inr populatedComments \<Rightarrow>
                         (case findComment (cr_commentId commMeta) (p_comments post) of
                            None \<Rightarrow> Inr populatedComments
                          | Some foundComment \<Rightarrow>
                              Inr (\<lparr>pc_comment = foundComment, pc_postId = p_id post,
                                    pc_postTitle = p_title post, pc_community = p_community post,
                                    pc_authorAvatar = avatar_of index (c_author foundComment)\<rparr>
                                   # populatedComments)))
                | _ \<Rightarrow> Inl TypeError)))"

text \<open>\<open>GET /api/u/:username\<close>.\<close>

definition get_user_route ::
  "string list \<Rightarrow> store \<Rightarrow> int \<Rightarrow> string \<Rightarrow> response \<times> store" where
  "get_user_route BAD_WORDS s now username =
     (if hasProfanity BAD_WORDS username
      then (Response 404 (ErrorBody ''User not found''), s)
      else case getDirectWithFallback s ''users'' username (Some (user_fallback now username)) of
        (Inl e, s1) \<Rightarrow> (failed e, s1)
      | (Inr None, s1) \<Rightarrow> (Response 404 (ErrorBody ''User not found''), s1)
      | (Inr (Some userResult), s1) \<Rightarrow>
          (case getIndex s1 now of
             Inl e \<Rightarrow> (failed e, s1)
           | Inr (index, indexSha, s2) \<Rightarrow>
               (case populate_posts s2 index
                       (case f_content userResult of User u \<Rightarrow> u_posts u | _ \<Rightarrow> []) of
                  Inl e \<Rightarrow> (failed e, s2)
                | Inr populatedPosts \<Rightarrow>
                    (case populate_comments s2 index
                            (take 20 (case f_content userResult of
                                        User u \<Rightarrow> u_comments u | _ \<Rightarrow> [])) of
                       Inl e \<Rightarrow> (failed e, s2)
                     | Inr populatedComments \<Rightarrow>
                         (Response 200 (ProfileBody (strip_password (f_content userResult))
                            populatedPosts populatedComments), s2)))))"

text \<open>\<open>PUT /api/u/:username\<close>.\<close>

definition update_user_route ::
  "store \<Rightarrow> int \<Rightarrow> string \<Rightarrow> string option \<Rightarrow> string option \<Rightarrow> response \<times> store" where
  "update_user_route s now username avatarUrl about =
     (case getIndex s now of
        Inl e \<Rightarrow> (failed e, s)
      | Inr (index, indexSha, s1) \<Rightarrow>
          (case users index username of
             None \<Rightarrow> (Response 404 (ErrorBody ''User not found''), s1)
           | Some meta \<Rightarrow>
               (case getFileFromGitHub s1 (DATA_PATH @ ''/'' @ ur_file meta) of
                  Inl e \<Rightarrow> (failed e, s1)
                | Inr None \<Rightarrow> (failed TypeError, s1)
                | Inr (Some userResult) \<Rightarrow>
                    (case (case f_content userResult of
                             User u \<Rightarrow>
                               Some (User (u\<lparr>u_avatarUrl :=
                                               (case avatarUrl of None \<Rightarrow> u_avatarUrl u | Some a \<Rightarrow> a),
                                             u_about :=
                                               (case about of None \<Rightarrow> u_about u | Some b \<Rightarrow> Some b)\<rparr>))
                           | Fields fs \<Rightarrow>
                               Some (Fields
                                 (let fs1 = (case avatarUrl of
                                               None \<Rightarrow> fs | Some a \<Rightarrow> put_field ''avatarUrl'' a fs)
                                  in case about of
                                       None \<Rightarrow> fs1 | Some b \<Rightarrow> put_field ''about'' b fs1))
                           | _ \<Rightarrow> None) of
                       None \<Rightarrow> (failed TypeError, s1)
                     | Some userData \<Rightarrow>
                         (case saveFileToGitHub s1 (DATA_PATH @ ''/'' @ ur_file meta) userData
                                 (f_sha userResult) of
                            Inl e \<Rightarrow> (failed e, s1)
                          | Inr s2 \<Rightarrow>
                              (case avatarUrl of
                                 None \<Rightarrow> (Response 200 (DocBody (strip_password userData)), s2)
                               | Some a \<Rightarrow>
                                   (case updateIndex s2 now
                                           (index\<lparr>i_users := Some ((users index)
                                              (username \<mapsto> meta\<lparr>ur_avatarUrl := a\<rparr>))\<rparr>)
                                           indexSha of
                                      Inl e \<Rightarrow> (failed e, s2)
                                    | Inr s3 \<Rightarrow>
                                        (Response 200 (DocBody (strip_password userData)), s3))))))))"

text \<open>
  The \<open>password\<close> fields that a response body holds, at the top or in a document it embeds.
\<close>

fun passwords_in :: "payload \<Rightarrow> string option list" where
  "passwords_in (DocBody d) = [doc_password d]"
| "passwords_in (UserBody d) = [doc_password d]"
| "passwords_in (ProfileBody d ps cs) = doc_password d # map (\<lambda>p. doc_password (pp_post p)) ps"
| "passwords_in b = []"

definition leaks_password :: "payload \<Rightarrow> bool" where
  "leaks_password b = list_ex (\<lambda>x. x \<noteq> None) (passwords_in b)"

text \<open>
  The data model keeps passwords in user documents only. \<open>post_files_clean\<close> says so of the
  files that the post entries of the stored index name: none of them is a document with a
  \<open>password\<close> field.
\<close>

definition no_password_at :: "store \<Rightarrow> path \<Rightarrow> bool" where
  "no_password_at s f =
     (case files s f of
        Some (Json d) \<Rightarrow> doc_password d = None
      | _ \<Rightarrow> True)"

definition post_files_clean :: "store \<Rightarrow> bool" where
  "post_files_clean s =
     (case stored_index s of
        None \<Rightarrow> True
      | Some ix \<Rightarrow>
          list_all (\<lambda>entry. no_password_at s (DATA_PATH @ ''/'' @ pr_file (snd entry))) (posts ix))"

section \<open>New posts\<close>

text \<open>
  \<open>postData\<close> of \<open>POST /api/r/:community/posts\<close>. The slug is the title in lower case with each
  run of characters outside \<open>a-z0-9\<close> replaced by one underscore, cut to 40 characters,
  followed by the first 8 characters of the id. \<open>postId\<close> is the fresh \<open>uuidv4()\<close>.
\<close>

definition slug_char :: "char \<Rightarrow> bool" where
  "slug_char c =
     ((97 \<le> (of_char c :: nat) \<and> (of_char c :: nat) \<le> 122)
      \<or> (48 \<le> (of_char c :: nat) \<and> (of_char c :: nat) \<le> 57))"

fun underscore_runs :: "bool \<Rightarrow> string \<Rightarrow> string" where
  "underscore_runs in_run [] = []"
| "underscore_runs in_run (c # cs) =
     (if slug_char c then c # underscore_runs False cs
      else if in_run then underscore_runs True cs
      else CHR ''_'' # underscore_runs True cs)"

definition new_post ::
  "string \<Rightarrow> string \<Rightarrow> string option \<Rightarrow> string option \<Rightarrow> string \<Rightarrow> string \<Rightarrow> int \<Rightarrow> post" where
  "new_post postId title content type author community now =
     \<lparr>p_id = postId,
      p_slug = take 40 (underscore_runs False (toLowerCase title)) @ ''_'' @ take 8 postId,
      p_title = title,
      p_content = (case content of None \<Rightarrow> [] | Some c \<Rightarrow> c),
      p_type = (case type of None \<Rightarrow> ''text'' | Some ty \<Rightarrow> ty),
      p_author = author,
      p_community = community,
      p_createdAt = now,
      p_upvotes = 1,
      p_downvotes = 0,
      p_score = 1,
      p_comments = [],
      p_commentCount = 0,
      p_voters = Some [author \<mapsto> 1]\<rparr>"

section \<open>Retention\<close>

definition config_path :: path where
  "config_path = DATA_PATH @ ''/config.json''"

definition getConfig :: "store \<Rightarrow> exn + doc" where
  "getConfig s =
     (case getFileFromGitHub s config_path of
        Inl e \<Rightarrow> Inl e
      | Inr None \<Rightarrow> Inr (Config \<lparr>retentionDays = 20\<rparr>)
      | Inr (Some result) \<Rightarrow>
          if f_content result = Empty then Inr (Config \<lparr>retentionDays = 20\<rparr>)
          else Inr (f_content result))"

text \<open>
  \<open>config.retentionDays * 24 * 60 * 60 * 1000\<close>; it is \<open>NaN\<close>, here \<open>None\<close>, for a document
  without the field, and no age is greater than that.
\<close>

definition retentionMs :: "doc \<Rightarrow> int option" where
  "retentionMs config =
     (case config of
        Config c \<Rightarrow> Some (retentionDays c * 24 * 60 * 60 * 1000)
      | _ \<Rightarrow> None)"

definition expired :: "int \<Rightarrow> int option \<Rightarrow> post_ref \<Rightarrow> bool" where
  "expired now ms meta =
     (case ms of None \<Rightarrow> False | Some r \<Rightarrow> now - pr_createdAt meta > r)"

text \<open>\<open>!post.comments || post.comments.length === 0\<close>.\<close>

definition no_comments :: "doc \<Rightarrow> bool" where
  "no_comments d =
     (case d of
        Post p \<Rightarrow> p_comments p = []
      | User u \<Rightarrow> u_comments u = []
      | _ \<Rightarrow> True)"

text \<open>
  The inner \<open>try\<close> block of the first loop: the post is fetched once and counts as inactive
  when the fetch returns a document without comments; a failed fetch is logged and the
  post is passed over.
\<close>

definition inactive :: "store \<Rightarrow> post_ref \<Rightarrow> bool" where
  "inactive s meta =
     (case getFileFromGitHub s (DATA_PATH @ ''/'' @ pr_file meta) of
        Inl e \<Rightarrow> False
      | Inr None \<Rightarrow> False
      | Inr (Some postResult) \<Rightarrow> no_comments (f_content postResult))"

definition postsToDelete :: "store \<Rightarrow> int \<Rightarrow> int option \<Rightarrow> index \<Rightarrow> string list" where
  "postsToDelete s now ms index =
     map fst (filter (\<lambda>entry. expired now ms (snd entry) \<and> inactive s (snd entry)) (posts index))"

text \<open>
  The second loop: for each id that is still in the index, the file is deleted and the
  entry taken out of the index in memory.
\<close>

fun delete_posts :: "store \<Rightarrow> index \<Rightarrow> bool \<Rightarrow> string list \<Rightarrow> store \<times> index \<times> bool" where
  "delete_posts s index changed [] = (s, index, changed)"
| "delete_posts s index changed (postId # rest) =
     (case map_of (posts index) postId of
        None \<Rightarrow> delete_posts s index changed rest
      | Some meta \<Rightarrow>
          delete_posts (deleteFileFromGitHub s (DATA_PATH @ ''/'' @ pr_file meta))
            (index\<lparr>i_posts := Some (filter (\<lambda>entry. fst entry \<noteq> postId) (posts index))\<rparr>)
            True rest)"

text \<open>\<open>cleanupOldPosts\<close>. Every error ends the job; what was deleted until then stays deleted.\<close>

definition cleanupOldPosts :: "store \<Rightarrow> int \<Rightarrow> store" where
  "cleanupOldPosts s now =
     (case getConfig s of
        Inl e \<Rightarrow> s
      | Inr config \<Rightarrow>
          (case getIndex s now of
             Inl e \<Rightarrow> s
           | Inr (index, indexSha, s1) \<Rightarrow>
               (case delete_posts s1 index False
                       (take 5 (postsToDelete s1 now (retentionMs config) index)) of
                  (s2, index', changed) \<Rightarrow>
                    if changed
                    then (case updateIndex s2 now index' indexSha of
                            Inl e \<Rightarrow> s2
                          | Inr s3 \<Rightarrow> s3)
                    else s2)))"

text \<open>The store after a sequence of comment calls.\<close>

fun comment_run :: "store \<Rightarrow> int \<Rightarrow> string \<Rightarrow> comment_call list \<Rightarrow> store" where
  "comment_run s now postId [] = s"
| "comment_run s now postId (c # cs) =
     comment_run
       (snd (comment_route s now (cc_commentId c) postId (cc_content c) (cc_author c)
               (cc_parentId c)))
       now postId cs"

text \<open>The path of the file that a post entry of the index names.\<close>

definition post_file :: "post_ref \<Rightarrow> path" where
  "post_file meta = DATA_PATH @ ''/'' @ pr_file meta"

text \<open>
  The files that the second loop of the retention job deletes when it is given the ids
  \<open>ids\<close>: those of the ids that the index knows, as far as GitHub lets them be read and
  deleted.
\<close>

definition doomed :: "store \<Rightarrow> index \<Rightarrow> string list \<Rightarrow> path \<Rightarrow> bool" where
  "doomed s index ids p =
     (\<exists>postId \<in> set ids. \<exists>meta. map_of (posts index) postId = Some meta \<and>
        p = post_file meta \<and> \<not> outage s Get p \<and> \<not> outage s Del p)"

section \<open>Example stores\<close>

text \<open>
  The community \<open>gaming\<close> with the post \<open>Hello World\<close> of its creator \<open>alice\<close>, as the
  routes that create them leave the store.
\<close>

definition hello_post :: post where
  "hello_post =
     new_post ''p1'' ''Hello World'' (Some ''first post'') None ''alice'' ''gaming'' 1000"

definition small_index :: index where
  "small_index =
     \<lparr>i_version = ''1.0.0'', i_lastUpdated = 1000,
      i_communities = Some [''gaming'' \<mapsto>
        \<lparr>gr_id = ''g1'', gr_file = ''communities/gaming.json'', gr_createdAt = 900,
         gr_memberCount = 1, gr_iconUrl = []\<rparr>],
      i_users = Some [''alice'' \<mapsto>
        \<lparr>ur_id = ''u1'', ur_file = ''users/alice.json'', ur_createdAt = 800,
         ur_avatarUrl = []\<rparr>],
      i_posts = Some [(''p1'',
        \<lparr>pr_file = ''posts/p1.json'', pr_community = ''gaming'', pr_author = ''alice'',
         pr_createdAt = 1000, pr_slug = ''hello_world_p1''\<rparr>)]\<rparr>"

definition gaming :: community where
  "gaming =
     \<lparr>cm_id = ''g1'', cm_name = ''gaming'', cm_displayName = ''gaming'', cm_description = [],
      cm_creator = ''alice'', cm_createdAt = 900, cm_members = [''alice''],
      cm_moderators = Some [''alice''], cm_memberCount = 1, cm_posts = [''p1''],
      cm_iconUrl = [], cm_bannerUrl = []\<rparr>"

definition alice :: user where
  "alice =
     \<lparr>u_id = ''u1'', u_username = ''alice'', u_email = [], u_password = Some ''$2a$10$hash'',
      u_createdAt = 800, u_karma = 0, u_posts = [''p1''], u_comments = [], u_communities = [],
      u_avatarUrl = [], u_about = None, u_savedPosts = None\<rparr>"

definition small_store :: store where
  "small_store =
     \<lparr>files = [''data/index.json'' \<mapsto> Json (Index small_index),
               ''data/communities/gaming.json'' \<mapsto> Json (Community gaming),
               ''data/users/alice.json'' \<mapsto> Json (User alice),
               ''data/posts/p1.json'' \<mapsto> Json (Post hello_post)],
      outage = (\<lambda>operation file. False)\<rparr>"

text \<open>The same store with a chain of twelve nested comments under the post.\<close>

definition deep_store :: store where
  "deep_store =
     small_store\<lparr>files := (files small_store)(''data/posts/p1.json'' \<mapsto>
       Json (Post (hello_post\<lparr>p_comments := nest 12 0, p_commentCount := 12\<rparr>)))\<rparr>"

text \<open>Three comment calls: a top-level comment, a reply to a comment that does not exist,
  and a reply to the first.\<close>

definition three_calls :: "comment_call list" where
  "three_calls =
     [\<lparr>cc_commentId = ''c1'', cc_content = Some ''first'', cc_author = Some ''alice'',
       cc_parentId = None\<rparr>,
      \<lparr>cc_commentId = ''c2'', cc_content = Some ''lost'', cc_author = Some ''bob'',
       cc_parentId = Some ''c7''\<rparr>,
      \<lparr>cc_commentId = ''c3'', cc_content = Some ''reply'', cc_author = Some ''bob'',
       cc_parentId = Some ''c1''\<rparr>]"

text \<open>
  A store in which the document of \<open>gaming\<close> is not at its direct path but where the index
  says; and two edits of \<open>gaming\<close> by its creator.
\<close>

definition legacy_store :: store where
  "legacy_store =
     \<lparr>files = [''data/index.json'' \<mapsto> Json (Index (small_index\<lparr>i_communities :=
                 Some [''gaming'' \<mapsto>
                   \<lparr>gr_id = ''g1'', gr_file = ''legacy/gaming.json'', gr_createdAt = 900,
                    gr_memberCount = 1, gr_iconUrl = []\<rparr>]\<rparr>)),
               ''data/legacy/gaming.json'' \<mapsto> Json (Community gaming)],
      outage = (\<lambda>operation file. False)\<rparr>"



text \<open>
  A store for the retention job at day 30: retention is 20 days; \<open>old\<close> is 30 days old
  and has no comments, \<open>busy\<close> is as old and has one comment, \<open>young\<close> is 10 days old, and
  the file of \<open>gone\<close>, 30 days old, is missing. The community and the author list the
  four posts. In \<open>stormy_store\<close> GitHub fails to serve the file of \<open>old\<close>, and another old
  post is there for the job to delete.
\<close>

definition day :: int where
  "day = 24 * 60 * 60 * 1000"

definition aged_post :: "string \<Rightarrow> int \<Rightarrow> comment list \<Rightarrow> post" where
  "aged_post name created cs =
     (new_post name name None None ''alice'' ''gaming'' created)
       \<lparr>p_comments := cs, p_commentCount := int (length cs)\<rparr>"

definition aged_ref :: "string \<Rightarrow> int \<Rightarrow> string \<times> post_ref" where
  "aged_ref name created =
     (name, \<lparr>pr_file = ''posts/'' @ name @ ''.json'', pr_community = ''gaming'',
             pr_author = ''alice'', pr_createdAt = created, pr_slug = name\<rparr>)"

definition aged_index :: index where
  "aged_index =
     small_index\<lparr>i_posts := Some [aged_ref ''old'' 0, aged_ref ''busy'' 0,
                                   aged_ref ''young'' (20 * day), aged_ref ''gone'' 0]\<rparr>"

definition aged_store :: store where
  "aged_store =
     \<lparr>files = [''data/index.json'' \<mapsto> Json (Index aged_index),
               ''data/config.json'' \<mapsto> Json (Config \<lparr>retentionDays = 20\<rparr>),
               ''data/communities/gaming.json'' \<mapsto>
                 Json (Community (gaming\<lparr>cm_posts := [''old'', ''busy'', ''young'', ''gone'']\<rparr>)),
               ''data/users/alice.json'' \<mapsto>
                 Json (User (alice\<lparr>u_posts := [''old'', ''busy'', ''young'', ''gone'']\<rparr>)),
               ''data/posts/old.json'' \<mapsto> Json (Post (aged_post ''old'' 0 [])),
               ''data/posts/busy.json'' \<mapsto>
                 Json (Post (aged_post ''busy'' 0
                   [Comment ''c1'' ''hi'' ''alice'' None day 1 0 1 []])),
               ''data/posts/young.json'' \<mapsto> Json (Post (aged_post ''young'' (20 * day) []))],
      outage = (\<lambda>operation file. False)\<rparr>"

definition stormy_store :: store where
  "stormy_store =
     \<lparr>files = (files aged_store)
        (''data/index.json'' \<mapsto> Json (Index (aged_index\<lparr>i_posts :=
            Some [aged_ref ''old'' 0, aged_ref ''stale'' 0]\<rparr>)),
         ''data/posts/stale.json'' \<mapsto> Json (Post (aged_post ''stale'' 0 []))),
      outage = (\<lambda>operation file. operation = Get \<and> file = ''data/posts/old.json'')\<rparr>"

text \<open>A store without files, and one whose index has lost two of its three maps.\<close>

definition empty_store :: store where
  "empty_store = \<lparr>files = Map.empty, outage = (\<lambda>operation file. False)\<rparr>"

definition partial_index :: index where
  "partial_index =
     \<lparr>i_version = ''1.0.0'', i_lastUpdated = 1000,
      i_communities = None,
      i_users = Some [''alice'' \<mapsto>
        \<lparr>ur_id = ''u1'', ur_file = ''users/alice.json'', ur_createdAt = 800,
         ur_avatarUrl = []\<rparr>],
      i_posts = None\<rparr>"

definition partial_store :: store where
  "partial_store =
     \<lparr>files = [''data/index.json'' \<mapsto> Json (Index partial_index),
               ''data/users/alice.json'' \<mapsto> Json (User alice)],
      outage = (\<lambda>operation file. False)\<rparr>"

section \<open>Properties of the store and the index\<close>

lemmas store_defs = getFileFromGitHub_def saveFileToGitHub_def getIndex_def updateIndex_def
  index_path_def DATA_PATH_def posts_def users_def communities_def

lemmas example_defs = small_store_def small_index_def hello_post_def new_post_def gaming_def
  alice_def empty_store_def partial_store_def partial_index_def

lemma getFile_Post:
  "getFileFromGitHub s f = Inr (Some r) \<Longrightarrow> f_content r = Post pd \<Longrightarrow>
     files s f = Some (Json (Post pd)) \<and> f_sha r = files s f"
  by (auto simp: getFileFromGitHub_def split: if_splits option.splits body.splits)

lemma getFile_stored:
  "files s f = Some (Json d) \<Longrightarrow> \<not> outage s Get f \<Longrightarrow>
     getFileFromGitHub s f = Inr (Some \<lparr>f_content = d, f_sha = Some (Json d)\<rparr>)"
  by (simp add: getFileFromGitHub_def)

lemma save_Inr:
  "saveFileToGitHub s f d h = Inr s' \<Longrightarrow>
     s' = s\<lparr>files := (files s)(f \<mapsto> Json d)\<rparr> \<and> files s f = h"
  by (auto simp: saveFileToGitHub_def split: if_splits)

lemma save_held:
  "files s f = h \<Longrightarrow> \<not> outage s Put f \<Longrightarrow>
     saveFileToGitHub s f d h = Inr (s\<lparr>files := (files s)(f \<mapsto> Json d)\<rparr>)"
  by (simp add: saveFileToGitHub_def)

lemma posts_filled [simp]:
  "posts (ix\<lparr>i_users := a, i_communities := b, i_posts := Some (posts ix)\<rparr>) = posts ix"
  by (simp add: posts_def)

lemma users_filled [simp]:
  "users (ix\<lparr>i_users := Some (users ix), i_communities := b, i_posts := c\<rparr>) = users ix"
  by (simp add: users_def)

lemma communities_filled [simp]:
  "communities (ix\<lparr>i_users := a, i_communities := Some (communities ix), i_posts := c\<rparr>)
     = communities ix"
  by (simp add: communities_def)

lemma posts_initialIndex [simp]: "posts (initialIndex now) = []"
  by (simp add: posts_def initialIndex_def)

lemma users_initialIndex [simp]: "users (initialIndex now) = Map.empty"
  by (simp add: users_def initialIndex_def)

lemma communities_initialIndex [simp]: "communities (initialIndex now) = Map.empty"
  by (simp add: communities_def initialIndex_def)

lemma getIndex_stored:
  "files s index_path = Some (Json (Index ix)) \<Longrightarrow> \<not> outage s Get index_path \<Longrightarrow>
     getIndex s now =
       Inr (ix\<lparr>i_users := Some (users ix), i_communities := Some (communities ix),
               i_posts := Some (posts ix)\<rparr>, Some (Json (Index ix)), s)"
  by (simp add: getIndex_def getFileFromGitHub_def)

lemma getIndex_cases:
  assumes "getIndex s now = Inr (ix, h, s1)"
  shows "(s1 = s \<and> h = files s index_path \<and>
          (\<exists>ix0. stored_index s = Some ix0 \<and>
             ix = ix0\<lparr>i_users := Some (users ix0), i_communities := Some (communities ix0),
                      i_posts := Some (posts ix0)\<rparr>))
       \<or> (stored_index s = None \<and> ix = initialIndex now \<and> h = None \<and>
           s1 = s\<lparr>files := (files s)(index_path \<mapsto> Json (Index (initialIndex now)))\<rparr>)"
  using assms
  by (auto simp: getIndex_def getFileFromGitHub_def saveFileToGitHub_def stored_index_def
        split: if_splits option.splits body.splits doc.splits sum.splits)

lemma stored_index_files:
  "stored_index s = Some ix \<longleftrightarrow> files s index_path = Some (Json (Index ix))"
  by (auto simp: stored_index_def split: option.splits body.splits doc.splits)

section \<open>Votes\<close>




lemma vote_route_ok:
  assumes sp: "stored_post s postId = Some pd" and pp: "post_path s postId = Some f"
    and cv: "cast_vote u v pd = Inr pd'" and u: "u \<noteq> []"
    and up: "\<not> outage s Get index_path" "\<not> outage s Get f" "\<not> outage s Put f"
  shows "vote_route s now postId (Some u) (Some v) =
     (Response 200 (VoteBody (p_upvotes pd') (p_downvotes pd') (p_score pd')),
      s\<lparr>files := (files s)(f \<mapsto> Json (Post pd'))\<rparr>)"
proof -
  from pp obtain ix meta where ix: "stored_index s = Some ix"
    and meta: "map_of (posts ix) postId = Some meta" and f: "f = DATA_PATH @ ''/'' @ pr_file meta"
    by (auto simp: post_path_def split: option.splits)
  from sp pp have fs: "files s f = Some (Json (Post pd))"
    by (auto simp: stored_post_def split: option.splits body.splits doc.splits)
  from ix have "files s index_path = Some (Json (Index ix))" by (simp add: stored_index_files)
  note gi = getIndex_stored[OF this up(1), of now]
  let ?f = "DATA_PATH @ ''/'' @ pr_file meta"
  have g: "getFileFromGitHub s ?f = Inr (Some \<lparr>f_content = Post pd, f_sha = Some (Json (Post pd))\<rparr>)"
    using getFile_stored[of s f "Post pd"] fs up(2) f by simp
  have sv: "saveFileToGitHub s ?f (Post pd') (Some (Json (Post pd)))
      = Inr (s\<lparr>files := (files s)(?f \<mapsto> Json (Post pd'))\<rparr>)"
    using save_held[of s f "Some (Json (Post pd))" "Post pd'"] fs up(3) f by simp
  show ?thesis
    using meta cv u g sv
    by (simp add: vote_route_def gi f)
qed



lemmas vote_defs = vote_route_def cast_vote_def previousVote_def Let_def stored_post_def
  post_path_def stored_index_def


lemma post_written:
  assumes "post_path s postId = Some f" "stored_post s postId = Some pd"
  shows "post_path (s\<lparr>files := (files s)(f \<mapsto> Json (Post pd1))\<rparr>) postId = Some f \<and>
         stored_post (s\<lparr>files := (files s)(f \<mapsto> Json (Post pd1))\<rparr>) postId = Some pd1"
proof -
  from assms have fs: "files s f = Some (Json (Post pd))"
    by (auto simp: stored_post_def split: option.splits body.splits doc.splits)
  from assms(1) obtain ix where ix: "stored_index s = Some ix"
    by (auto simp: post_path_def split: option.splits)
  with fs have "f \<noteq> index_path" by (auto simp: stored_index_files)
  then have "stored_index (s\<lparr>files := (files s)(f \<mapsto> Json (Post pd1))\<rparr>) = stored_index s"
    by (simp add: stored_index_def)
  with assms(1) show ?thesis by (simp add: post_path_def stored_post_def)
qed

text \<open>
  C2, as the code has it. On a freshly created post the author's vote of -1 gives upvotes 0,
  downvotes 1, score -1. A second vote of -1 by the author changes nothing; the retraction,
  a vote of 0, gives upvotes 0, downvotes 0, score 0.
\<close>

theorem fresh_post_downvotes:
  assumes "stored_post s postId = Some (new_post postId title content type author community t0)"
    and "post_path s postId = Some f" and "author \<noteq> []"
    and "\<not> outage s Get index_path" and "\<not> outage s Get f" and "\<not> outage s Put f"
  shows "map fst (vote_trace s now postId [(Some author, Some (- 1)), (Some author, Some (- 1))])
           = [Response 200 (VoteBody 0 1 (- 1)), Response 200 (VoteBody 0 1 (- 1))]
       \<and> map fst (vote_trace s now postId [(Some author, Some (- 1)), (Some author, Some 0)])
           = [Response 200 (VoteBody 0 1 (- 1)), Response 200 (VoteBody 0 0 0)]"
proof -
  let ?p0 = "new_post postId title content type author community t0"
  let ?p1 = "?p0\<lparr>p_upvotes := 0, p_downvotes := 1, p_voters := Some [author \<mapsto> - 1],
                   p_score := - 1\<rparr>"
  let ?s1 = "s\<lparr>files := (files s)(f \<mapsto> Json (Post ?p1))\<rparr>"
  have c1: "cast_vote author (- 1) ?p0 = Inr ?p1"
    by (simp add: cast_vote_def new_post_def previousVote_def Let_def)
  have first: "vote_route s now postId (Some author) (Some (- 1))
      = (Response 200 (VoteBody 0 1 (- 1)), ?s1)"
    using vote_route_ok[OF assms(1,2) c1 assms(3-6), of now] by simp
  from post_written[OF assms(2,1), of ?p1]
  have pp1: "post_path ?s1 postId = Some f" and sp1: "stored_post ?s1 postId = Some ?p1"
    by simp_all
  have up1: "\<not> outage ?s1 Get index_path" "\<not> outage ?s1 Get f" "\<not> outage ?s1 Put f"
    using assms(4-6) by simp_all
  have c2: "cast_vote author (- 1) ?p1 = Inr ?p1"
    by (simp add: cast_vote_def new_post_def previousVote_def Let_def)
  have second: "fst (vote_route ?s1 now postId (Some author) (Some (- 1)))
      = Response 200 (VoteBody 0 1 (- 1))"
    using vote_route_ok[OF sp1 pp1 c2 assms(3) up1, of now] by simp
  have c3: "cast_vote author 0 ?p1
      = Inr (?p1\<lparr>p_upvotes := 0, p_downvotes := 0, p_voters := Some [author \<mapsto> 0],
                  p_score := 0\<rparr>)"
    by (simp add: cast_vote_def new_post_def previousVote_def Let_def)
  have retract: "fst (vote_route ?s1 now postId (Some author) (Some 0))
      = Response 200 (VoteBody 0 0 0)"
    using vote_route_ok[OF sp1 pp1 c3 assms(3) up1, of now] by simp
  show ?thesis using first second retract by simp
qed

theorem fresh_post_downvotes_witness:
  "map fst (vote_trace small_store 2000 ''p1''
      [(Some ''alice'', Some (- 1)), (Some ''alice'', Some 0)])
     = [Response 200 (VoteBody 0 1 (- 1)), Response 200 (VoteBody 0 0 0)]"
proof -
  have "stored_post small_store ''p1''
      = Some (new_post ''p1'' ''Hello World'' (Some ''first post'') None ''alice'' ''gaming'' 1000)"
    by (simp add: vote_defs store_defs example_defs)
  moreover have "post_path small_store ''p1'' = Some ''data/posts/p1.json''"
    by (simp add: vote_defs store_defs example_defs)
  moreover have "\<not> outage small_store Get index_path"
    "\<not> outage small_store Get ''data/posts/p1.json''"
    "\<not> outage small_store Put ''data/posts/p1.json''"
    by (simp_all add: small_store_def)
  ultimately show ?thesis
    using fresh_post_downvotes[of small_store "''p1''" "''Hello World''" "Some ''first post''"
        None "''alice''" "''gaming''" 1000 "''data/posts/p1.json''" 2000]
    by simp
qed

text \<open>
  On the post \<open>Hello World\<close> of \<open>alice\<close>, fresh with one upvote, two votes of -1 by
  \<open>alice\<close> both answer upvotes 0, downvotes 1, score -1; the second does not bring
  upvotes 1, downvotes 0, score 1 back.
\<close>

theorem second_downvote_counterexample:
  "p_upvotes hello_post = 1 \<and> p_downvotes hello_post = 0 \<and> p_score hello_post = 1 \<and>
   p_voters hello_post = Some [''alice'' \<mapsto> 1] \<and>
   stored_post small_store ''p1'' = Some hello_post \<and>
   map fst (vote_trace small_store 2000 ''p1''
      [(Some ''alice'', Some (- 1)), (Some ''alice'', Some (- 1))])
     = [Response 200 (VoteBody 0 1 (- 1)), Response 200 (VoteBody 0 1 (- 1))] \<and>
   map fst (vote_trace small_store 2000 ''p1''
      [(Some ''alice'', Some (- 1)), (Some ''alice'', Some (- 1))])
     \<noteq> [Response 200 (VoteBody 0 1 (- 1)), Response 200 (VoteBody 1 0 1)]"
  by (simp add: vote_defs store_defs example_defs)

section \<open>Loading the index\<close>

text \<open>
  C3, as the code has it. A missing, blank, unparseable or empty index is replaced by a
  fresh index with three empty maps, which is written and returned. An index that is not
  empty is returned as it is stored, each map it lacks set to the empty map in memory, and
  nothing is written. On a store without index the first load writes the fresh index and
  the second load returns that same index and leaves the store as it is.
\<close>

theorem index_self_heal:
  "((files s index_path = None \<or> files s index_path = Some Blank \<or>
      files s index_path = Some Corrupt \<or> files s index_path = Some (Json Empty)) \<and>
     \<not> outage s Get index_path \<and> \<not> outage s Put index_path \<longrightarrow>
     getIndex s now =
       Inr (initialIndex now, None,
            s\<lparr>files := (files s)(index_path \<mapsto> Json (Index (initialIndex now)))\<rparr>) \<and>
     getIndex (s\<lparr>files := (files s)(index_path \<mapsto> Json (Index (initialIndex now)))\<rparr>) later =
       Inr (initialIndex now, Some (Json (Index (initialIndex now))),
            s\<lparr>files := (files s)(index_path \<mapsto> Json (Index (initialIndex now)))\<rparr>))
   \<and> (files s index_path = Some (Json (Index ix)) \<and> \<not> outage s Get index_path \<longrightarrow>
     getIndex s now =
       Inr (ix\<lparr>i_users := Some (users ix), i_communities := Some (communities ix),
               i_posts := Some (posts ix)\<rparr>, Some (Json (Index ix)), s))
   \<and> communities (initialIndex now) = Map.empty \<and> users (initialIndex now) = Map.empty
   \<and> posts (initialIndex now) = []"
proof (intro conjI impI)
  assume a: "(files s index_path = None \<or> files s index_path = Some Blank \<or>
      files s index_path = Some Corrupt \<or> files s index_path = Some (Json Empty)) \<and>
     \<not> outage s Get index_path \<and> \<not> outage s Put index_path"
  then show "getIndex s now =
       Inr (initialIndex now, None,
            s\<lparr>files := (files s)(index_path \<mapsto> Json (Index (initialIndex now)))\<rparr>)"
    by (auto simp: getIndex_def getFileFromGitHub_def saveFileToGitHub_def)
  let ?s1 = "s\<lparr>files := (files s)(index_path \<mapsto> Json (Index (initialIndex now)))\<rparr>"
  have "files ?s1 index_path = Some (Json (Index (initialIndex now)))" by simp
  moreover have "\<not> outage ?s1 Get index_path" using a by simp
  ultimately have "getIndex ?s1 later =
       Inr ((initialIndex now)\<lparr>i_users := Some (users (initialIndex now)),
               i_communities := Some (communities (initialIndex now)),
               i_posts := Some (posts (initialIndex now))\<rparr>,
            Some (Json (Index (initialIndex now))), ?s1)"
    by (rule getIndex_stored)
  moreover have "(initialIndex now)\<lparr>i_users := Some (users (initialIndex now)),
               i_communities := Some (communities (initialIndex now)),
               i_posts := Some (posts (initialIndex now))\<rparr> = initialIndex now"
    by (simp add: initialIndex_def users_def communities_def posts_def)
  ultimately show "getIndex ?s1 later =
       Inr (initialIndex now, Some (Json (Index (initialIndex now))), ?s1)"
    by (simp only:)
next
  assume "files s index_path = Some (Json (Index ix)) \<and> \<not> outage s Get index_path"
  then show "getIndex s now =
       Inr (ix\<lparr>i_users := Some (users ix), i_communities := Some (communities ix),
               i_posts := Some (posts ix)\<rparr>, Some (Json (Index ix)), s)"
    by (simp add: getIndex_stored)
qed simp_all

theorem index_self_heal_witness:
  "getIndex empty_store 1000 =
     Inr (initialIndex 1000, None,
       empty_store\<lparr>files := (files empty_store)(index_path \<mapsto> Json (Index (initialIndex 1000)))\<rparr>)
   \<and> getIndex (empty_store\<lparr>files :=
         (files empty_store)(index_path \<mapsto> Json (Index (initialIndex 1000)))\<rparr>) 2000 =
     Inr (initialIndex 1000, Some (Json (Index (initialIndex 1000))),
       empty_store\<lparr>files := (files empty_store)(index_path \<mapsto> Json (Index (initialIndex 1000)))\<rparr>)
   \<and> getIndex small_store 2000 = Inr (small_index, Some (Json (Index small_index)), small_store)"
proof -
  have e: "(files empty_store index_path = None \<or> files empty_store index_path = Some Blank \<or>
      files empty_store index_path = Some Corrupt \<or>
      files empty_store index_path = Some (Json Empty)) \<and>
     \<not> outage empty_store Get index_path \<and> \<not> outage empty_store Put index_path"
    by (simp add: empty_store_def)
  have f: "files small_store index_path = Some (Json (Index small_index)) \<and>
     \<not> outage small_store Get index_path"
    by (simp add: small_store_def index_path_def DATA_PATH_def)
  have g: "small_index\<lparr>i_users := Some (users small_index),
       i_communities := Some (communities small_index), i_posts := Some (posts small_index)\<rparr>
     = small_index"
    by (simp add: small_index_def users_def communities_def posts_def)
  from index_self_heal[where s = empty_store and now = 1000 and later = 2000] e
    index_self_heal[where s = small_store and ix = small_index and now = 2000] f g
  show ?thesis by simp
qed

text \<open>
  An index that has its users but neither communities nor posts is returned with its
  users and with the two missing maps empty; the file is left as it is and no fresh index
  is written.
\<close>

theorem incomplete_index_counterexample:
  "getIndex partial_store 5000 =
     Inr (partial_index\<lparr>i_communities := Some Map.empty, i_posts := Some []\<rparr>,
          Some (Json (Index partial_index)), partial_store)
   \<and> partial_index\<lparr>i_communities := Some Map.empty, i_posts := Some []\<rparr> \<noteq> initialIndex 5000
   \<and> users (partial_index\<lparr>i_communities := Some Map.empty, i_posts := Some []\<rparr>) ''alice''
       \<noteq> None
   \<and> files partial_store index_path \<noteq> Some (Json (Index (initialIndex 5000)))
   \<and> i_communities partial_index = None \<and> i_posts partial_index = None"
  by (simp add: store_defs example_defs initialIndex_def)

section \<open>Comments\<close>


lemma at_depth_Nil [simp]: "at_depth k [] = []"
  by (induction k) auto

lemma at_depth_append: "at_depth k (xs @ ys) = at_depth k xs @ at_depth k ys"
  by (induction k arbitrary: xs ys) auto

lemma at_depth_Suc_Cons:
  "at_depth (Suc k) (c # cs) = at_depth k (c_replies c) @ at_depth (Suc k) cs"
  by (simp add: at_depth_append)

lemma has_id_Nil [simp]: "\<not> has_id pid k []"
  by (simp add: has_id_def)

lemma has_id_0_Cons: "has_id pid 0 (c # cs) = (c_id c = pid \<or> has_id pid 0 cs)"
  by (auto simp: has_id_def)

lemma has_id_Suc_Cons:
  "has_id pid (Suc k) (c # cs) = (has_id pid k (c_replies c) \<or> has_id pid (Suc k) cs)"
  by (auto simp: has_id_def at_depth_Suc_Cons simp del: at_depth.simps)

lemma within_each_le: "d \<le> MAX_NESTING_DEPTH \<Longrightarrow> within_each pid d cs = within pid d cs"
  unfolding within_def within_each_def
  by (metis add.right_neutral)

lemma within_gt: "d > MAX_NESTING_DEPTH \<Longrightarrow> \<not> within pid d cs"
  unfolding within_def by auto

lemma within_Nil [simp]: "\<not> within pid d []" "\<not> within_each pid d []"
  by (simp_all add: within_def within_each_def)

lemma within_each_Cons:
  "within_each pid d (c # cs) = (c_id c = pid \<or> within pid (d + 1) (c_replies c) \<or> within_each pid d cs)"
proof
  assume "within_each pid d (c # cs)"
  then obtain k where k: "k = 0 \<or> d + k \<le> MAX_NESTING_DEPTH" "has_id pid k (c # cs)"
    unfolding within_each_def by blast
  show "c_id c = pid \<or> within pid (d + 1) (c_replies c) \<or> within_each pid d cs"
  proof (cases k)
    case 0
    with k show ?thesis by (auto simp: has_id_0_Cons within_each_def)
  next
    case (Suc j)
    with k have "d + 1 + j \<le> MAX_NESTING_DEPTH" by simp
    moreover from k Suc have "has_id pid j (c_replies c) \<or> has_id pid (Suc j) cs"
      by (simp add: has_id_Suc_Cons)
    ultimately show ?thesis using k Suc unfolding within_def within_each_def by blast
  qed
next
  assume a: "c_id c = pid \<or> within pid (d + 1) (c_replies c) \<or> within_each pid d cs"
  then consider "c_id c = pid" | "within pid (d + 1) (c_replies c)" | "within_each pid d cs" by blast
  then show "within_each pid d (c # cs)"
  proof cases
    case 1
    then have "has_id pid 0 (c # cs)" by (simp add: has_id_0_Cons)
    then show ?thesis unfolding within_each_def by blast
  next
    case 2
    then obtain k where "d + 1 + k \<le> MAX_NESTING_DEPTH" "has_id pid k (c_replies c)"
      unfolding within_def by blast
    then have "d + Suc k \<le> MAX_NESTING_DEPTH" "has_id pid (Suc k) (c # cs)"
      by (simp_all add: has_id_Suc_Cons)
    then show ?thesis unfolding within_each_def by blast
  next
    case 3
    then obtain k where k: "k = 0 \<or> d + k \<le> MAX_NESTING_DEPTH" "has_id pid k cs"
      unfolding within_each_def by blast
    then have "has_id pid k (c # cs)"
      by (cases k) (simp_all add: has_id_0_Cons has_id_Suc_Cons)
    with k show ?thesis unfolding within_each_def by blast
  qed
qed


lemma addReply_found_aux:
  "(addReply new pid cs d \<noteq> None) = within pid d cs"
  "(addReply_each new pid cs d \<noteq> None) = within_each pid d cs"
proof (induction new pid cs d and new pid cs d rule: addReply_addReply_each.induct)
  case (1 comment parentId comments depth)
  then show ?case
    by (cases "depth > MAX_NESTING_DEPTH") (simp_all add: within_gt within_each_le)
next
  case (2 comment parentId depth)
  show ?case by simp
next
  case (3 comment parentId i ct a p t u d sc rs cs depth)
  show ?case
  proof (cases "i = parentId")
    case True
    then show ?thesis by (simp add: within_each_Cons)
  next
    case False
    show ?thesis
    proof (cases "rs = []")
      case True
      with False 3(2) show ?thesis by (auto simp: within_each_Cons split: option.splits)
    next
      case rs: False
      show ?thesis
      proof (cases "addReply comment parentId rs (depth + 1)")
        case None
        with False rs 3(1) 3(2) show ?thesis
          by (auto simp: within_each_Cons split: option.splits)
      next
        case (Some x)
        with False rs 3(1) show ?thesis
          by (auto simp: within_each_Cons split: option.splits)
      qed
    qed
  qed
qed

lemma reply_added_Cons:
  "reply_added new pid k cs cs' \<Longrightarrow> reply_added new pid k (c # cs) (c # cs')"
proof (induction rule: reply_added.induct)
  case (here c0 parentId comment xs ys)
  from reply_added.here[OF here, of comment "c # xs" ys] show ?case by simp
next
  case (below comment parentId k c0 rs' xs ys)
  from reply_added.below[OF below(1), of "c # xs" ys] show ?case by simp
qed

lemma addReply_added_aux:
  "addReply new pid cs d = Some cs' \<Longrightarrow>
     \<exists>k. d + k \<le> MAX_NESTING_DEPTH \<and> reply_added new pid k cs cs'"
  "addReply_each new pid cs d = Some cs' \<Longrightarrow>
     \<exists>k. (k = 0 \<or> d + k \<le> MAX_NESTING_DEPTH) \<and> reply_added new pid k cs cs'"
proof (induction new pid cs d and new pid cs d arbitrary: cs' and cs'
        rule: addReply_addReply_each.induct)
  case (1 comment parentId comments depth)
  from 1(2) have le: "depth \<le> MAX_NESTING_DEPTH"
    and e: "addReply_each comment parentId comments depth = Some cs'"
    by (auto split: if_splits)
  from 1(1)[OF _ e] le obtain k where
    "k = 0 \<or> depth + k \<le> MAX_NESTING_DEPTH" "reply_added comment parentId k comments cs'"
    by auto
  with le show ?case by (metis add.right_neutral)
next
  case (2 comment parentId depth)
  then show ?case by simp
next
  case (3 comment parentId i ct a p t u d sc rs cs depth)
  let ?c = "Comment i ct a p t u d sc rs"
  show ?case
  proof (cases "i = parentId")
    case True
    with 3(3) have cs': "cs' = Comment i ct a p t u d sc (rs @ [comment]) # cs" by simp
    have "c_id ?c = parentId" using True by simp
    from reply_added.here[OF this, of comment "[]" cs]
    have "reply_added comment parentId 0 (?c # cs) cs'" by (simp add: cs')
    then show ?thesis by blast
  next
    case False
    show ?thesis
    proof (cases "if rs \<noteq> [] then addReply comment parentId rs (depth + 1) else None")
      case None
      with False 3(3) obtain cs'' where e: "addReply_each comment parentId cs depth = Some cs''"
        and cs': "cs' = ?c # cs''"
        by (auto split: option.splits)
      from 3(2)[OF False None e] obtain k where
        k: "k = 0 \<or> depth + k \<le> MAX_NESTING_DEPTH" "reply_added comment parentId k cs cs''"
        by blast
      from reply_added_Cons[OF k(2), of ?c] k(1) cs' show ?thesis by blast
    next
      case (Some rs')
      then have rs: "rs \<noteq> []" and a: "addReply comment parentId rs (depth + 1) = Some rs'"
        by (auto split: if_splits)
      from False Some 3(3) have cs': "cs' = Comment i ct a p t u d sc rs' # cs" by simp
      from 3(1)[OF False rs a] obtain k where
        k: "depth + 1 + k \<le> MAX_NESTING_DEPTH" "reply_added comment parentId k rs rs'"
        by blast
      have "reply_added comment parentId k (c_replies ?c) rs'" using k(2) by simp
      from reply_added.below[OF this, of "[]" cs]
      have "reply_added comment parentId (Suc k) (?c # cs) cs'" by (simp add: cs')
      moreover from k(1) have "depth + Suc k \<le> MAX_NESTING_DEPTH" by simp
      ultimately show ?thesis by blast
    qed
  qed
qed



lemma addReply_found:
  "(addReply new pid cs 0 \<noteq> None) =
     (\<exists>k\<le>MAX_NESTING_DEPTH. \<exists>c\<in>set (at_depth k cs). c_id c = pid)"
  using addReply_found_aux(1)[of new pid cs 0]
  by (simp add: within_def has_id_def del: addReply.simps)

lemma addReply_added:
  "addReply new pid cs 0 = Some cs' \<Longrightarrow>
     \<exists>k\<le>MAX_NESTING_DEPTH. reply_added new pid k cs cs'"
  using addReply_added_aux(1)[of new pid cs 0 cs'] by simp

lemma count_nodes_append: "count_nodes (xs @ ys) = count_nodes xs + count_nodes ys"
  by (induction xs rule: count_nodes.induct) auto

lemma c_replies_with_replies [simp]: "c_replies (with_replies c rs) = rs"
  by (cases c) simp

lemma count_nodes_with_replies:
  "count_nodes (with_replies c rs # ys) = Suc (count_nodes rs + count_nodes ys)"
  by (cases c) simp

lemma count_nodes_one: "count_nodes (c # ys) = Suc (count_nodes (c_replies c) + count_nodes ys)"
  by (cases c) simp

lemma reply_added_count:
  "reply_added new pid k cs cs' \<Longrightarrow> count_nodes cs' = count_nodes cs + count_nodes [new]"
  by (induction rule: reply_added.induct)
     (simp_all add: count_nodes_append count_nodes_with_replies count_nodes_one)

lemma insert_comment_effect:
  assumes "insert_comment new parentId pd = Some pd'"
  shows "p_commentCount pd' = p_commentCount pd + 1 \<and>
         count_nodes (p_comments pd') = count_nodes (p_comments pd) + count_nodes [new] \<and>
         pd' = pd\<lparr>p_comments := p_comments pd', p_commentCount := p_commentCount pd + 1\<rparr>"
proof (cases "parentId = None \<or> parentId = Some []")
  case True
  with assms show ?thesis
    by (auto simp: insert_comment_def count_nodes_append)
next
  case False
  then obtain pid where pid: "parentId = Some pid" "pid \<noteq> []" by auto
  with assms obtain cs where cs: "addReply new pid (p_comments pd) 0 = Some cs"
    and pd': "pd' = pd\<lparr>p_comments := cs, p_commentCount := p_commentCount pd + 1\<rparr>"
    by (auto simp: insert_comment_def split: option.splits simp del: addReply.simps)
  from addReply_added[OF cs] obtain k where "reply_added new pid k (p_comments pd) cs" by blast
  from reply_added_count[OF this] pd' show ?thesis by simp
qed

lemma getFile_User:
  "getFileFromGitHub s f = Inr (Some r) \<Longrightarrow> f_content r = User u \<Longrightarrow>
     files s f = Some (Json (User u)) \<and> f_sha r = files s f"
  by (auto simp: getFileFromGitHub_def split: if_splits option.splits body.splits)

lemma note_comment_frame:
  assumes "note_comment s ix a cref = Inr s'"
  shows "s' = s \<or> (\<exists>g u u'. files s g = Some (Json (User u)) \<and>
            s' = s\<lparr>files := (files s)(g \<mapsto> Json (User u'))\<rparr>)"
proof (cases "users ix a")
  case None
  with assms show ?thesis by (simp add: note_comment_def)
next
  case (Some meta)
  let ?g = "DATA_PATH @ ''/'' @ ur_file meta"
  show ?thesis
  proof (cases "getFileFromGitHub s ?g")
    case (Inl e)
    with assms Some show ?thesis by (simp add: note_comment_def)
  next
    case (Inr ro)
    show ?thesis
    proof (cases ro)
      case None
      with assms Some Inr show ?thesis by (simp add: note_comment_def)
    next
      case (Some r)
      with assms \<open>users ix a = Some meta\<close> Inr obtain u where u: "f_content r = User u"
        and sv: "saveFileToGitHub s ?g (User (u\<lparr>u_comments := cref # u_comments u\<rparr>)) (f_sha r)
                  = Inr s'"
        by (auto simp: note_comment_def split: doc.splits)
      from Inr Some have "getFileFromGitHub s ?g = Inr (Some r)" by simp
      from getFile_User[OF this u] save_Inr[OF sv] show ?thesis by blast
    qed
  qed
qed

lemma note_comment_keeps:
  assumes "note_comment s ix a cref = Inr s'" and "files s p = Some (Json d)"
    and "\<forall>u. d \<noteq> User u"
  shows "files s' p = Some (Json d)"
  using note_comment_frame[OF assms(1)] assms(2,3) by auto

lemma comment_step:
  assumes "comment_route s now cid postId content author parentId = (Response 201 b, s')"
  shows "\<exists>ct a f pd pd'. content = Some ct \<and> author = Some a \<and>
      post_path s postId = Some f \<and> post_path s' postId = Some f \<and>
      files s f = Some (Json (Post pd)) \<and>
      insert_comment (Comment cid ct a parentId now 1 0 1 []) parentId pd = Some pd' \<and>
      files s' f = Some (Json (Post pd')) \<and>
      b = CommentBody (Comment cid ct a parentId now 1 0 1 [])"
proof -
  from assms obtain ct a where ca: "content = Some ct" "author = Some a" "ct \<noteq> []" "a \<noteq> []"
    by (auto simp: comment_route_def split: option.splits if_splits)
  from assms ca obtain ix h s1 where gi: "getIndex s now = Inr (ix, h, s1)"
    by (auto simp: comment_route_def failed_def split: sum.splits)
  from assms ca gi obtain meta where meta: "map_of (posts ix) postId = Some meta"
    by (auto simp: comment_route_def split: option.splits)
  with getIndex_cases[OF gi] obtain ix0 where
    s1: "s1 = s" and ix0: "stored_index s = Some ix0" "posts ix = posts ix0"
    by auto
  let ?f = "DATA_PATH @ ''/'' @ pr_file meta"
  let ?new = "Comment cid ct a parentId now 1 0 1 []"
  from assms ca gi meta obtain r pd pd' s2 where
      r: "getFileFromGitHub s1 ?f = Inr (Some r)" and pd: "f_content r = Post pd"
      and ins: "insert_comment ?new parentId pd = Some pd'"
      and sv: "saveFileToGitHub s1 ?f (Post pd') (f_sha r) = Inr s2"
      and nc: "note_comment s2 ix a \<lparr>cr_postId = postId, cr_commentId = cid, cr_createdAt = now\<rparr>
                = Inr s'"
      and b: "b = CommentBody ?new"
    by (auto simp: comment_route_def failed_def split: sum.splits option.splits doc.splits)
  from getFile_Post[OF r pd] s1 have fs: "files s ?f = Some (Json (Post pd))" by simp
  from save_Inr[OF sv] s1 have s2: "s2 = s\<lparr>files := (files s)(?f \<mapsto> Json (Post pd'))\<rparr>"
    by simp
  have pp: "post_path s postId = Some ?f"
    using ix0 meta by (simp add: post_path_def)
  have ne: "?f \<noteq> index_path"
    using fs ix0 by (auto simp: stored_index_files)
  from ix0 have "files s index_path = Some (Json (Index ix0))" by (simp add: stored_index_files)
  with ne have "files s2 index_path = Some (Json (Index ix0))" by (simp add: s2)
  from note_comment_keeps[OF nc this] have "files s' index_path = Some (Json (Index ix0))"
    by simp
  then have "stored_index s' = Some ix0" by (simp add: stored_index_files)
  with ix0 meta have pp': "post_path s' postId = Some ?f"
    by (simp add: post_path_def)
  have "files s2 ?f = Some (Json (Post pd'))" by (simp add: s2)
  from note_comment_keeps[OF nc this] have fs': "files s' ?f = Some (Json (Post pd'))" by simp
  show ?thesis using ca pp pp' fs ins fs' b by blast
qed

lemma comment_route_ok:
  assumes sp: "stored_post s postId = Some pd" and pp: "post_path s postId = Some f"
    and ne: "ct \<noteq> []" "a \<noteq> []"
    and up: "\<not> outage s Get index_path" "\<not> outage s Get f"
  shows "\<exists>ix. stored_index s = Some ix \<and>
     comment_route s now cid postId (Some ct) (Some a) parentId =
     (case insert_comment (Comment cid ct a parentId now 1 0 1 []) parentId pd of
        None \<Rightarrow> (Response 404 (ErrorBody
                    ''Parent comment not found or max nesting depth exceeded''), s)
      | Some pd' \<Rightarrow>
          (case saveFileToGitHub s f (Post pd') (Some (Json (Post pd))) of
             Inl e \<Rightarrow> (failed e, s)
           | Inr s2 \<Rightarrow>
               (case note_comment s2
                       (ix\<lparr>i_users := Some (users ix), i_communities := Some (communities ix),
                           i_posts := Some (posts ix)\<rparr>) a
                       \<lparr>cr_postId = postId, cr_commentId = cid, cr_createdAt = now\<rparr> of
                  Inl e \<Rightarrow> (failed e, s2)
                | Inr s3 \<Rightarrow>
                    (Response 201 (CommentBody (Comment cid ct a parentId now 1 0 1 [])), s3))))"
proof -
  from pp obtain ix meta where ix: "stored_index s = Some ix"
    and meta: "map_of (posts ix) postId = Some meta" and f: "f = DATA_PATH @ ''/'' @ pr_file meta"
    by (auto simp: post_path_def split: option.splits)
  from sp pp have fs: "files s f = Some (Json (Post pd))"
    by (auto simp: stored_post_def split: option.splits body.splits doc.splits)
  from ix have "files s index_path = Some (Json (Index ix))" by (simp add: stored_index_files)
  note gi = getIndex_stored[OF this up(1), of now]
  let ?f = "DATA_PATH @ ''/'' @ pr_file meta"
  have g: "getFileFromGitHub s ?f
      = Inr (Some \<lparr>f_content = Post pd, f_sha = Some (Json (Post pd))\<rparr>)"
    using getFile_stored[of s f "Post pd"] fs up(2) f by simp
  have "comment_route s now cid postId (Some ct) (Some a) parentId =
     (case insert_comment (Comment cid ct a parentId now 1 0 1 []) parentId pd of
        None \<Rightarrow> (Response 404 (ErrorBody
                    ''Parent comment not found or max nesting depth exceeded''), s)
      | Some pd' \<Rightarrow>
          (case saveFileToGitHub s f (Post pd') (Some (Json (Post pd))) of
             Inl e \<Rightarrow> (failed e, s)
           | Inr s2 \<Rightarrow>
               (case note_comment s2
                       (ix\<lparr>i_users := Some (users ix), i_communities := Some (communities ix),
                           i_posts := Some (posts ix)\<rparr>) a
                       \<lparr>cr_postId = postId, cr_commentId = cid, cr_createdAt = now\<rparr> of
                  Inl e \<Rightarrow> (failed e, s2)
                | Inr s3 \<Rightarrow>
                    (Response 201 (CommentBody (Comment cid ct a parentId now 1 0 1 [])), s3))))"
    using meta ne g
    by (simp add: comment_route_def gi f split: option.splits sum.splits)
  with ix show ?thesis by blast
qed

lemma comment_unchanged:
  assumes "comment_route s now cid postId content author parentId = (r, s')"
    and "status r \<noteq> 201" "status r \<noteq> 500" "stored_index s \<noteq> None"
  shows "s' = s"
proof (cases "\<exists>ct a. content = Some ct \<and> author = Some a \<and> ct \<noteq> [] \<and> a \<noteq> []")
  case False
  with assms(1) show ?thesis
    by (auto simp: comment_route_def split: option.splits if_splits)
next
  case True
  then obtain ct a where ca: "content = Some ct" "author = Some a" "ct \<noteq> []" "a \<noteq> []"
    by blast
  from assms(4) obtain ix0 where ix0: "stored_index s = Some ix0" by blast
  show ?thesis
  proof (cases "getIndex s now")
    case (Inl e)
    with assms ca show ?thesis by (simp add: comment_route_def failed_def)
  next
    case (Inr res)
    obtain ix h s1 where res: "res = (ix, h, s1)" by (cases res) auto
    with Inr getIndex_cases[of s now ix h s1] ix0 have s1: "s1 = s" by auto
    from assms(1,2,3) ca Inr res s1 show ?thesis
      by (auto simp: comment_route_def failed_def
            split: option.splits sum.splits doc.splits)
  qed
qed

lemma comment_parent_missing:
  assumes "comment_route s now cid postId content author parentId =
     (Response 404 (ErrorBody ''Parent comment not found or max nesting depth exceeded''), s')"
  shows "s' = s"
proof -
  from assms obtain ct a where ca: "content = Some ct" "author = Some a" "ct \<noteq> []" "a \<noteq> []"
    by (auto simp: comment_route_def split: option.splits if_splits)
  from assms ca obtain ix h s1 where gi: "getIndex s now = Inr (ix, h, s1)"
    by (auto simp: comment_route_def failed_def split: sum.splits)
  from assms ca gi obtain meta where meta: "map_of (posts ix) postId = Some meta"
    by (auto simp: comment_route_def split: option.splits)
  with getIndex_cases[OF gi] have s1: "s1 = s" by auto
  from assms ca gi meta s1 show ?thesis
    by (auto simp: comment_route_def failed_def split: sum.splits option.splits doc.splits)
qed

lemma comment_trace_count:
  assumes "stored_post s postId = Some pd"
    and "\<forall>rt \<in> set (comment_trace s now postId calls). status (fst rt) \<noteq> 500"
  shows "\<exists>pd'. stored_post (comment_run s now postId calls) postId = Some pd' \<and>
     p_commentCount pd' = p_commentCount pd +
       int (length (filter (\<lambda>rt. status (fst rt) = 201) (comment_trace s now postId calls))) \<and>
     count_nodes (p_comments pd') = count_nodes (p_comments pd) +
       length (filter (\<lambda>rt. status (fst rt) = 201) (comment_trace s now postId calls))"
  using assms
proof (induction calls arbitrary: s pd)
  case Nil
  then show ?case by simp
next
  case (Cons c cs)
  let ?res = "comment_route s now (cc_commentId c) postId (cc_content c) (cc_author c)
                (cc_parentId c)"
  obtain r s1 where res: "?res = (r, s1)" by (cases ?res) auto
  from Cons.prems(2) res have no500: "status r \<noteq> 500"
    and rest: "\<forall>rt \<in> set (comment_trace s1 now postId cs). status (fst rt) \<noteq> 500"
    by auto
  show ?case
  proof (cases "status r = 201")
    case True
    then obtain b where "r = Response 201 b" by (cases r) auto
    with res have "?res = (Response 201 b, s1)" by simp
    from comment_step[OF this] obtain ct a f pd0 pd1 where
      st: "post_path s postId = Some f" "post_path s1 postId = Some f"
        "files s f = Some (Json (Post pd0))"
        "insert_comment (Comment (cc_commentId c) ct a (cc_parentId c) now 1 0 1 [])
           (cc_parentId c) pd0 = Some pd1"
        "files s1 f = Some (Json (Post pd1))"
      by blast
    from st(1,3) Cons.prems(1) have "pd0 = pd" by (simp add: stored_post_def)
    from st(2,5) have sp1: "stored_post s1 postId = Some pd1" by (simp add: stored_post_def)
    from insert_comment_effect[OF st(4)] \<open>pd0 = pd\<close>
    have eff: "p_commentCount pd1 = p_commentCount pd + 1"
      "count_nodes (p_comments pd1) = count_nodes (p_comments pd) + 1"
      by simp_all
    from Cons.IH[OF sp1 rest] obtain pd' where
      "stored_post (comment_run s1 now postId cs) postId = Some pd'"
      "p_commentCount pd' = p_commentCount pd1 +
         int (length (filter (\<lambda>rt. status (fst rt) = 201) (comment_trace s1 now postId cs)))"
      "count_nodes (p_comments pd') = count_nodes (p_comments pd1) +
         length (filter (\<lambda>rt. status (fst rt) = 201) (comment_trace s1 now postId cs))"
      by blast
    with eff res True show ?thesis by simp
  next
    case False
    from Cons.prems(1) have "stored_index s \<noteq> None"
      by (auto simp: stored_post_def post_path_def split: option.splits)
    from comment_unchanged[OF res False no500 this] have s1: "s1 = s" .
    from Cons.IH[OF _ rest] Cons.prems(1) s1 obtain pd' where
      "stored_post (comment_run s1 now postId cs) postId = Some pd'"
      "p_commentCount pd' = p_commentCount pd +
         int (length (filter (\<lambda>rt. status (fst rt) = 201) (comment_trace s1 now postId cs)))"
      "count_nodes (p_comments pd') = count_nodes (p_comments pd) +
         length (filter (\<lambda>rt. status (fst rt) = 201) (comment_trace s1 now postId cs))"
      by blast
    with res False show ?thesis by simp
  qed
qed

lemma comment_written:
  assumes sp: "stored_post s postId = Some pd" and pp: "post_path s postId = Some f"
    and ne: "ct \<noteq> []" "a \<noteq> []"
    and up: "\<not> outage s Get index_path" "\<not> outage s Get f" "\<not> outage s Put f"
    and ins: "insert_comment (Comment cid ct a parentId now 1 0 1 []) parentId pd = Some pd'"
  shows "files (snd (comment_route s now cid postId (Some ct) (Some a) parentId)) f
           = Some (Json (Post pd')) \<and>
         (status (fst (comment_route s now cid postId (Some ct) (Some a) parentId)) = 201 \<or>
          status (fst (comment_route s now cid postId (Some ct) (Some a) parentId)) = 500)"
proof -
  from sp pp have fs: "files s f = Some (Json (Post pd))"
    by (auto simp: stored_post_def split: option.splits body.splits doc.splits)
  let ?s2 = "s\<lparr>files := (files s)(f \<mapsto> Json (Post pd'))\<rparr>"
  have sv: "saveFileToGitHub s f (Post pd') (Some (Json (Post pd))) = Inr ?s2"
    using save_held[of s f "Some (Json (Post pd))" "Post pd'"] fs up(3) by simp
  from comment_route_ok[OF sp pp ne up(1,2), of now cid parentId] obtain ix where
    route: "comment_route s now cid postId (Some ct) (Some a) parentId =
       (case note_comment ?s2
               (ix\<lparr>i_users := Some (users ix), i_communities := Some (communities ix),
                   i_posts := Some (posts ix)\<rparr>) a
               \<lparr>cr_postId = postId, cr_commentId = cid, cr_createdAt = now\<rparr> of
          Inl e \<Rightarrow> (failed e, ?s2)
        | Inr s3 \<Rightarrow>
            (Response 201 (CommentBody (Comment cid ct a parentId now 1 0 1 [])), s3))"
    by (auto simp: ins sv)
  have f2: "files ?s2 f = Some (Json (Post pd'))" by simp
  show ?thesis
  proof (cases "note_comment ?s2
               (ix\<lparr>i_users := Some (users ix), i_communities := Some (communities ix),
                   i_posts := Some (posts ix)\<rparr>) a
               \<lparr>cr_postId = postId, cr_commentId = cid, cr_createdAt = now\<rparr>")
    case (Inl e)
    with route show ?thesis by (simp add: failed_def)
  next
    case (Inr s3)
    from note_comment_keeps[OF Inr f2] have "files s3 f = Some (Json (Post pd'))" by simp
    with route Inr show ?thesis by simp
  qed
qed

lemmas comment_defs = comment_route_def insert_comment_def note_comment_def stored_post_def
  post_path_def stored_index_def

lemma nest_ids:
  "map c_id (at_depth 10 (nest 12 0)) = [replicate 11 (CHR ''c'')]"
  "map c_id (at_depth 11 (nest 12 0)) = [replicate 12 (CHR ''c'')]"
  by code_simp+

lemma nest_depths:
  "addReply new (replicate 11 (CHR ''c'')) (nest 12 0) 0 \<noteq> None"
  "addReply new (replicate 12 (CHR ''c'')) (nest 12 0) 0 = None"
  by code_simp+

text \<open>
  C4, as the code has it. With a \<open>parentId\<close> that is neither null nor the empty string, the
  insertion succeeds exactly when the forest has a comment with that id at a depth of at
  most 10, the top-level list being depth 0; the new comment is then appended to the
  replies of one such comment and nothing else in the forest changes. When there is no
  such comment the route answers 404 with the parent-not-found message and leaves the store
  as it is; when there is one, the route writes the post with the reply in it. A parent at
  depth 10 is found, one at depth 11 is not. A \<open>parentId\<close> that is the empty string is
  treated as no parent: the comment is appended to the top-level list.
\<close>

theorem reply_insertion:
  assumes "parentId \<noteq> []"
  shows "((insert_comment new (Some parentId) pd \<noteq> None) =
            (\<exists>k\<le>MAX_NESTING_DEPTH. \<exists>c\<in>set (at_depth k (p_comments pd)). c_id c = parentId))
    \<and> (\<forall>pd'. insert_comment new (Some parentId) pd = Some pd' \<longrightarrow>
          (\<exists>k\<le>MAX_NESTING_DEPTH. reply_added new parentId k (p_comments pd) (p_comments pd')))
    \<and> (\<forall>s postId f (ct::string) (a::string) cid now.
          stored_post s postId = Some pd \<and> post_path s postId = Some f \<and> ct \<noteq> [] \<and> a \<noteq> [] \<and>
          \<not> outage s Get index_path \<and> \<not> outage s Get f \<longrightarrow>
          (insert_comment (Comment cid ct a (Some parentId) now 1 0 1 []) (Some parentId) pd = None
             \<longrightarrow> comment_route s now cid postId (Some ct) (Some a) (Some parentId) =
                  (Response 404 (ErrorBody
                     ''Parent comment not found or max nesting depth exceeded''), s))
          \<and> (\<forall>pd'. insert_comment (Comment cid ct a (Some parentId) now 1 0 1 [])
                      (Some parentId) pd = Some pd' \<and> \<not> outage s Put f
             \<longrightarrow> files (snd (comment_route s now cid postId (Some ct) (Some a) (Some parentId))) f
                    = Some (Json (Post pd'))
                  \<and> (status (fst (comment_route s now cid postId (Some ct) (Some a)
                                    (Some parentId))) = 201
                     \<or> status (fst (comment_route s now cid postId (Some ct) (Some a)
                                    (Some parentId))) = 500)))
    \<and> map c_id (at_depth 10 (nest 12 0)) = [replicate 11 (CHR ''c'')]
    \<and> map c_id (at_depth 11 (nest 12 0)) = [replicate 12 (CHR ''c'')]
    \<and> insert_comment new (Some (replicate 11 (CHR ''c''))) (pd\<lparr>p_comments := nest 12 0\<rparr>) \<noteq> None
    \<and> insert_comment new (Some (replicate 12 (CHR ''c''))) (pd\<lparr>p_comments := nest 12 0\<rparr>) = None
    \<and> insert_comment new (Some []) pd = insert_comment new None pd
    \<and> insert_comment new None pd =
        Some (pd\<lparr>p_comments := p_comments pd @ [new],
                  p_commentCount := p_commentCount pd + 1\<rparr>)"
proof (intro conjI allI impI)
  show "(insert_comment new (Some parentId) pd \<noteq> None) =
            (\<exists>k\<le>MAX_NESTING_DEPTH. \<exists>c\<in>set (at_depth k (p_comments pd)). c_id c = parentId)"
    using assms addReply_found[of new parentId "p_comments pd"]
    by (auto simp: insert_comment_def simp del: addReply.simps split: option.splits)
next
  fix pd'
  assume "insert_comment new (Some parentId) pd = Some pd'"
  with assms obtain cs where "addReply new parentId (p_comments pd) 0 = Some cs"
    "p_comments pd' = cs"
    by (auto simp: insert_comment_def simp del: addReply.simps split: option.splits)
  with addReply_added[of new parentId "p_comments pd" cs]
  show "\<exists>k\<le>MAX_NESTING_DEPTH. reply_added new parentId k (p_comments pd) (p_comments pd')"
    by simp
next
  fix s :: store and postId f :: string and ct a cid :: string and now :: int
  assume h: "stored_post s postId = Some pd \<and> post_path s postId = Some f \<and> ct \<noteq> [] \<and>
     a \<noteq> [] \<and> \<not> outage s Get index_path \<and> \<not> outage s Get f"
  assume "insert_comment (Comment cid ct a (Some parentId) now 1 0 1 []) (Some parentId) pd = None"
  with h comment_route_ok[of s postId pd f ct a now cid "Some parentId"]
  show "comment_route s now cid postId (Some ct) (Some a) (Some parentId) =
          (Response 404 (ErrorBody ''Parent comment not found or max nesting depth exceeded''), s)"
    by auto
next
  fix s :: store and postId f :: string and ct a cid :: string and now :: int and pd' :: post
  assume h: "stored_post s postId = Some pd \<and> post_path s postId = Some f \<and> ct \<noteq> [] \<and>
     a \<noteq> [] \<and> \<not> outage s Get index_path \<and> \<not> outage s Get f"
  assume i: "insert_comment (Comment cid ct a (Some parentId) now 1 0 1 []) (Some parentId) pd
       = Some pd' \<and> \<not> outage s Put f"
  from h i comment_written[of s postId pd f ct a cid "Some parentId" now pd']
  have w: "files (snd (comment_route s now cid postId (Some ct) (Some a) (Some parentId))) f
                    = Some (Json (Post pd'))
          \<and> (status (fst (comment_route s now cid postId (Some ct) (Some a)
                                    (Some parentId))) = 201
             \<or> status (fst (comment_route s now cid postId (Some ct) (Some a)
                                    (Some parentId))) = 500)"
    by blast
  from w show "files (snd (comment_route s now cid postId (Some ct) (Some a) (Some parentId))) f
                    = Some (Json (Post pd'))" by blast
  from w show "status (fst (comment_route s now cid postId (Some ct) (Some a)
                                    (Some parentId))) = 201
             \<or> status (fst (comment_route s now cid postId (Some ct) (Some a)
                                    (Some parentId))) = 500" by blast
next
  show "insert_comment new (Some (replicate 11 (CHR ''c''))) (pd\<lparr>p_comments := nest 12 0\<rparr>)
     \<noteq> None"
    using nest_depths(1)[of new]
    by (auto simp: insert_comment_def simp del: addReply.simps split: option.splits)
  show "insert_comment new (Some (replicate 12 (CHR ''c''))) (pd\<lparr>p_comments := nest 12 0\<rparr>)
     = None"
    using nest_depths(2)[of new]
    by (auto simp: insert_comment_def simp del: addReply.simps split: option.splits)
qed (simp_all add: nest_ids insert_comment_def)

theorem reply_insertion_witness:
  "insert_comment (Comment ''c9'' ''hi'' ''bob'' (Some ''cc'') 7 1 0 1 []) (Some ''cc'')
       (hello_post\<lparr>p_comments := nest 3 0\<rparr>) \<noteq> None
   \<and> (\<exists>k\<le>MAX_NESTING_DEPTH. reply_added (Comment ''c9'' ''hi'' ''bob'' (Some ''cc'') 7 1 0 1 [])
         ''cc'' k (nest 3 0)
         [Comment ''c'' ''text'' ''bob'' None 0 1 0 1
           [Comment ''cc'' ''text'' ''bob'' None 0 1 0 1
             [Comment ''ccc'' ''text'' ''bob'' None 0 1 0 1 [],
              Comment ''c9'' ''hi'' ''bob'' (Some ''cc'') 7 1 0 1 []]]])
   \<and> comment_route small_store 2000 ''c9'' ''p1'' (Some ''hi'') (Some ''bob'') (Some ''cc'') =
       (Response 404 (ErrorBody ''Parent comment not found or max nesting depth exceeded''),
        small_store)
   \<and> (\<exists>pd'. files (snd (comment_route deep_store 2000 ''c9'' ''p1'' (Some ''hi'') (Some ''bob'')
                  (Some ''cc''))) ''data/posts/p1.json'' = Some (Json (Post pd')) \<and>
             p_commentCount pd' = 13)"
proof -
  let ?new = "Comment ''c9'' ''hi'' ''bob'' (Some ''cc'') 7 1 0 1 []"
  let ?p3 = "hello_post\<lparr>p_comments := nest 3 0\<rparr>"
  let ?cs3 = "[Comment ''c'' ''text'' ''bob'' None 0 1 0 1
           [Comment ''cc'' ''text'' ''bob'' None 0 1 0 1
             [Comment ''ccc'' ''text'' ''bob'' None 0 1 0 1 [], ?new]]]"
  have ne: "''cc'' \<noteq> []" by simp
  have found: "\<exists>k\<le>MAX_NESTING_DEPTH. \<exists>c\<in>set (at_depth k (p_comments ?p3)). c_id c = ''cc''"
    by (rule exI[of _ 1]) (simp add: MAX_NESTING_DEPTH_def eval_nat_numeral)
  note r3 = reply_insertion[OF ne, of ?new ?p3]
  from r3 found have a: "insert_comment ?new (Some ''cc'') ?p3 \<noteq> None" by blast
  have ins: "insert_comment ?new (Some ''cc'') ?p3
      = Some (?p3\<lparr>p_comments := ?cs3, p_commentCount := p_commentCount ?p3 + 1\<rparr>)"
    by (simp add: insert_comment_def MAX_NESTING_DEPTH_def eval_nat_numeral)
  from r3 ins have "\<exists>k\<le>MAX_NESTING_DEPTH. reply_added ?new ''cc'' k (p_comments ?p3)
      (p_comments (?p3\<lparr>p_comments := ?cs3, p_commentCount := p_commentCount ?p3 + 1\<rparr>))"
    by blast
  then have b: "\<exists>k\<le>MAX_NESTING_DEPTH. reply_added ?new ''cc'' k (nest 3 0) ?cs3" by simp
  have h: "stored_post small_store ''p1'' = Some hello_post \<and>
      post_path small_store ''p1'' = Some ''data/posts/p1.json'' \<and> ''hi'' \<noteq> [] \<and> ''bob'' \<noteq> [] \<and>
      \<not> outage small_store Get index_path \<and> \<not> outage small_store Get ''data/posts/p1.json''"
    by (simp add: comment_defs store_defs example_defs)
  have none: "insert_comment (Comment ''c9'' ''hi'' ''bob'' (Some ''cc'') 2000 1 0 1 [])
      (Some ''cc'') hello_post = None"
    by (simp add: insert_comment_def example_defs MAX_NESTING_DEPTH_def)
  from reply_insertion[OF ne, of _ hello_post] h none
  have c: "comment_route small_store 2000 ''c9'' ''p1'' (Some ''hi'') (Some ''bob'') (Some ''cc'') =
       (Response 404 (ErrorBody ''Parent comment not found or max nesting depth exceeded''),
        small_store)"
    by blast
  let ?deep = "hello_post\<lparr>p_comments := nest 12 0, p_commentCount := 12\<rparr>"
  have hd: "stored_post deep_store ''p1'' = Some ?deep \<and>
      post_path deep_store ''p1'' = Some ''data/posts/p1.json'' \<and> ''hi'' \<noteq> [] \<and> ''bob'' \<noteq> [] \<and>
      \<not> outage deep_store Get index_path \<and> \<not> outage deep_store Get ''data/posts/p1.json''"
    by (simp add: comment_defs store_defs example_defs deep_store_def)
  have "addReply (Comment ''c9'' ''hi'' ''bob'' (Some ''cc'') 2000 1 0 1 []) ''cc'' (nest 12 0) 0
      \<noteq> None"
    by code_simp
  then obtain cs where cs: "addReply (Comment ''c9'' ''hi'' ''bob'' (Some ''cc'') 2000 1 0 1 [])
      ''cc'' (nest 12 0) 0 = Some cs"
    by blast
  then have insd: "insert_comment (Comment ''c9'' ''hi'' ''bob'' (Some ''cc'') 2000 1 0 1 [])
      (Some ''cc'') ?deep = Some (?deep\<lparr>p_comments := cs, p_commentCount := 13\<rparr>)
      \<and> \<not> outage deep_store Put ''data/posts/p1.json''"
    by (simp add: insert_comment_def deep_store_def small_store_def del: addReply.simps)
  from reply_insertion[OF ne, of _ ?deep] hd insd
  have "files (snd (comment_route deep_store 2000 ''c9'' ''p1'' (Some ''hi'') (Some ''bob'')
                  (Some ''cc''))) ''data/posts/p1.json''
        = Some (Json (Post (?deep\<lparr>p_comments := cs, p_commentCount := 13\<rparr>)))"
    by blast
  then have d: "\<exists>pd'. files (snd (comment_route deep_store 2000 ''c9'' ''p1'' (Some ''hi'')
        (Some ''bob'') (Some ''cc''))) ''data/posts/p1.json'' = Some (Json (Post pd')) \<and>
             p_commentCount pd' = 13"
    by simp
  from a b c d show ?thesis by blast
qed

text \<open>
  With the empty string as \<open>parentId\<close>, which is not null, the call succeeds on a post
  without comments, where no comment has that id: the comment goes to the top level.
\<close>

theorem empty_parent_counterexample:
  "p_comments hello_post = [] \<and> stored_post small_store ''p1'' = Some hello_post \<and>
   fst (comment_route small_store 2000 ''c1'' ''p1'' (Some ''hi'') (Some ''alice'') (Some []))
     = Response 201 (CommentBody (Comment ''c1'' ''hi'' ''alice'' (Some []) 2000 1 0 1 [])) \<and>
   stored_post
     (snd (comment_route small_store 2000 ''c1'' ''p1'' (Some ''hi'') (Some ''alice'') (Some [])))
     ''p1''
     = Some (hello_post\<lparr>p_comments := [Comment ''c1'' ''hi'' ''alice'' (Some []) 2000 1 0 1 []],
                         p_commentCount := 1\<rparr>)"
  by (simp add: comment_defs store_defs example_defs)

lemma comment_any:
  assumes sp: "stored_post s postId = Some pd"
  shows "\<exists>pd'. stored_post (snd (comment_route s now cid postId content author parentId)) postId
            = Some pd' \<and>
     (pd' = pd \<and> status (fst (comment_route s now cid postId content author parentId)) \<noteq> 201
      \<or> (p_commentCount pd' = p_commentCount pd + 1 \<and>
          count_nodes (p_comments pd') = count_nodes (p_comments pd) + 1 \<and>
          (status (fst (comment_route s now cid postId content author parentId)) = 201 \<or>
           status (fst (comment_route s now cid postId content author parentId)) = 500)))"
proof -
  let ?res = "comment_route s now cid postId content author parentId"
  from sp obtain f where pp: "post_path s postId = Some f"
    by (auto simp: stored_post_def split: option.splits)
  from sp pp have fs: "files s f = Some (Json (Post pd))"
    by (auto simp: stored_post_def split: option.splits body.splits doc.splits)
  from pp obtain ix where ix: "stored_index s = Some ix"
    by (auto simp: post_path_def split: option.splits)
  have same: "?res = (r, s) \<Longrightarrow> status r \<noteq> 201 \<Longrightarrow> ?thesis" for r
    using sp by simp
  show ?thesis
  proof (cases "\<exists>ct a. content = Some ct \<and> author = Some a \<and> ct \<noteq> [] \<and> a \<noteq> []")
    case False
    then have "?res = (Response 400 (ErrorBody ''Content and author required''), s)"
      by (auto simp: comment_route_def split: option.splits)
    from same[OF this] show ?thesis by simp
  next
    case True
    then obtain ct a where ca: "content = Some ct" "author = Some a" "ct \<noteq> []" "a \<noteq> []"
      by blast
    show ?thesis
    proof (cases "outage s Get index_path")
      case True
      then have "?res = (failed (ApiError 500), s)"
        using ca by (simp add: comment_route_def getIndex_def getFileFromGitHub_def)
      from same[OF this] show ?thesis by (simp add: failed_def)
    next
      case gi: False
      show ?thesis
      proof (cases "outage s Get f")
        case True
        from pp ix obtain meta where meta: "map_of (posts ix) postId = Some meta"
          and f: "f = DATA_PATH @ ''/'' @ pr_file meta"
          by (auto simp: post_path_def split: option.splits)
        from True f have "getFileFromGitHub s (DATA_PATH @ ''/'' @ pr_file meta) = Inl (ApiError 500)"
          by (simp add: getFileFromGitHub_def)
        with ca meta ix gi have "?res = (failed (ApiError 500), s)"
          by (simp add: comment_route_def getIndex_stored stored_index_files[THEN iffD1])
        from same[OF this] show ?thesis by (simp add: failed_def)
      next
        case gf: False
        let ?new = "Comment cid ct a parentId now 1 0 1 []"
        from comment_route_ok[OF sp pp ca(3,4) gi gf, of now cid parentId] ca obtain ix0 where
          route: "?res =
           (case insert_comment ?new parentId pd of
              None \<Rightarrow> (Response 404 (ErrorBody
                          ''Parent comment not found or max nesting depth exceeded''), s)
            | Some pd' \<Rightarrow>
                (case saveFileToGitHub s f (Post pd') (Some (Json (Post pd))) of
                   Inl e \<Rightarrow> (failed e, s)
                 | Inr s2 \<Rightarrow>
                     (case note_comment s2
                             (ix0\<lparr>i_users := Some (users ix0),
                                  i_communities := Some (communities ix0),
                                  i_posts := Some (posts ix0)\<rparr>) a
                             \<lparr>cr_postId = postId, cr_commentId = cid, cr_createdAt = now\<rparr> of
                        Inl e \<Rightarrow> (failed e, s2)
                      | Inr s3 \<Rightarrow> (Response 201 (CommentBody ?new), s3))))"
          by auto
        show ?thesis
        proof (cases "insert_comment ?new parentId pd")
          case None
          with route same show ?thesis by simp
        next
          case (Some pd1)
          from insert_comment_effect[OF Some]
          have grew: "p_commentCount pd1 = p_commentCount pd + 1"
            "count_nodes (p_comments pd1) = count_nodes (p_comments pd) + 1"
            by simp_all
          show ?thesis
          proof (cases "saveFileToGitHub s f (Post pd1) (Some (Json (Post pd)))")
            case (Inl e)
            with route Some same show ?thesis by (simp add: failed_def)
          next
            case (Inr s2)
            from save_Inr[OF Inr] have s2: "s2 = s\<lparr>files := (files s)(f \<mapsto> Json (Post pd1))\<rparr>"
              by simp
            from post_written[OF pp sp, of pd1] s2
            have pp2: "post_path s2 postId = Some f" and sp2: "stored_post s2 postId = Some pd1"
              by simp_all
            show ?thesis
            proof (cases "note_comment s2
                             (ix0\<lparr>i_users := Some (users ix0),
                                  i_communities := Some (communities ix0),
                                  i_posts := Some (posts ix0)\<rparr>) a
                             \<lparr>cr_postId = postId, cr_commentId = cid, cr_createdAt = now\<rparr>")
              case (Inl e)
              with route Some Inr have "?res = (failed e, s2)" by simp
              with sp2 grew show ?thesis by (simp add: failed_def)
            next
              case nc: (Inr s3)
              with route Some Inr have res: "?res = (Response 201 (CommentBody ?new), s3)"
                by simp
              from comment_step[OF res[unfolded ca]] ca obtain f' pd0 pd' where
                st: "post_path s postId = Some f'" "post_path s3 postId = Some f'"
                  "files s f' = Some (Json (Post pd0))"
                  "insert_comment ?new parentId pd0 = Some pd'"
                  "files s3 f' = Some (Json (Post pd'))"
                by auto
              from st(1) pp have "f' = f" by simp
              with st(3) fs have "pd0 = pd" by simp
              with st(4) Some have "pd' = pd1" by simp
              with st(2,5) have "stored_post s3 postId = Some pd1" by (simp add: stored_post_def)
              with res grew show ?thesis by simp
            qed
          qed
        qed
      qed
    qed
  qed
qed

lemma comment_trace_bounds:
  assumes "stored_post s postId = Some pd"
  shows "\<exists>pd'. stored_post (comment_run s now postId calls) postId = Some pd' \<and>
     p_commentCount pd' - p_commentCount pd
       = int (count_nodes (p_comments pd')) - int (count_nodes (p_comments pd)) \<and>
     int (length (filter (\<lambda>rt. status (fst rt) = 201) (comment_trace s now postId calls)))
       \<le> p_commentCount pd' - p_commentCount pd \<and>
     p_commentCount pd' - p_commentCount pd
       \<le> int (length (filter (\<lambda>rt. status (fst rt) = 201 \<or> status (fst rt) = 500)
                         (comment_trace s now postId calls)))"
  using assms
proof (induction calls arbitrary: s pd)
  case Nil
  then show ?case by simp
next
  case (Cons c cs)
  let ?res = "comment_route s now (cc_commentId c) postId (cc_content c) (cc_author c)
                (cc_parentId c)"
  from comment_any[OF Cons.prems, of now "cc_commentId c" "cc_content c" "cc_author c"
      "cc_parentId c"]
  obtain pd1 where sp1: "stored_post (snd ?res) postId = Some pd1"
    and step: "pd1 = pd \<and> status (fst ?res) \<noteq> 201
      \<or> (p_commentCount pd1 = p_commentCount pd + 1 \<and>
          count_nodes (p_comments pd1) = count_nodes (p_comments pd) + 1 \<and>
          (status (fst ?res) = 201 \<or> status (fst ?res) = 500))"
    by blast
  from Cons.IH[OF sp1] obtain pd' where
    ih: "stored_post (comment_run (snd ?res) now postId cs) postId = Some pd'"
      "p_commentCount pd' - p_commentCount pd1
         = int (count_nodes (p_comments pd')) - int (count_nodes (p_comments pd1))"
      "int (length (filter (\<lambda>rt. status (fst rt) = 201)
                      (comment_trace (snd ?res) now postId cs)))
         \<le> p_commentCount pd' - p_commentCount pd1"
      "p_commentCount pd' - p_commentCount pd1
         \<le> int (length (filter (\<lambda>rt. status (fst rt) = 201 \<or> status (fst rt) = 500)
                           (comment_trace (snd ?res) now postId cs)))"
    by blast
  from step show ?case
  proof
    assume "pd1 = pd \<and> status (fst ?res) \<noteq> 201"
    with ih show ?thesis by auto
  next
    assume "p_commentCount pd1 = p_commentCount pd + 1 \<and>
          count_nodes (p_comments pd1) = count_nodes (p_comments pd) + 1 \<and>
          (status (fst ?res) = 201 \<or> status (fst ?res) = 500)"
    with ih show ?thesis by auto
  qed
qed

text \<open>
  C5. A comment call that answers 201 has written the post with \<open>commentCount\<close> one higher
  and one more comment in the forest. A call that fails because the parent is missing or
  too deep leaves the store as it is. Over a sequence of calls on a post, none of which
  breaks off with status 500, \<open>commentCount\<close> grows by the number of calls that answered 201,
  and so does the number of comments in the forest; on a fresh post, whose \<open>commentCount\<close>
  is 0, it is that number. Over any sequence of calls \<open>commentCount\<close> grows as the forest
  does, by at least the number of calls that answered 201 and at most that number plus the
  number of calls that broke off.
\<close>

theorem comment_count_exact:
  "(\<forall>b s'. comment_route s now cid postId content author parentId = (Response 201 b, s') \<longrightarrow>
      (\<exists>pd pd'. stored_post s postId = Some pd \<and> stored_post s' postId = Some pd' \<and>
         p_commentCount pd' = p_commentCount pd + 1 \<and>
         count_nodes (p_comments pd') = count_nodes (p_comments pd) + 1))
   \<and> (\<forall>s'. comment_route s now cid postId content author parentId =
        (Response 404 (ErrorBody ''Parent comment not found or max nesting depth exceeded''), s')
        \<longrightarrow> s' = s)
   \<and> (\<forall>pd. stored_post s postId = Some pd \<and>
        (\<forall>rt \<in> set (comment_trace s now postId calls). status (fst rt) \<noteq> 500) \<longrightarrow>
        (\<exists>pd'. stored_post (comment_run s now postId calls) postId = Some pd' \<and>
           p_commentCount pd' = p_commentCount pd +
             int (length (filter (\<lambda>rt. status (fst rt) = 201)
                            (comment_trace s now postId calls))) \<and>
           count_nodes (p_comments pd') = count_nodes (p_comments pd) +
             length (filter (\<lambda>rt. status (fst rt) = 201) (comment_trace s now postId calls))))
   \<and> (\<forall>pd. stored_post s postId = Some pd \<longrightarrow>
        (\<exists>pd'. stored_post (comment_run s now postId calls) postId = Some pd' \<and>
           p_commentCount pd' - p_commentCount pd
             = int (count_nodes (p_comments pd')) - int (count_nodes (p_comments pd)) \<and>
           int (length (filter (\<lambda>rt. status (fst rt) = 201)
                          (comment_trace s now postId calls)))
             \<le> p_commentCount pd' - p_commentCount pd \<and>
           p_commentCount pd' - p_commentCount pd
             \<le> int (length (filter (\<lambda>rt. status (fst rt) = 201 \<or> status (fst rt) = 500)
                               (comment_trace s now postId calls)))))
   \<and> p_commentCount (new_post postId title text type user community created) = 0
   \<and> p_comments (new_post postId title text type user community created) = []"
proof (intro conjI allI impI)
  fix b s'
  assume "comment_route s now cid postId content author parentId = (Response 201 b, s')"
  from comment_step[OF this] obtain ct a f pd pd' where
    st: "post_path s postId = Some f" "post_path s' postId = Some f"
      "files s f = Some (Json (Post pd))"
      "insert_comment (Comment cid ct a parentId now 1 0 1 []) parentId pd = Some pd'"
      "files s' f = Some (Json (Post pd'))"
    by blast
  from st(1,3) have "stored_post s postId = Some pd" by (simp add: stored_post_def)
  moreover from st(2,5) have "stored_post s' postId = Some pd'" by (simp add: stored_post_def)
  moreover from insert_comment_effect[OF st(4)]
  have "p_commentCount pd' = p_commentCount pd + 1"
    "count_nodes (p_comments pd') = count_nodes (p_comments pd) + 1"
    by simp_all
  ultimately show "\<exists>pd pd'. stored_post s postId = Some pd \<and> stored_post s' postId = Some pd' \<and>
         p_commentCount pd' = p_commentCount pd + 1 \<and>
         count_nodes (p_comments pd') = count_nodes (p_comments pd) + 1"
    by blast
next
  fix s'
  assume "comment_route s now cid postId content author parentId =
        (Response 404 (ErrorBody ''Parent comment not found or max nesting depth exceeded''), s')"
  then show "s' = s" by (rule comment_parent_missing)
next
  fix pd
  assume "stored_post s postId = Some pd \<and>
        (\<forall>rt \<in> set (comment_trace s now postId calls). status (fst rt) \<noteq> 500)"
  then show "\<exists>pd'. stored_post (comment_run s now postId calls) postId = Some pd' \<and>
           p_commentCount pd' = p_commentCount pd +
             int (length (filter (\<lambda>rt. status (fst rt) = 201)
                            (comment_trace s now postId calls))) \<and>
           count_nodes (p_comments pd') = count_nodes (p_comments pd) +
             length (filter (\<lambda>rt. status (fst rt) = 201) (comment_trace s now postId calls))"
    using comment_trace_count by blast
next
  fix pd
  assume "stored_post s postId = Some pd"
  then show "\<exists>pd'. stored_post (comment_run s now postId calls) postId = Some pd' \<and>
           p_commentCount pd' - p_commentCount pd
             = int (count_nodes (p_comments pd')) - int (count_nodes (p_comments pd)) \<and>
           int (length (filter (\<lambda>rt. status (fst rt) = 201)
                          (comment_trace s now postId calls)))
             \<le> p_commentCount pd' - p_commentCount pd \<and>
           p_commentCount pd' - p_commentCount pd
             \<le> int (length (filter (\<lambda>rt. status (fst rt) = 201 \<or> status (fst rt) = 500)
                               (comment_trace s now postId calls)))"
    by (rule comment_trace_bounds)
qed (simp_all add: new_post_def)

theorem comment_count_exact_witness:
  "(\<exists>pd'. stored_post (comment_run small_store 2000 ''p1'' three_calls) ''p1'' = Some pd' \<and>
      p_commentCount pd' = 2 \<and> count_nodes (p_comments pd') = 2)
   \<and> (\<exists>pd'. stored_post
        (snd (comment_route small_store 2000 ''c1'' ''p1'' (Some ''first'') (Some ''alice'') None))
        ''p1'' = Some pd' \<and> p_commentCount pd' = 1)
   \<and> snd (comment_route small_store 2000 ''c2'' ''p1'' (Some ''lost'') (Some ''bob'') (Some ''c7''))
      = small_store"
proof -
  let ?tr = "comment_trace small_store 2000 ''p1'' three_calls"
  have st: "map (\<lambda>rt. status (fst rt)) ?tr = [201, 404, 201]"
    by (simp add: three_calls_def comment_defs store_defs example_defs MAX_NESTING_DEPTH_def)
  have "\<forall>x \<in> set (map (\<lambda>rt. status (fst rt)) ?tr). x \<noteq> 500"
    unfolding st by simp
  then have no500: "\<forall>rt \<in> set ?tr. status (fst rt) \<noteq> 500" by simp
  have "length (filter (\<lambda>x. x = 201) (map (\<lambda>rt. status (fst rt)) ?tr)) = 2"
    unfolding st by simp
  then have n: "length (filter (\<lambda>rt. status (fst rt) = 201) ?tr) = 2"
    by (simp add: filter_map o_def)
  have sp: "stored_post small_store ''p1'' = Some hello_post"
    by (simp add: comment_defs store_defs example_defs)
  have z: "p_commentCount hello_post = 0" "p_comments hello_post = []"
    by (simp_all add: example_defs)
  from comment_count_exact[of small_store 2000 _ "''p1''" _ _ _ three_calls] sp no500
  obtain pd' where "stored_post (comment_run small_store 2000 ''p1'' three_calls) ''p1'' = Some pd'"
    "p_commentCount pd' = p_commentCount hello_post +
       int (length (filter (\<lambda>rt. status (fst rt) = 201) ?tr))"
    "count_nodes (p_comments pd') = count_nodes (p_comments hello_post) +
       length (filter (\<lambda>rt. status (fst rt) = 201) ?tr)"
    by blast
  with n z have a: "\<exists>pd'. stored_post (comment_run small_store 2000 ''p1'' three_calls) ''p1''
      = Some pd' \<and> p_commentCount pd' = 2 \<and> count_nodes (p_comments pd') = 2"
    by simp
  let ?one = "comment_route small_store 2000 ''c1'' ''p1'' (Some ''first'') (Some ''alice'') None"
  have "fst ?one = Response 201 (CommentBody (Comment ''c1'' ''first'' ''alice'' None 2000 1 0 1 []))"
    by (simp add: comment_defs store_defs example_defs)
  then have one: "?one = (Response 201
      (CommentBody (Comment ''c1'' ''first'' ''alice'' None 2000 1 0 1 [])), snd ?one)"
    by (metis prod.collapse)
  from comment_count_exact[of small_store 2000 "''c1''" "''p1''" "Some ''first''"
      "Some ''alice''" None] one
  obtain pd0 pd1 where "stored_post small_store ''p1'' = Some pd0"
    "stored_post (snd ?one) ''p1'' = Some pd1" "p_commentCount pd1 = p_commentCount pd0 + 1"
    by blast
  with sp z have b: "\<exists>pd'. stored_post (snd ?one) ''p1'' = Some pd' \<and> p_commentCount pd' = 1"
    by simp
  let ?two = "comment_route small_store 2000 ''c2'' ''p1'' (Some ''lost'') (Some ''bob'')
      (Some ''c7'')"
  have "fst ?two = Response 404 (ErrorBody
      ''Parent comment not found or max nesting depth exceeded'')"
    by (simp add: comment_defs store_defs example_defs MAX_NESTING_DEPTH_def)
  then have two: "?two = (Response 404 (ErrorBody
      ''Parent comment not found or max nesting depth exceeded''), snd ?two)"
    by (metis prod.collapse)
  from comment_count_exact[of small_store 2000 "''c2''" "''p1''" "Some ''lost''"
      "Some ''bob''" "Some ''c7''"] two
  have c: "snd ?two = small_store" by blast
  from a b c show ?thesis by blast
qed

section \<open>Direct access and fallback\<close>

lemma direct_hit:
  "getFileFromGitHub s (DATA_PATH @ ''/'' @ type @ ''/'' @ ident @ ''.json'') = Inr (Some r) \<Longrightarrow>
   f_content r \<noteq> Empty \<Longrightarrow> getDirectWithFallback s type ident fb = (Inr (Some r), s)"
  by (simp add: getDirectWithFallback_def)

lemma direct_miss:
  "\<forall>r. getFileFromGitHub s (DATA_PATH @ ''/'' @ type @ ''/'' @ ident @ ''.json'') = Inr (Some r)
       \<longrightarrow> f_content r = Empty \<Longrightarrow>
   getDirectWithFallback s type ident (Some fallback) = fallback s"
  by (auto simp: getDirectWithFallback_def split: sum.splits option.splits)

lemma direct_none:
  "getDirectWithFallback s type ident (Some fallback) = (Inr None, s') \<Longrightarrow>
   (\<forall>r. getFileFromGitHub s (DATA_PATH @ ''/'' @ type @ ''/'' @ ident @ ''.json'') = Inr (Some r)
        \<longrightarrow> f_content r = Empty) \<and>
   fallback s = (Inr None, s')"
  by (auto simp: getDirectWithFallback_def split: sum.splits option.splits if_splits)

lemma getFile_empty:
  "files s f = None \<or> files s f = Some Blank \<or> files s f = Some Corrupt \<or>
   files s f = Some (Json Empty) \<or> outage s Get f \<Longrightarrow>
   \<forall>r. getFileFromGitHub s f = Inr (Some r) \<longrightarrow> f_content r = Empty"
  by (auto simp: getFileFromGitHub_def)

lemma community_fallback_stored:
  "stored_index s = Some ix \<Longrightarrow> \<not> outage s Get index_path \<Longrightarrow>
   community_fallback now community s =
     (case communities ix community of
        None \<Rightarrow> (Inr None, s)
      | Some meta \<Rightarrow> (getFileFromGitHub s (DATA_PATH @ ''/'' @ gr_file meta), s))"
  by (simp add: community_fallback_def getIndex_stored stored_index_files split: option.splits)

lemma community_direct:
  assumes a: "files s (DATA_PATH @ ''/communities/'' @ community @ ''.json'') = Some (Json d)"
      "d \<noteq> Empty" "\<not> outage s Get (DATA_PATH @ ''/communities/'' @ community @ ''.json'')"
    and np: "\<not> hasProfanity BAD_WORDS community"
  shows "get_community_route BAD_WORDS s now community = (Response 200 (DocBody d), s)"
proof -
  from a have "getFileFromGitHub s (DATA_PATH @ ''/communities/'' @ community @ ''.json'')
      = Inr (Some \<lparr>f_content = d, f_sha = Some (Json d)\<rparr>)"
    by (simp add: getFile_stored)
  with a(2) direct_hit[of s "''communities''" community "\<lparr>f_content = d, f_sha = Some (Json d)\<rparr>"]
  have "getDirectWithFallback s ''communities'' community
          (Some (community_fallback now community))
        = (Inr (Some \<lparr>f_content = d, f_sha = Some (Json d)\<rparr>), s)"
    by simp
  with np show ?thesis by (simp add: get_community_route_def)
qed

lemma community_404:
  assumes a: "get_community_route BAD_WORDS s now community = (Response 404 b, s')"
    and np: "\<not> hasProfanity BAD_WORDS community"
  shows "(\<forall>r. getFileFromGitHub s (DATA_PATH @ ''/communities/'' @ community @ ''.json'')
               = Inr (Some r) \<longrightarrow> f_content r = Empty) \<and>
         community_fallback now community s = (Inr None, s')"
proof -
  let ?direct = "getFileFromGitHub s (DATA_PATH @ ''/communities/'' @ community @ ''.json'')"
  have miss: "\<forall>r. ?direct = Inr (Some r) \<longrightarrow> f_content r = Empty"
  proof (intro allI impI)
    fix r
    assume r: "?direct = Inr (Some r)"
    show "f_content r = Empty"
    proof (rule ccontr)
      assume "f_content r \<noteq> Empty"
      with r direct_hit[of s "''communities''" community r]
      have "getDirectWithFallback s ''communities'' community
              (Some (community_fallback now community)) = (Inr (Some r), s)"
        by simp
      with a np show False by (simp add: get_community_route_def)
    qed
  qed
  from miss have "getDirectWithFallback s ''communities'' community
      (Some (community_fallback now community)) = community_fallback now community s"
    using direct_miss[of s "''communities''" community "community_fallback now community"]
    by simp
  with a np have "community_fallback now community s = (Inr None, s')"
    by (auto simp: get_community_route_def failed_def split: prod.splits sum.splits option.splits)
  with miss show ?thesis by blast
qed

text \<open>
  C6. \<open>getDirectWithFallback\<close> fetches the direct path \<open>type/id.json\<close> first and returns that
  document, leaving the store as it is, whenever the fetch gives a document that is not
  empty. When the direct fetch fails (the file is missing, blank, unparseable or the empty
  object, or the request fails) the result is the result of the fallback. The fallback
  of the community route looks the community up in the index and fetches the file named
  there. For a name that passes the word filter, which the route applies before it resolves
  anything, the community route answers 404 only when the direct fetch failed and the
  fallback found nothing. The resolver itself, for every entity type, yields no document
  only when the direct fetch failed and the fallback yielded none.
\<close>

theorem direct_then_fallback:
  "(\<forall>r. getFileFromGitHub s (DATA_PATH @ ''/'' @ type @ ''/'' @ ident @ ''.json'') = Inr (Some r)
        \<and> f_content r \<noteq> Empty \<longrightarrow>
        getDirectWithFallback s type ident fb = (Inr (Some r), s))
   \<and> (files s (DATA_PATH @ ''/'' @ type @ ''/'' @ ident @ ''.json'') = None \<or>
      files s (DATA_PATH @ ''/'' @ type @ ''/'' @ ident @ ''.json'') = Some Blank \<or>
      files s (DATA_PATH @ ''/'' @ type @ ''/'' @ ident @ ''.json'') = Some Corrupt \<or>
      files s (DATA_PATH @ ''/'' @ type @ ''/'' @ ident @ ''.json'') = Some (Json Empty) \<or>
      outage s Get (DATA_PATH @ ''/'' @ type @ ''/'' @ ident @ ''.json'') \<longrightarrow>
      getDirectWithFallback s type ident (Some fallback) = fallback s)
   \<and> (\<forall>ix. stored_index s = Some ix \<and> \<not> outage s Get index_path \<longrightarrow>
        community_fallback now community s =
          (case communities ix community of
             None \<Rightarrow> (Inr None, s)
           | Some meta \<Rightarrow> (getFileFromGitHub s (DATA_PATH @ ''/'' @ gr_file meta), s)))
   \<and> (\<forall>d. files s (DATA_PATH @ ''/communities/'' @ community @ ''.json'') = Some (Json d) \<and>
        d \<noteq> Empty \<and> \<not> outage s Get (DATA_PATH @ ''/communities/'' @ community @ ''.json'') \<and>
        \<not> hasProfanity BAD_WORDS community \<longrightarrow>
        get_community_route BAD_WORDS s now community = (Response 200 (DocBody d), s))
   \<and> (\<forall>b s'. get_community_route BAD_WORDS s now community = (Response 404 b, s') \<and>
        \<not> hasProfanity BAD_WORDS community \<longrightarrow>
        (\<forall>r. getFileFromGitHub s (DATA_PATH @ ''/communities/'' @ community @ ''.json'')
               = Inr (Some r) \<longrightarrow> f_content r = Empty) \<and>
        community_fallback now community s = (Inr None, s'))
   \<and> (\<forall>s'. getDirectWithFallback s type ident (Some fallback) = (Inr None, s') \<longrightarrow>
        (\<forall>r. getFileFromGitHub s (DATA_PATH @ ''/'' @ type @ ''/'' @ ident @ ''.json'')
               = Inr (Some r) \<longrightarrow> f_content r = Empty) \<and>
        fallback s = (Inr None, s'))"
proof (intro conjI allI impI)
  fix r
  assume "getFileFromGitHub s (DATA_PATH @ ''/'' @ type @ ''/'' @ ident @ ''.json'') = Inr (Some r)
        \<and> f_content r \<noteq> Empty"
  then show "getDirectWithFallback s type ident fb = (Inr (Some r), s)"
    using direct_hit by blast
next
  assume "files s (DATA_PATH @ ''/'' @ type @ ''/'' @ ident @ ''.json'') = None \<or>
      files s (DATA_PATH @ ''/'' @ type @ ''/'' @ ident @ ''.json'') = Some Blank \<or>
      files s (DATA_PATH @ ''/'' @ type @ ''/'' @ ident @ ''.json'') = Some Corrupt \<or>
      files s (DATA_PATH @ ''/'' @ type @ ''/'' @ ident @ ''.json'') = Some (Json Empty) \<or>
      outage s Get (DATA_PATH @ ''/'' @ type @ ''/'' @ ident @ ''.json'')"
  from direct_miss[OF getFile_empty[OF this]]
  show "getDirectWithFallback s type ident (Some fallback) = fallback s" .
next
  fix ix
  assume "stored_index s = Some ix \<and> \<not> outage s Get index_path"
  then show "community_fallback now community s =
          (case communities ix community of
             None \<Rightarrow> (Inr None, s)
           | Some meta \<Rightarrow> (getFileFromGitHub s (DATA_PATH @ ''/'' @ gr_file meta), s))"
    using community_fallback_stored by blast
next
  fix d
  assume "files s (DATA_PATH @ ''/communities/'' @ community @ ''.json'') = Some (Json d) \<and>
        d \<noteq> Empty \<and> \<not> outage s Get (DATA_PATH @ ''/communities/'' @ community @ ''.json'') \<and>
        \<not> hasProfanity BAD_WORDS community"
  then show "get_community_route BAD_WORDS s now community = (Response 200 (DocBody d), s)"
    using community_direct by blast
next
  fix b s' r
  assume "get_community_route BAD_WORDS s now community = (Response 404 b, s') \<and>
        \<not> hasProfanity BAD_WORDS community"
    and "getFileFromGitHub s (DATA_PATH @ ''/communities/'' @ community @ ''.json'')
           = Inr (Some r)"
  with community_404[of BAD_WORDS s now community b s'] show "f_content r = Empty" by blast
next
  fix b s'
  assume "get_community_route BAD_WORDS s now community = (Response 404 b, s') \<and>
        \<not> hasProfanity BAD_WORDS community"
  with community_404[of BAD_WORDS s now community b s']
  show "community_fallback now community s = (Inr None, s')" by blast
next
  fix s' r
  assume "getDirectWithFallback s type ident (Some fallback) = (Inr None, s')"
    and "getFileFromGitHub s (DATA_PATH @ ''/'' @ type @ ''/'' @ ident @ ''.json'') = Inr (Some r)"
  with direct_none[of s type ident fallback s'] show "f_content r = Empty" by blast
next
  fix s'
  assume "getDirectWithFallback s type ident (Some fallback) = (Inr None, s')"
  with direct_none[of s type ident fallback s'] show "fallback s = (Inr None, s')" by blast
qed

theorem direct_then_fallback_witness:
  "get_community_route [''darn''] legacy_store 2000 ''gaming''
     = (Response 200 (DocBody (Community gaming)), legacy_store)
   \<and> get_community_route [''darn''] small_store 2000 ''gaming''
     = (Response 200 (DocBody (Community gaming)), small_store)
   \<and> getDirectWithFallback small_store ''communities'' ''gaming'' None
     = (Inr (Some \<lparr>f_content = Community gaming, f_sha = Some (Json (Community gaming))\<rparr>),
        small_store)
   \<and> fst (get_community_route [''darn''] small_store 2000 ''chess'')
     = Response 404 (ErrorBody ''Community not found'')
   \<and> community_fallback 2000 ''chess'' small_store = (Inr None, small_store)"
proof -
  note legacy = direct_then_fallback[where s = legacy_store and type = "''communities''"
      and ident = "''gaming''" and fallback = "community_fallback 2000 ''gaming''"
      and now = 2000 and community = "''gaming''"]
  note small = direct_then_fallback[where s = small_store and type = "''communities''"
      and ident = "''gaming''" and fb = None and community = "''gaming''"
      and BAD_WORDS = "[''darn'']" and now = 2000]
  note chess = direct_then_fallback[where s = small_store and community = "''chess''"
      and BAD_WORDS = "[''darn'']" and now = 2000]
  have miss: "files legacy_store (DATA_PATH @ ''/'' @ ''communities'' @ ''/'' @ ''gaming'' @ ''.json'')
     = None"
    by (simp add: legacy_store_def DATA_PATH_def)
  from legacy[THEN conjunct2, THEN conjunct1] miss
  have fb: "getDirectWithFallback legacy_store ''communities'' ''gaming''
      (Some (community_fallback 2000 ''gaming'')) = community_fallback 2000 ''gaming'' legacy_store"
    by blast
  have ix: "stored_index legacy_store = Some (small_index\<lparr>i_communities :=
                 Some [''gaming'' \<mapsto>
                   \<lparr>gr_id = ''g1'', gr_file = ''legacy/gaming.json'', gr_createdAt = 900,
                    gr_memberCount = 1, gr_iconUrl = []\<rparr>]\<rparr>)
      \<and> \<not> outage legacy_store Get index_path"
    by (simp add: stored_index_def legacy_store_def index_path_def DATA_PATH_def)
  from legacy[THEN conjunct2, THEN conjunct2, THEN conjunct1, rule_format, OF ix]
  have cf: "community_fallback 2000 ''gaming'' legacy_store =
      (getFileFromGitHub legacy_store (DATA_PATH @ ''/'' @ ''legacy/gaming.json''), legacy_store)"
    by (simp add: communities_def)
  have np: "\<not> hasProfanity [''darn''] ''gaming''" "\<not> hasProfanity [''darn''] ''chess''"
    by (simp_all add: hasProfanity_def toLowerCase_def)
  have a: "get_community_route [''darn''] legacy_store 2000 ''gaming''
     = (Response 200 (DocBody (Community gaming)), legacy_store)"
    using np fb cf
    by (simp add: get_community_route_def getFileFromGitHub_def legacy_store_def DATA_PATH_def)
  have d: "files small_store (DATA_PATH @ ''/communities/'' @ ''gaming'' @ ''.json'')
          = Some (Json (Community gaming)) \<and> Community gaming \<noteq> Empty \<and>
        \<not> outage small_store Get (DATA_PATH @ ''/communities/'' @ ''gaming'' @ ''.json'') \<and>
        \<not> hasProfanity [''darn''] ''gaming''"
    using np by (simp add: small_store_def DATA_PATH_def)
  from small[THEN conjunct2, THEN conjunct2, THEN conjunct2, THEN conjunct1, rule_format, OF d]
  have b: "get_community_route [''darn''] small_store 2000 ''gaming''
     = (Response 200 (DocBody (Community gaming)), small_store)" .
  have g: "getFileFromGitHub small_store (DATA_PATH @ ''/'' @ ''communities'' @ ''/'' @ ''gaming''
        @ ''.json'')
      = Inr (Some \<lparr>f_content = Community gaming, f_sha = Some (Json (Community gaming))\<rparr>)
     \<and> f_content \<lparr>f_content = Community gaming, f_sha = Some (Json (Community gaming))\<rparr>
        \<noteq> Empty"
    by (simp add: getFileFromGitHub_def small_store_def DATA_PATH_def)
  from small[THEN conjunct1, rule_format, OF g]
  have c: "getDirectWithFallback small_store ''communities'' ''gaming'' None
     = (Inr (Some \<lparr>f_content = Community gaming, f_sha = Some (Json (Community gaming))\<rparr>),
        small_store)" .
  have e: "get_community_route [''darn''] small_store 2000 ''chess''
     = (Response 404 (ErrorBody ''Community not found''), small_store)"
    using np
    by (simp add: get_community_route_def getDirectWithFallback_def community_fallback_def
          store_defs example_defs)
  with np have "get_community_route [''darn''] small_store 2000 ''chess''
     = (Response 404 (ErrorBody ''Community not found''), small_store)
     \<and> \<not> hasProfanity [''darn''] ''chess''"
    by simp
  from chess[THEN conjunct2, THEN conjunct2, THEN conjunct2, THEN conjunct2, THEN conjunct1,
      rule_format, OF this]
  have f: "community_fallback 2000 ''chess'' small_store = (Inr None, small_store)"
    by blast
  from a b c e f show ?thesis by simp
qed

section \<open>Deleting a community\<close>

lemma direct_not_index:
  "DATA_PATH @ ''/communities/'' @ community @ ''.json'' \<noteq> index_path"
  by (simp add: DATA_PATH_def index_path_def)

lemma delete_community_effect:
  assumes "delete_community_route s now community username = (Response 200 b, s')"
  shows "username = Some ''timco'' \<and>
     (\<exists>ix. stored_index s = Some ix \<and> communities ix community \<noteq> None \<and>
        s' = s\<lparr>files := (files s)(index_path \<mapsto> Json (Index
               (ix\<lparr>i_users := Some (users ix),
                    i_communities := Some ((communities ix)(community := None)),
                    i_posts := Some (posts ix), i_lastUpdated := now\<rparr>)))\<rparr>)"
proof -
  from assms have u: "username = Some ''timco''"
    by (auto simp: delete_community_route_def split: if_splits)
  from assms u obtain ix h s1 where gi: "getIndex s now = Inr (ix, h, s1)"
    by (auto simp: delete_community_route_def failed_def split: sum.splits)
  from assms u gi obtain meta where meta: "communities ix community = Some meta"
    by (auto simp: delete_community_route_def split: option.splits)
  with getIndex_cases[OF gi] obtain ix0 where s1: "s1 = s" and ix0: "stored_index s = Some ix0"
    and ix: "ix = ix0\<lparr>i_users := Some (users ix0), i_communities := Some (communities ix0),
                      i_posts := Some (posts ix0)\<rparr>"
    by auto
  from assms u gi meta s1 have
    "updateIndex s now (ix\<lparr>i_communities := Some ((communities ix)(community := None))\<rparr>) h
       = Inr s'"
    by (auto simp: delete_community_route_def failed_def split: sum.splits)
  from save_Inr[OF this[unfolded updateIndex_def]]
  have s'1: "s' = s\<lparr>files := (files s)(index_path \<mapsto> Json (Index
          (ix\<lparr>i_communities := Some ((communities ix)(community := None)),
               i_lastUpdated := now\<rparr>)))\<rparr>"
    by simp
  have cix: "communities ix = communities ix0" using ix by simp
  have "ix\<lparr>i_communities := Some ((communities ix0)(community := None)),
            i_lastUpdated := now\<rparr>
        = ix0\<lparr>i_users := Some (users ix0),
              i_communities := Some ((communities ix0)(community := None)),
              i_posts := Some (posts ix0), i_lastUpdated := now\<rparr>"
    unfolding ix by (cases ix0) simp
  with s'1 cix have "s' = s\<lparr>files := (files s)(index_path \<mapsto> Json (Index
               (ix0\<lparr>i_users := Some (users ix0),
                    i_communities := Some ((communities ix0)(community := None)),
                    i_posts := Some (posts ix0), i_lastUpdated := now\<rparr>)))\<rparr>"
    by simp
  moreover from meta ix have "communities ix0 community \<noteq> None" by simp
  ultimately show ?thesis using u ix0 by blast
qed

text \<open>
  C9. A community deletion that answers 200 was asked for by \<open>timco\<close> and changes nothing but
  the index file: the new index is the old one without the entry of the community, stamped
  with the time of the call. Every other file, the community document at its direct path
  among them, is as before. So when that document can be read and is not empty, the
  community route answers after the deletion what it answered before it; for a name that
  passes the word filter that answer is the document itself.
\<close>

theorem delete_community_only_index:
  assumes "delete_community_route s now community username = (Response 200 b, s')"
  shows "username = Some ''timco''
    \<and> (\<exists>ix. stored_index s = Some ix \<and> communities ix community \<noteq> None \<and>
          stored_index s' =
            Some (ix\<lparr>i_users := Some (users ix),
                     i_communities := Some ((communities ix)(community := None)),
                     i_posts := Some (posts ix), i_lastUpdated := now\<rparr>))
    \<and> (\<forall>p. p \<noteq> index_path \<longrightarrow> files s' p = files s p)
    \<and> outage s' = outage s
    \<and> files s' (DATA_PATH @ ''/communities/'' @ community @ ''.json'')
        = files s (DATA_PATH @ ''/communities/'' @ community @ ''.json'')
    \<and> (\<forall>d BAD_WORDS later.
          files s (DATA_PATH @ ''/communities/'' @ community @ ''.json'') = Some (Json d) \<and>
          d \<noteq> Empty \<and> \<not> outage s Get (DATA_PATH @ ''/communities/'' @ community @ ''.json'')
          \<longrightarrow> fst (get_community_route BAD_WORDS s' later community)
                = fst (get_community_route BAD_WORDS s later community)
              \<and> snd (get_community_route BAD_WORDS s' later community) = s'
              \<and> (\<not> hasProfanity BAD_WORDS community \<longrightarrow>
                   get_community_route BAD_WORDS s' later community
                     = (Response 200 (DocBody d), s')))"
proof -
  from delete_community_effect[OF assms] obtain ix where
    u: "username = Some ''timco''" and ix: "stored_index s = Some ix"
      "communities ix community \<noteq> None"
    and s': "s' = s\<lparr>files := (files s)(index_path \<mapsto> Json (Index
               (ix\<lparr>i_users := Some (users ix),
                    i_communities := Some ((communities ix)(community := None)),
                    i_posts := Some (posts ix), i_lastUpdated := now\<rparr>)))\<rparr>"
    by blast
  let ?direct = "DATA_PATH @ ''/communities/'' @ community @ ''.json''"
  have frame: "\<forall>p. p \<noteq> index_path \<longrightarrow> files s' p = files s p" by (simp add: s')
  have out: "outage s' = outage s" by (simp add: s')
  have same: "files s' ?direct = files s ?direct"
    using frame direct_not_index by blast
  have si: "stored_index s' =
            Some (ix\<lparr>i_users := Some (users ix),
                     i_communities := Some ((communities ix)(community := None)),
                     i_posts := Some (posts ix), i_lastUpdated := now\<rparr>)"
    by (simp add: s' stored_index_def)
  have get: "\<forall>d BAD_WORDS later.
          files s ?direct = Some (Json d) \<and> d \<noteq> Empty \<and> \<not> outage s Get ?direct
          \<longrightarrow> fst (get_community_route BAD_WORDS s' later community)
                = fst (get_community_route BAD_WORDS s later community)
              \<and> snd (get_community_route BAD_WORDS s' later community) = s'
              \<and> (\<not> hasProfanity BAD_WORDS community \<longrightarrow>
                   get_community_route BAD_WORDS s' later community
                     = (Response 200 (DocBody d), s'))"
  proof (intro allI impI)
    fix d BAD_WORDS later
    assume "files s ?direct = Some (Json d) \<and> d \<noteq> Empty \<and> \<not> outage s Get ?direct"
    then have d: "files s ?direct = Some (Json d)" "d \<noteq> Empty" "\<not> outage s Get ?direct"
      by simp_all
    with same out have d': "files s' ?direct = Some (Json d)" "\<not> outage s' Get ?direct"
      by simp_all
    show "fst (get_community_route BAD_WORDS s' later community)
                = fst (get_community_route BAD_WORDS s later community)
              \<and> snd (get_community_route BAD_WORDS s' later community) = s'
              \<and> (\<not> hasProfanity BAD_WORDS community \<longrightarrow>
                   get_community_route BAD_WORDS s' later community
                     = (Response 200 (DocBody d), s'))"
    proof (cases "hasProfanity BAD_WORDS community")
      case True
      then show ?thesis by (simp add: get_community_route_def)
    next
      case False
      from community_direct[OF d False]
      have "get_community_route BAD_WORDS s later community = (Response 200 (DocBody d), s)" .
      moreover
      from community_direct[OF d'(1) d(2) d'(2) False]
      have "get_community_route BAD_WORDS s' later community = (Response 200 (DocBody d), s')" .
      ultimately show ?thesis by simp
    qed
  qed
  from u ix si frame out same get show ?thesis by blast
qed

lemmas community_defs = delete_community_route_def get_community_route_def
  getDirectWithFallback_def community_fallback_def update_community_read_def
  update_community_write_def update_community_route_def may_edit_def edit_community_def
  edit_fields_def racing_updates_def hasProfanity_def toLowerCase_def

theorem delete_community_only_index_witness:
  "fst (delete_community_route small_store 3000 ''gaming'' (Some ''timco''))
     = Response 200 SuccessBody
   \<and> get_community_route [''darn'']
       (snd (delete_community_route small_store 3000 ''gaming'' (Some ''timco''))) 3001 ''gaming''
     = (Response 200 (DocBody (Community gaming)),
        snd (delete_community_route small_store 3000 ''gaming'' (Some ''timco'')))"
proof -
  let ?res = "delete_community_route small_store 3000 ''gaming'' (Some ''timco'')"
  have ok: "fst ?res = Response 200 SuccessBody"
    by (simp add: community_defs store_defs example_defs)
  then have del: "?res = (Response 200 SuccessBody, snd ?res)"
    by (metis prod.collapse)
  have d: "files small_store (DATA_PATH @ ''/communities/'' @ ''gaming'' @ ''.json'')
        = Some (Json (Community gaming)) \<and> Community gaming \<noteq> Empty \<and>
      \<not> outage small_store Get (DATA_PATH @ ''/communities/'' @ ''gaming'' @ ''.json'')"
    by (simp add: small_store_def DATA_PATH_def)
  have np: "\<not> hasProfanity [''darn''] ''gaming''"
    by (simp add: hasProfanity_def toLowerCase_def)
  from delete_community_only_index[OF del] d np
  have "get_community_route [''darn''] (snd ?res) 3001 ''gaming''
     = (Response 200 (DocBody (Community gaming)), snd ?res)"
    by blast
  with ok show ?thesis by blast
qed

section \<open>Updating a community\<close>






section \<open>Passwords\<close>

lemma map_of_drop_field: "map_of (drop_field k kvs) k = None"
  by (induction kvs) (auto simp: drop_field_def)

lemma map_of_drop_other: "k' \<noteq> k \<Longrightarrow> map_of (drop_field k kvs) k' = map_of kvs k'"
  by (induction kvs) (auto simp: drop_field_def)

lemma strip_password_clean: "doc_password (strip_password d) = None"
  by (cases d) (simp_all add: doc_password_def strip_password_def map_of_drop_field)

lemma strip_voters_password: "doc_password (strip_voters d) = doc_password d"
  by (cases d) (simp_all add: doc_password_def strip_voters_def map_of_drop_other)

lemma getFile_password:
  assumes "getFileFromGitHub s f = Inr (Some r)" and "no_password_at s f"
  shows "doc_password (f_content r) = None"
  using assms
  by (auto simp: getFileFromGitHub_def no_password_at_def doc_password_def
        split: if_splits option.splits body.splits)

lemma populate_posts_clean:
  assumes "populate_posts s index ids = Inr populated"
    and "\<forall>entry \<in> set (posts index). no_password_at s (DATA_PATH @ ''/'' @ pr_file (snd entry))"
  shows "\<forall>p \<in> set populated. doc_password (pp_post p) = None"
  using assms
proof (induction ids arbitrary: populated)
  case Nil
  then show ?case by simp
next
  case (Cons postId rest)
  show ?case
  proof (cases "map_of (posts index) postId")
    case None
    with Cons show ?thesis by simp
  next
    case (Some meta)
    then have "(postId, meta) \<in> set (posts index)" by (rule map_of_SomeD)
    with Cons.prems(2) have clean: "no_password_at s (DATA_PATH @ ''/'' @ pr_file meta)"
      by force
    show ?thesis
    proof (cases "getFileFromGitHub s (DATA_PATH @ ''/'' @ pr_file meta)")
      case (Inl e)
      with Cons.prems(1) Some show ?thesis by simp
    next
      case (Inr ro)
      show ?thesis
      proof (cases ro)
        case None
        with Cons Some Inr show ?thesis by simp
      next
        case (Some r)
        with Inr have g: "getFileFromGitHub s (DATA_PATH @ ''/'' @ pr_file meta) = Inr (Some r)"
          by simp
        from Cons.prems(1) \<open>map_of (posts index) postId = Some meta\<close> g
        obtain others where o: "populate_posts s index rest = Inr others"
          and p: "populated =
            \<lparr>pp_post = strip_voters (f_content r),
             pp_authorAvatar = avatar_of index (author_key (f_content r)),
             pp_communityIcon = icon_of index (community_key (f_content r))\<rparr> # others"
          by (auto split: sum.splits)
        from Cons.IH[OF o Cons.prems(2)] getFile_password[OF g clean] p
        show ?thesis by (simp add: strip_voters_password)
      qed
    qed
  qed
qed

lemma user_resolved_store:
  assumes "getDirectWithFallback s ''users'' username (Some (user_fallback now username))
             = (Inr (Some r), s1)"
  shows "s1 = s"
proof (cases "\<exists>r0. getFileFromGitHub s (DATA_PATH @ ''/'' @ ''users'' @ ''/'' @ username @ ''.json'')
                 = Inr (Some r0) \<and> f_content r0 \<noteq> Empty")
  case True
  with assms show ?thesis by (auto simp: getDirectWithFallback_def)
next
  case False
  then have "\<forall>r0. getFileFromGitHub s (DATA_PATH @ ''/'' @ ''users'' @ ''/'' @ username @ ''.json'')
                 = Inr (Some r0) \<longrightarrow> f_content r0 = Empty"
    by blast
  from direct_miss[OF this] assms
  have fb: "user_fallback now username s = (Inr (Some r), s1)" by simp
  then obtain ix h s0 where gi: "getIndex s now = Inr (ix, h, s0)"
    by (auto simp: user_fallback_def split: sum.splits)
  from fb gi obtain meta where "users ix username = Some meta" and "s1 = s0"
    by (auto simp: user_fallback_def split: option.splits)
  with getIndex_cases[OF gi] show ?thesis by auto
qed

lemma get_user_clean:
  assumes "get_user_route BAD_WORDS s now username = (Response n b, s')"
    and "200 \<le> n" "n < 300" and "post_files_clean s"
  shows "\<not> leaks_password b"
proof -
  from assms(1-3) have np: "\<not> hasProfanity BAD_WORDS username"
    by (auto simp: get_user_route_def split: if_splits)
  from assms(1-3) np obtain r s1 where
    res: "getDirectWithFallback s ''users'' username (Some (user_fallback now username))
            = (Inr (Some r), s1)"
    by (auto simp: get_user_route_def failed_def split: prod.splits sum.splits option.splits)
  from user_resolved_store[OF res] have s1: "s1 = s" .
  from assms(1-3) np res s1 obtain index h s2 where gi: "getIndex s now = Inr (index, h, s2)"
    by (auto simp: get_user_route_def failed_def split: sum.splits)
  from assms(1-3) np res s1 gi obtain pp pc where
    pp: "populate_posts s2 index
           (case f_content r of User u \<Rightarrow> u_posts u | _ \<Rightarrow> []) = Inr pp"
    and b: "b = ProfileBody (strip_password (f_content r)) pp pc"
    by (auto simp: get_user_route_def failed_def split: sum.splits)
  have "\<forall>entry \<in> set (posts index).
          no_password_at s2 (DATA_PATH @ ''/'' @ pr_file (snd entry))"
    using getIndex_cases[OF gi] assms(4)
    by (fastforce simp: post_files_clean_def list_all_iff)
  from populate_posts_clean[OF pp this] b show ?thesis
    by (auto simp: leaks_password_def list_ex_iff strip_password_clean)
qed

lemma register_clean:
  assumes "register_route BAD_WORDS s now userId hashed username password email
             = (Response n b, s')"
    and "200 \<le> n" "n < 300"
  shows "\<not> leaks_password b"
  using assms
  by (auto simp: register_route_def failed_def leaks_password_def strip_password_def
        doc_password_def split: option.splits if_splits sum.splits prod.splits)

lemma login_clean:
  assumes "login_route compare s now username password = (Response n b, s')"
    and "200 \<le> n" "n < 300"
  shows "\<not> leaks_password b"
  using assms
  by (auto simp: login_route_def failed_def leaks_password_def strip_password_clean
        split: option.splits if_splits sum.splits prod.splits)

lemma update_user_clean:
  assumes "update_user_route s now username avatarUrl about = (Response n b, s')"
    and "200 \<le> n" "n < 300"
  shows "\<not> leaks_password b"
  using assms
  by (auto simp: update_user_route_def failed_def leaks_password_def strip_password_clean
        split: option.splits sum.splits prod.splits doc.splits)

lemma login_body:
  assumes "login_route compare s now username password = (Response n b, s')"
    and "200 \<le> n" "n < 300"
  shows "\<exists>f d h pw. files s f = Some (Json d) \<and> doc_password d = Some h \<and>
           password = Some pw \<and> compare pw h \<and> b = UserBody (strip_password d) \<and> s' = s"
proof -
  from assms obtain u pw where up: "username = Some u" "password = Some pw" "u \<noteq> []" "pw \<noteq> []"
    by (auto simp: login_route_def split: option.splits if_splits)
  from assms up obtain ix h0 s1 where gi: "getIndex s now = Inr (ix, h0, s1)"
    by (auto simp: login_route_def failed_def split: sum.splits)
  from assms up gi obtain meta where meta: "users ix u = Some meta"
    by (auto simp: login_route_def split: option.splits)
  with getIndex_cases[OF gi] have s1: "s1 = s" by auto
  let ?f = "DATA_PATH @ ''/'' @ ur_file meta"
  from assms up gi meta s1 obtain r h where r: "getFileFromGitHub s ?f = Inr (Some r)"
    and h: "doc_password (f_content r) = Some h" "compare pw h"
    and b: "b = UserBody (strip_password (f_content r))" "s' = s"
    by (auto simp: login_route_def failed_def split: sum.splits option.splits if_splits)
  from r h(1) have "files s ?f = Some (Json (f_content r))"
    by (auto simp: getFileFromGitHub_def doc_password_def
          split: if_splits option.splits body.splits)
  with h b up show ?thesis by blast
qed

text \<open>
  C10. Every response with a status from 200 to 299 of the register, login, profile and
  profile update routes is free of \<open>password\<close> fields: the document it returns has been
  stripped of the field. The login route returns the stored document whose password
  matched, without that field. For the profile route, which embeds the posts of the user
  in the response, this presupposes the data model: the files that the post entries of the
  index name are not documents with a password.
\<close>

theorem password_never_returned:
  "(\<forall>n b s'. register_route BAD_WORDS s now userId hashed username password email
                 = (Response n b, s') \<and> 200 \<le> n \<and> n < 300 \<longrightarrow> \<not> leaks_password b)
   \<and> (\<forall>n b s'. login_route compare s now username password = (Response n b, s') \<and>
                200 \<le> n \<and> n < 300 \<longrightarrow>
          \<not> leaks_password b \<and>
          (\<exists>f d h. files s f = Some (Json d) \<and> doc_password d = Some h \<and>
                   b = UserBody (strip_password d)))
   \<and> (\<forall>n b s'. get_user_route BAD_WORDS s now name = (Response n b, s') \<and>
                200 \<le> n \<and> n < 300 \<and> post_files_clean s \<longrightarrow> \<not> leaks_password b)
   \<and> (\<forall>n b s'. update_user_route s now name avatarUrl about = (Response n b, s') \<and>
                200 \<le> n \<and> n < 300 \<longrightarrow> \<not> leaks_password b)
   \<and> doc_password (strip_password d) = None"
proof (intro conjI allI impI)
  fix n b s'
  assume "register_route BAD_WORDS s now userId hashed username password email
                 = (Response n b, s') \<and> 200 \<le> n \<and> n < 300"
  then show "\<not> leaks_password b" using register_clean by blast
next
  fix n b s'
  assume "login_route compare s now username password = (Response n b, s') \<and>
                200 \<le> n \<and> n < 300"
  then show "\<not> leaks_password b" using login_clean by blast
next
  fix n b s'
  assume "login_route compare s now username password = (Response n b, s') \<and>
                200 \<le> n \<and> n < 300"
  then have "login_route compare s now username password = (Response n b, s')"
    "200 \<le> n" "n < 300"
    by simp_all
  from login_body[OF this]
  show "\<exists>f d h. files s f = Some (Json d) \<and> doc_password d = Some h \<and>
                   b = UserBody (strip_password d)"
    by blast
next
  fix n b s'
  assume "get_user_route BAD_WORDS s now name = (Response n b, s') \<and>
                200 \<le> n \<and> n < 300 \<and> post_files_clean s"
  then show "\<not> leaks_password b" using get_user_clean by blast
next
  fix n b s'
  assume "update_user_route s now name avatarUrl about = (Response n b, s') \<and>
                200 \<le> n \<and> n < 300"
  then show "\<not> leaks_password b" using update_user_clean by blast
qed (rule strip_password_clean)

lemmas user_defs = register_route_def login_route_def get_user_route_def update_user_route_def
  user_fallback_def getDirectWithFallback_def strip_password_def doc_password_def
  strip_voters_def author_key_def community_key_def avatar_of_def icon_of_def
  hasProfanity_def toLowerCase_def

theorem password_never_returned_witness:
  "login_route (\<lambda>pw h. pw = ''secret'') small_store 2000 (Some ''alice'') (Some ''secret'')
     = (Response 200 (UserBody (User (alice\<lparr>u_password := None\<rparr>))), small_store)
   \<and> u_password alice = Some ''$2a$10$hash''
   \<and> \<not> leaks_password (UserBody (User (alice\<lparr>u_password := None\<rparr>)))
   \<and> status (fst (get_user_route [''darn''] small_store 2000 ''alice'')) = 200
   \<and> \<not> leaks_password (payload_of (fst (get_user_route [''darn''] small_store 2000 ''alice'')))
   \<and> status (fst (register_route [''darn''] small_store 2000 ''u2'' ''$2a$10$other''
                    (Some ''bob'') (Some ''hunter2'') None)) = 201
   \<and> \<not> leaks_password (payload_of (fst (register_route [''darn''] small_store 2000 ''u2''
                    ''$2a$10$other'' (Some ''bob'') (Some ''hunter2'') None)))
   \<and> status (fst (update_user_route small_store 2000 ''alice'' (Some ''pic.png'') None)) = 200
   \<and> \<not> leaks_password (payload_of (fst (update_user_route small_store 2000 ''alice''
                    (Some ''pic.png'') None)))"
proof -
  note all = password_never_returned[where s = small_store and now = 2000
      and name = "''alice''" and BAD_WORDS = "[''darn'']" and username = "Some ''alice''"
      and password = "Some ''secret''" and compare = "\<lambda>pw h. pw = ''secret''"
      and avatarUrl = "Some ''pic.png''" and about = None]
  note reg = password_never_returned[where s = small_store and now = 2000
      and BAD_WORDS = "[''darn'']" and username = "Some ''bob''"
      and password = "Some ''hunter2''" and userId = "''u2''" and hashed = "''$2a$10$other''"
      and email = None, THEN conjunct1, rule_format]
  note login = all[THEN conjunct2, THEN conjunct1, rule_format]
  note profile = all[THEN conjunct2, THEN conjunct2, THEN conjunct1, rule_format]
  note update = all[THEN conjunct2, THEN conjunct2, THEN conjunct2, THEN conjunct1, rule_format]
  have n: "(200::nat) \<le> 200" "(200::nat) < 300" "(200::nat) \<le> 201" "(201::nat) < 300" by simp_all
  have l: "login_route (\<lambda>pw h. pw = ''secret'') small_store 2000 (Some ''alice'') (Some ''secret'')
     = (Response 200 (UserBody (User (alice\<lparr>u_password := None\<rparr>))), small_store)"
    by (simp add: user_defs store_defs example_defs)
  with n have "login_route (\<lambda>pw h. pw = ''secret'') small_store 2000 (Some ''alice'')
      (Some ''secret'')
     = (Response 200 (UserBody (User (alice\<lparr>u_password := None\<rparr>))), small_store)
     \<and> (200::nat) \<le> 200 \<and> (200::nat) < 300"
    by simp
  from login[OF this] have a: "\<not> leaks_password (UserBody (User (alice\<lparr>u_password := None\<rparr>)))"
    by blast
  have c: "post_files_clean small_store"
    by (simp add: post_files_clean_def no_password_at_def stored_index_def doc_password_def
          store_defs example_defs)
  let ?g = "get_user_route [''darn''] small_store 2000 ''alice''"
  have g: "status (fst ?g) = 200"
    by (simp add: user_defs store_defs example_defs)
  then obtain b where gb: "?g = (Response 200 b, snd ?g)"
    by (cases "fst ?g") (auto simp: prod_eq_iff)
  then have pb: "payload_of (fst ?g) = b" by (metis fst_conv payload_of.simps)
  from gb c n have "?g = (Response 200 b, snd ?g) \<and> (200::nat) \<le> 200 \<and> (200::nat) < 300 \<and>
      post_files_clean small_store"
    by blast
  from profile[OF this] pb have p: "\<not> leaks_password (payload_of (fst ?g))" by simp
  let ?r = "register_route [''darn''] small_store 2000 ''u2'' ''$2a$10$other''
                    (Some ''bob'') (Some ''hunter2'') None"
  have r: "status (fst ?r) = 201"
    by (simp add: user_defs store_defs example_defs)
  then obtain rb where rb: "?r = (Response 201 rb, snd ?r)"
    by (cases "fst ?r") (auto simp: prod_eq_iff)
  then have prb: "payload_of (fst ?r) = rb" by (metis fst_conv payload_of.simps)
  from rb n have "?r = (Response 201 rb, snd ?r) \<and> (200::nat) \<le> 201 \<and> (201::nat) < 300"
    by blast
  from reg[OF this] prb have q: "\<not> leaks_password (payload_of (fst ?r))" by simp
  let ?u = "update_user_route small_store 2000 ''alice'' (Some ''pic.png'') None"
  have u: "status (fst ?u) = 200"
    by (simp add: user_defs store_defs example_defs)
  then obtain ub where ub: "?u = (Response 200 ub, snd ?u)"
    by (cases "fst ?u") (auto simp: prod_eq_iff)
  then have pub: "payload_of (fst ?u) = ub" by (metis fst_conv payload_of.simps)
  from ub n have "?u = (Response 200 ub, snd ?u) \<and> (200::nat) \<le> 200 \<and> (200::nat) < 300"
    by blast
  from update[OF this] pub have w: "\<not> leaks_password (payload_of (fst ?u))" by simp
  from l a g p r q u w show ?thesis by (simp add: alice_def)
qed

section \<open>Retention\<close>

lemma deleteFile_eq:
  "deleteFileFromGitHub s f =
     (if outage s Get f \<or> outage s Del f then s else s\<lparr>files := (files s)(f := None)\<rparr>)"
proof (cases "files s f")
  case None
  then have "(files s)(f := None) = files s" by (metis fun_upd_triv)
  then have "s\<lparr>files := (files s)(f := None)\<rparr> = s" by simp
  with None show ?thesis
    by (simp add: deleteFileFromGitHub_def getFileFromGitHub_def)
next
  case (Some b)
  then show ?thesis
    by (cases b) (simp_all add: deleteFileFromGitHub_def getFileFromGitHub_def)
qed

lemma outage_deleteFile [simp]: "outage (deleteFileFromGitHub s f) = outage s"
  by (simp add: deleteFile_eq)

lemma map_of_filter_key:
  "map_of (filter (\<lambda>entry. fst entry \<noteq> k) xs) k' = (if k' = k then None else map_of xs k')"
  by (induction xs) auto

lemma posts_set [simp]: "posts (index\<lparr>i_posts := Some xs\<rparr>) = xs"
  by (simp add: posts_def)

lemma users_posts_upd [simp]: "users (index\<lparr>i_posts := x\<rparr>) = users index"
  by (simp add: users_def)

lemma communities_posts_upd [simp]: "communities (index\<lparr>i_posts := x\<rparr>) = communities index"
  by (simp add: communities_def)

lemma delete_posts_spec:
  "delete_posts s index changed ids = (s2, index2, changed2) \<Longrightarrow>
     posts index2 = filter (\<lambda>entry. fst entry \<notin> set ids) (posts index) \<and>
     (i_posts index = Some (posts index) \<longrightarrow> index2 = index\<lparr>i_posts := Some (posts index2)\<rparr>) \<and>
     changed2 = (changed \<or> (\<exists>postId \<in> set ids. map_of (posts index) postId \<noteq> None)) \<and>
     outage s2 = outage s \<and>
     (\<forall>p. files s2 p = (if doomed s index ids p then None else files s p))"
proof (induction ids arbitrary: s index changed)
  case Nil
  then show ?case by (auto simp: doomed_def posts_def split: option.splits)
next
  case (Cons postId rest)
  show ?case
  proof (cases "map_of (posts index) postId")
    case None
    with Cons.prems have r: "delete_posts s index changed rest = (s2, index2, changed2)"
      by simp
    from None have notin: "\<forall>entry \<in> set (posts index). fst entry \<noteq> postId"
      by (metis map_of_eq_None_iff image_eqI)
    then have f: "filter (\<lambda>entry. fst entry \<notin> set (postId # rest)) (posts index)
        = filter (\<lambda>entry. fst entry \<notin> set rest) (posts index)"
      by (auto intro: filter_cong)
    have d: "\<And>p. doomed s index (postId # rest) p = doomed s index rest p"
      using None by (auto simp: doomed_def)
    from Cons.IH[OF r] None f d show ?thesis by auto
  next
    case (Some meta)
    let ?s1 = "deleteFileFromGitHub s (DATA_PATH @ ''/'' @ pr_file meta)"
    let ?ix1 = "index\<lparr>i_posts := Some (filter (\<lambda>entry. fst entry \<noteq> postId) (posts index))\<rparr>"
    from Some Cons.prems have r: "delete_posts ?s1 ?ix1 True rest = (s2, index2, changed2)"
      by simp
    note ih = Cons.IH[OF r]
    have out1: "outage ?s1 = outage s" by simp
    have p1: "posts index2 = filter (\<lambda>entry. fst entry \<notin> set (postId # rest)) (posts index)"
      using ih by (auto intro: filter_cong)
    have i1: "i_posts index = Some (posts index) \<longrightarrow> index2 = index\<lparr>i_posts := Some (posts index2)\<rparr>"
    proof -
      from ih have "i_posts ?ix1 = Some (posts ?ix1) \<longrightarrow>
          index2 = ?ix1\<lparr>i_posts := Some (posts index2)\<rparr>"
        by blast
      moreover have "i_posts ?ix1 = Some (posts ?ix1)" by simp
      ultimately have "index2 = ?ix1\<lparr>i_posts := Some (posts index2)\<rparr>" by blast
      also have "\<dots> = index\<lparr>i_posts := Some (posts index2)\<rparr>" by simp
      finally show ?thesis by blast
    qed
    have c1: "changed2 = (changed \<or> (\<exists>k \<in> set (postId # rest). map_of (posts index) k \<noteq> None))"
      using ih Some by simp
    have o1: "outage s2 = outage s" using ih out1 by simp
    have f1: "\<forall>p. files s2 p = (if doomed s index (postId # rest) p then None else files s p)"
    proof
      fix p
      have d1: "doomed ?s1 ?ix1 rest p =
         (\<exists>k \<in> set rest. k \<noteq> postId \<and> (\<exists>m. map_of (posts index) k = Some m \<and>
            p = post_file m \<and> \<not> outage s Get p \<and> \<not> outage s Del p))"
        by (auto simp: doomed_def map_of_filter_key)
      have here: "files ?s1 p =
         (if p = post_file meta \<and> \<not> outage s Get p \<and> \<not> outage s Del p then None else files s p)"
        by (auto simp: deleteFile_eq post_file_def)
      have d0: "doomed s index (postId # rest) p =
         ((p = post_file meta \<and> \<not> outage s Get p \<and> \<not> outage s Del p) \<or>
          (\<exists>k \<in> set rest. k \<noteq> postId \<and> (\<exists>m. map_of (posts index) k = Some m \<and>
            p = post_file m \<and> \<not> outage s Get p \<and> \<not> outage s Del p)))"
      proof
        assume "doomed s index (postId # rest) p"
        then obtain k m where k: "k \<in> set (postId # rest)" "map_of (posts index) k = Some m"
          "p = post_file m" "\<not> outage s Get p" "\<not> outage s Del p"
          unfolding doomed_def by blast
        show "(p = post_file meta \<and> \<not> outage s Get p \<and> \<not> outage s Del p) \<or>
          (\<exists>k \<in> set rest. k \<noteq> postId \<and> (\<exists>m. map_of (posts index) k = Some m \<and>
            p = post_file m \<and> \<not> outage s Get p \<and> \<not> outage s Del p))"
        proof (cases "k = postId")
          case True
          with k Some show ?thesis by simp
        next
          case False
          with k have "k \<in> set rest" by simp
          with False k show ?thesis by blast
        qed
      next
        assume "(p = post_file meta \<and> \<not> outage s Get p \<and> \<not> outage s Del p) \<or>
          (\<exists>k \<in> set rest. k \<noteq> postId \<and> (\<exists>m. map_of (posts index) k = Some m \<and>
            p = post_file m \<and> \<not> outage s Get p \<and> \<not> outage s Del p))"
        then show "doomed s index (postId # rest) p"
          unfolding doomed_def using Some by auto
      qed
      from ih have "files s2 p = (if doomed ?s1 ?ix1 rest p then None else files ?s1 p)"
        by blast
      with d1 here d0 show "files s2 p = (if doomed s index (postId # rest) p then None else files s p)"
        by auto
    qed
    from p1 i1 c1 o1 f1 show ?thesis by blast
  qed
qed

lemma candidate_is_key:
  "postId \<in> set (postsToDelete s now ms ix) \<Longrightarrow> map_of (posts ix) postId \<noteq> None"
  by (auto simp: postsToDelete_def map_of_eq_None_iff intro: rev_image_eqI)

lemma postsToDelete_filled:
  "postsToDelete s now ms
     (ix\<lparr>i_users := a, i_communities := b, i_posts := Some (posts ix)\<rparr>)
   = postsToDelete s now ms ix"
  by (simp add: postsToDelete_def)

lemma doomed_filled:
  "doomed s (ix\<lparr>i_users := a, i_communities := b, i_posts := Some (posts ix)\<rparr>) ids p
   = doomed s ix ids p"
  by (simp add: doomed_def)

lemma getConfig_total: "\<not> outage s Get config_path \<Longrightarrow> \<exists>cfg. getConfig s = Inr cfg"
  by (auto simp: getConfig_def getFileFromGitHub_def split: option.splits body.splits)

lemma cleanup_spec:
  assumes ix: "stored_index s = Some ix"
    and paths: "\<forall>entry \<in> set (posts ix). post_file (snd entry) \<noteq> index_path"
    and up: "\<not> outage s Get index_path" "\<not> outage s Put index_path"
    and cfg: "getConfig s = Inr cfg"
    and batch: "batch = take 5 (postsToDelete s now (retentionMs cfg) ix)"
  shows "(\<exists>ix'. stored_index (cleanupOldPosts s now) = Some ix' \<and>
            posts ix' = filter (\<lambda>entry. fst entry \<notin> set batch) (posts ix) \<and>
            users ix' = users ix \<and> communities ix' = communities ix) \<and>
         (\<forall>p. p \<noteq> index_path \<longrightarrow>
            files (cleanupOldPosts s now) p = (if doomed s ix batch p then None else files s p)) \<and>
         outage (cleanupOldPosts s now) = outage s"
proof -
  let ?full = "ix\<lparr>i_users := Some (users ix), i_communities := Some (communities ix),
                   i_posts := Some (posts ix)\<rparr>"
  from ix have fi: "files s index_path = Some (Json (Index ix))" by (simp add: stored_index_files)
  note gi = getIndex_stored[OF fi up(1), of now]
  obtain s2 index2 changed2 where dp: "delete_posts s ?full False batch = (s2, index2, changed2)"
    by (metis prod_cases3)
  note spec = delete_posts_spec[OF dp]
  have keys: "\<forall>postId \<in> set batch. map_of (posts ix) postId \<noteq> None"
    using candidate_is_key[of _ s now "retentionMs cfg" ix] batch
    by (meson in_set_takeD)
  have p2: "posts index2 = filter (\<lambda>entry. fst entry \<notin> set batch) (posts ix)"
    using spec by simp
  have "i_posts ?full = Some (posts ?full)" by simp
  with spec have i2: "index2 = ?full\<lparr>i_posts := Some (posts index2)\<rparr>"
    by blast
  have c2: "changed2 = (batch \<noteq> [])"
  proof (cases batch)
    case Nil
    with spec show ?thesis by simp
  next
    case (Cons k ks)
    with keys have "map_of (posts ix) k \<noteq> None" by simp
    with spec Cons show ?thesis by auto
  qed
  have o2: "outage s2 = outage s" using spec by simp
  have f2: "\<forall>p. files s2 p = (if doomed s ix batch p then None else files s p)"
    using spec by (simp add: doomed_filled)
  have nd: "\<not> doomed s ix batch index_path"
  proof
    assume "doomed s ix batch index_path"
    then obtain k m where "map_of (posts ix) k = Some m" "index_path = post_file m"
      unfolding doomed_def by blast
    then have "(k, m) \<in> set (posts ix)" "post_file m = index_path"
      by (simp_all add: map_of_SomeD)
    with paths show False by force
  qed
  have run: "cleanupOldPosts s now =
      (if changed2
       then (case updateIndex s2 now index2 (Some (Json (Index ix))) of
               Inl e \<Rightarrow> s2 | Inr s3 \<Rightarrow> s3)
       else s2)"
    using dp by (simp add: cleanupOldPosts_def cfg gi postsToDelete_filled batch)
  show ?thesis
  proof (cases "batch = []")
    case True
    with dp have "s2 = s" by simp
    with True c2 run have "cleanupOldPosts s now = s" by simp
    with True ix show ?thesis by (simp add: doomed_def)
  next
    case False
    let ?new = "index2\<lparr>i_lastUpdated := now\<rparr>"
    let ?s3 = "s2\<lparr>files := (files s2)(index_path \<mapsto> Json (Index ?new))\<rparr>"
    from f2 nd fi have "files s2 index_path = Some (Json (Index ix))" by simp
    with o2 up(2) have "updateIndex s2 now index2 (Some (Json (Index ix))) = Inr ?s3"
      by (simp add: updateIndex_def saveFileToGitHub_def)
    with False c2 run have res: "cleanupOldPosts s now = ?s3" by simp
    have si: "stored_index ?s3 = Some ?new" by (simp add: stored_index_def)
    have "posts ?new = posts index2" by (simp add: posts_def)
    moreover have "users ?new = users ix" "communities ?new = communities ix"
      by (subst i2, simp add: users_def communities_def)+
    ultimately have "\<exists>ix'. stored_index (cleanupOldPosts s now) = Some ix' \<and>
            posts ix' = filter (\<lambda>entry. fst entry \<notin> set batch) (posts ix) \<and>
            users ix' = users ix \<and> communities ix' = communities ix"
      using res si p2 by simp
    moreover have "\<forall>p. p \<noteq> index_path \<longrightarrow>
            files (cleanupOldPosts s now) p = (if doomed s ix batch p then None else files s p)"
      using res f2 by simp
    moreover have "outage (cleanupOldPosts s now) = outage s" using res o2 by simp
    ultimately show ?thesis by blast
  qed
qed

lemma candidate_iff:
  "postId \<in> set (postsToDelete s now ms ix) \<longleftrightarrow>
     (\<exists>meta. (postId, meta) \<in> set (posts ix) \<and> expired now ms meta \<and> inactive s meta)"
  by (force simp: postsToDelete_def)

lemma inactive_iff:
  "inactive s meta \<longleftrightarrow>
     \<not> outage s Get (post_file meta) \<and>
     (\<exists>b. files s (post_file meta) = Some b \<and> (case b of Json d \<Rightarrow> no_comments d | _ \<Rightarrow> True))"
  by (auto simp: inactive_def post_file_def getFileFromGitHub_def no_comments_def
        split: option.splits body.splits)

text \<open>
  C7. The retention job looks at the posts of the index whose age is above
  \<open>retentionDays\<close> and whose file it can fetch and finds without comments; a blank or
  unparseable file counts as without comments. It takes the first five of them in index
  order, deletes their files and takes their entries out of the index; the users and
  communities of the index, and every file other than the index and the deleted ones, stay
  as they are, so the post lists of communities and authors are untouched. A post with a
  comment is no candidate and keeps its entry. Deleting a file that is absent changes
  nothing. A post whose file cannot be fetched is passed over and a file that cannot be
  deleted stays, and in both cases the rest of the batch is processed.
\<close>

theorem retention_batch:
  assumes "stored_index s = Some ix"
    and "\<forall>entry \<in> set (posts ix). post_file (snd entry) \<noteq> index_path"
    and "\<not> outage s Get index_path" and "\<not> outage s Put index_path"
    and "getConfig s = Inr cfg"
    and "batch = take 5 (postsToDelete s now (retentionMs cfg) ix)"
  shows "length batch \<le> 5
    \<and> (\<forall>postId. postId \<in> set (postsToDelete s now (retentionMs cfg) ix) \<longleftrightarrow>
          (\<exists>meta. (postId, meta) \<in> set (posts ix) \<and> expired now (retentionMs cfg) meta \<and>
             inactive s meta))
    \<and> (\<forall>c meta. expired now (retentionMs (Config c)) meta \<longleftrightarrow>
          now - pr_createdAt meta > retentionDays c * 86400000)
    \<and> (\<forall>meta. inactive s meta \<longleftrightarrow>
          \<not> outage s Get (post_file meta) \<and>
          (\<exists>b. files s (post_file meta) = Some b \<and>
             (case b of Json d \<Rightarrow> no_comments d | _ \<Rightarrow> True)))
    \<and> (\<forall>p. no_comments (Post p) \<longleftrightarrow> p_comments p = [])
    \<and> (\<exists>ix'. stored_index (cleanupOldPosts s now) = Some ix' \<and>
          posts ix' = filter (\<lambda>entry. fst entry \<notin> set batch) (posts ix) \<and>
          users ix' = users ix \<and> communities ix' = communities ix)
    \<and> (\<forall>postId meta. postId \<in> set batch \<and> map_of (posts ix) postId = Some meta \<and>
          \<not> outage s Get (post_file meta) \<and> \<not> outage s Del (post_file meta) \<longrightarrow>
          files (cleanupOldPosts s now) (post_file meta) = None)
    \<and> (\<forall>p. p \<noteq> index_path \<and>
          (\<forall>postId meta. postId \<in> set batch \<and> map_of (posts ix) postId = Some meta
             \<longrightarrow> p \<noteq> post_file meta) \<longrightarrow>
          files (cleanupOldPosts s now) p = files s p)
    \<and> (\<forall>f. files s f = None \<longrightarrow> deleteFileFromGitHub s f = s)"
proof -
  note spec = cleanup_spec[OF assms]
  have a: "length batch \<le> 5" using assms(6) by simp
  have b: "\<forall>postId. postId \<in> set (postsToDelete s now (retentionMs cfg) ix) \<longleftrightarrow>
          (\<exists>meta. (postId, meta) \<in> set (posts ix) \<and> expired now (retentionMs cfg) meta \<and>
             inactive s meta)"
    using candidate_iff by blast
  have c: "\<forall>c meta. expired now (retentionMs (Config c)) meta \<longleftrightarrow>
          now - pr_createdAt meta > retentionDays c * 86400000"
    by (simp add: expired_def retentionMs_def mult.commute)
  have d: "\<forall>meta. inactive s meta \<longleftrightarrow>
          \<not> outage s Get (post_file meta) \<and>
          (\<exists>b. files s (post_file meta) = Some b \<and>
             (case b of Json d \<Rightarrow> no_comments d | _ \<Rightarrow> True))"
    using inactive_iff by blast
  have e: "\<forall>p. no_comments (Post p) \<longleftrightarrow> p_comments p = []"
    by (simp add: no_comments_def)
  have f: "\<exists>ix'. stored_index (cleanupOldPosts s now) = Some ix' \<and>
          posts ix' = filter (\<lambda>entry. fst entry \<notin> set batch) (posts ix) \<and>
          users ix' = users ix \<and> communities ix' = communities ix"
    using spec by blast
  have g: "\<forall>postId meta. postId \<in> set batch \<and> map_of (posts ix) postId = Some meta \<and>
          \<not> outage s Get (post_file meta) \<and> \<not> outage s Del (post_file meta) \<longrightarrow>
          files (cleanupOldPosts s now) (post_file meta) = None"
  proof (intro allI impI)
    fix postId meta
    assume h: "postId \<in> set batch \<and> map_of (posts ix) postId = Some meta \<and>
          \<not> outage s Get (post_file meta) \<and> \<not> outage s Del (post_file meta)"
    then have dm: "doomed s ix batch (post_file meta)" unfolding doomed_def by blast
    from h have "(postId, meta) \<in> set (posts ix)" by (simp add: map_of_SomeD)
    with assms(2) have "post_file meta \<noteq> index_path" by force
    with spec dm show "files (cleanupOldPosts s now) (post_file meta) = None" by simp
  qed
  have h: "\<forall>p. p \<noteq> index_path \<and>
          (\<forall>postId meta. postId \<in> set batch \<and> map_of (posts ix) postId = Some meta
             \<longrightarrow> p \<noteq> post_file meta) \<longrightarrow>
          files (cleanupOldPosts s now) p = files s p"
  proof (intro allI impI)
    fix p
    assume k: "p \<noteq> index_path \<and>
          (\<forall>postId meta. postId \<in> set batch \<and> map_of (posts ix) postId = Some meta
             \<longrightarrow> p \<noteq> post_file meta)"
    then have "\<not> doomed s ix batch p" unfolding doomed_def by blast
    with spec k show "files (cleanupOldPosts s now) p = files s p" by simp
  qed
  have i: "\<forall>f. files s f = None \<longrightarrow> deleteFileFromGitHub s f = s"
    by (simp add: deleteFileFromGitHub_def getFileFromGitHub_def)
  from a b c d e f g h i show ?thesis by blast
qed

lemmas retention_defs = getConfig_def config_path_def retentionMs_def expired_def inactive_def
  no_comments_def postsToDelete_def post_file_def aged_store_def aged_index_def aged_ref_def
  aged_post_def stormy_store_def day_def stored_index_def

lemma aged_batch:
  "postsToDelete aged_store (30 * day) (retentionMs (Config \<lparr>retentionDays = 20\<rparr>)) aged_index
     = [''old'']"
  by (simp add: retention_defs store_defs example_defs)

lemma stormy_batch:
  "postsToDelete stormy_store (30 * day) (retentionMs (Config \<lparr>retentionDays = 20\<rparr>))
     (aged_index\<lparr>i_posts := Some [aged_ref ''old'' 0, aged_ref ''stale'' 0]\<rparr>)
     = [''stale'']"
  by (simp add: retention_defs store_defs example_defs)

theorem retention_batch_witness:
  "files (cleanupOldPosts aged_store (30 * day)) ''data/posts/old.json'' = None
   \<and> files (cleanupOldPosts aged_store (30 * day)) ''data/posts/busy.json''
       = files aged_store ''data/posts/busy.json''
   \<and> files (cleanupOldPosts aged_store (30 * day)) ''data/communities/gaming.json''
       = files aged_store ''data/communities/gaming.json''
   \<and> (\<exists>ix'. stored_index (cleanupOldPosts aged_store (30 * day)) = Some ix' \<and>
         map fst (posts ix') = [''busy'', ''young'', ''gone''])
   \<and> files (cleanupOldPosts stormy_store (30 * day)) ''data/posts/stale.json'' = None
   \<and> files (cleanupOldPosts stormy_store (30 * day)) ''data/posts/old.json''
       = files stormy_store ''data/posts/old.json''
   \<and> (\<exists>ix'. stored_index (cleanupOldPosts stormy_store (30 * day)) = Some ix' \<and>
         map fst (posts ix') = [''old''])"
proof -
  let ?old = "snd (aged_ref ''old'' 0)"
  let ?stale = "snd (aged_ref ''stale'' 0)"
  let ?six = "aged_index\<lparr>i_posts := Some [aged_ref ''old'' 0, aged_ref ''stale'' 0]\<rparr>"
  have pf: "post_file ?old = ''data/posts/old.json''" "post_file ?stale = ''data/posts/stale.json''"
    by (simp_all add: retention_defs DATA_PATH_def)
  have a1: "stored_index aged_store = Some aged_index"
    by (simp add: retention_defs store_defs)
  have a2: "\<forall>entry \<in> set (posts aged_index). post_file (snd entry) \<noteq> index_path"
    by (simp add: retention_defs store_defs)
  have a3: "\<not> outage aged_store Get index_path" "\<not> outage aged_store Put index_path"
    by (simp_all add: aged_store_def)
  have a4: "getConfig aged_store = Inr (Config \<lparr>retentionDays = 20\<rparr>)"
    by (simp add: retention_defs store_defs)
  have a5: "[''old''] = take 5 (postsToDelete aged_store (30 * day)
      (retentionMs (Config \<lparr>retentionDays = 20\<rparr>)) aged_index)"
    by (simp add: aged_batch)
  note aged = retention_batch[OF a1 a2 a3 a4 a5]
  have m1: "map_of (posts aged_index) ''old'' = Some ?old"
    by (simp add: retention_defs store_defs)
  have o1: "\<not> outage aged_store Get (post_file ?old)" "\<not> outage aged_store Del (post_file ?old)"
    by (simp_all add: aged_store_def)
  from aged m1 o1 have "files (cleanupOldPosts aged_store (30 * day)) (post_file ?old) = None"
    by simp
  then have r1: "files (cleanupOldPosts aged_store (30 * day)) ''data/posts/old.json'' = None"
    by (simp only: pf)
  have other: "\<And>p. p \<noteq> ''data/posts/old.json'' \<Longrightarrow>
      \<forall>postId meta. postId \<in> set [''old''] \<and> map_of (posts aged_index) postId = Some meta
         \<longrightarrow> p \<noteq> post_file meta"
    using m1 pf by auto
  have n: "''data/posts/busy.json'' \<noteq> index_path" "''data/communities/gaming.json'' \<noteq> index_path"
    by (simp_all add: index_path_def DATA_PATH_def)
  from aged n(1) other[of "''data/posts/busy.json''"]
  have r2: "files (cleanupOldPosts aged_store (30 * day)) ''data/posts/busy.json''
       = files aged_store ''data/posts/busy.json''"
    by simp
  from aged n(2) other[of "''data/communities/gaming.json''"]
  have r3: "files (cleanupOldPosts aged_store (30 * day)) ''data/communities/gaming.json''
       = files aged_store ''data/communities/gaming.json''"
    by simp
  from aged obtain ix' where "stored_index (cleanupOldPosts aged_store (30 * day)) = Some ix'"
    "posts ix' = filter (\<lambda>entry. fst entry \<notin> set [''old'']) (posts aged_index)"
    by blast
  then have r4: "\<exists>ix'. stored_index (cleanupOldPosts aged_store (30 * day)) = Some ix' \<and>
         map fst (posts ix') = [''busy'', ''young'', ''gone'']"
    by (simp add: retention_defs store_defs)
  have b1: "stored_index stormy_store = Some ?six"
    by (simp add: retention_defs store_defs)
  have b2: "\<forall>entry \<in> set (posts ?six). post_file (snd entry) \<noteq> index_path"
    by (simp add: retention_defs store_defs)
  have b3: "\<not> outage stormy_store Get index_path" "\<not> outage stormy_store Put index_path"
    by (simp_all add: stormy_store_def index_path_def DATA_PATH_def)
  have b4: "getConfig stormy_store = Inr (Config \<lparr>retentionDays = 20\<rparr>)"
    by (simp add: retention_defs store_defs)
  have b5: "[''stale''] = take 5 (postsToDelete stormy_store (30 * day)
      (retentionMs (Config \<lparr>retentionDays = 20\<rparr>)) ?six)"
    by (simp add: stormy_batch)
  note stormy = retention_batch[OF b1 b2 b3 b4 b5]
  have m2: "map_of (posts ?six) ''stale'' = Some ?stale"
    by (simp add: retention_defs store_defs)
  have o2: "\<not> outage stormy_store Get (post_file ?stale)"
    "\<not> outage stormy_store Del (post_file ?stale)"
    by (simp_all add: stormy_store_def pf)
  from stormy m2 o2
  have "files (cleanupOldPosts stormy_store (30 * day)) (post_file ?stale) = None"
    by simp
  then have r5: "files (cleanupOldPosts stormy_store (30 * day)) ''data/posts/stale.json'' = None"
    by (simp only: pf)
  have "\<forall>postId meta. postId \<in> set [''stale''] \<and> map_of (posts ?six) postId = Some meta
         \<longrightarrow> ''data/posts/old.json'' \<noteq> post_file meta"
    using m2 pf by auto
  moreover have "''data/posts/old.json'' \<noteq> index_path"
    by (simp add: index_path_def DATA_PATH_def)
  ultimately have r6: "files (cleanupOldPosts stormy_store (30 * day)) ''data/posts/old.json''
       = files stormy_store ''data/posts/old.json''"
    using stormy by simp
  from stormy obtain ix'' where "stored_index (cleanupOldPosts stormy_store (30 * day)) = Some ix''"
    "posts ix'' = filter (\<lambda>entry. fst entry \<notin> set [''stale'']) (posts ?six)"
    by blast
  then have r7: "\<exists>ix'. stored_index (cleanupOldPosts stormy_store (30 * day)) = Some ix' \<and>
         map fst (posts ix') = [''old'']"
    by (simp add: retention_defs store_defs)
  from r1 r2 r3 r4 r5 r6 r7 show ?thesis by blast
qed

end
